theory Spec2Isabelle
  imports Complex_Main "HOL-Library.Multiset" "HOL-Library.Sublist"
    "HOL-Library.Product_Lexorder"
begin

section \<open>Geometry kernel (app/arena/page-old-complex.tsx, lines 14-74)\<close>

text \<open>
  JavaScript numbers are modelled as exact reals. The one place where this matters is a
  division whose divisor can be zero: there JavaScript produces an infinity or NaN, and
  the model writes the outcome out case by case; NaN is the value \<open>None\<close> of an option type.
  A keypoint's optional fields \<open>score?\<close> and \<open>name?\<close> are options.
\<close>

record keypoint =
  kp_x :: real
  kp_y :: real
  kp_score :: "real option"
  kp_name :: "string option"

record pose =
  keypoints :: "keypoint list"

definition MIN_KP_SCORE :: real where
  "MIN_KP_SCORE = 35 / 100"

definition POSE_HOLD_SECONDS :: real where
  "POSE_HOLD_SECONDS = 2"

definition POSE_TIME_LIMIT_SECONDS :: real where
  "POSE_TIME_LIMIT_SECONDS = 20"

definition POSE_TIME_LIMIT_MS :: real where
  "POSE_TIME_LIMIT_MS = POSE_TIME_LIMIT_SECONDS * 1000"

definition clamp :: "real \<Rightarrow> real \<Rightarrow> real \<Rightarrow> real" where
  "clamp v lo hi = max lo (min hi v)"

text \<open>\<open>Math.round\<close> rounds half up.\<close>

definition js_round :: "real \<Rightarrow> int" where
  "js_round v = \<lfloor>v + 1 / 2\<rfloor>"

definition score01To100 :: "real \<Rightarrow> int" where
  "score01To100 t = js_round (clamp t 0 1 * 100)"

text \<open>\<open>getKp\<close>: the first keypoint of that name, unless its score (0 when missing) is
  below the minimum.\<close>

definition getKp_min :: "pose \<Rightarrow> string \<Rightarrow> real \<Rightarrow> keypoint option" where
  "getKp_min p nm minScore =
     (case find (\<lambda>k. kp_name k = Some nm) (keypoints p) of
        None \<Rightarrow> None
      | Some kp \<Rightarrow>
          (let score = (case kp_score kp of None \<Rightarrow> 0 | Some v \<Rightarrow> v)
           in if score < minScore then None else Some kp))"

definition getKp :: "pose \<Rightarrow> string \<Rightarrow> keypoint option" where
  "getKp p nm = getKp_min p nm MIN_KP_SCORE"

definition dist :: "keypoint \<Rightarrow> keypoint \<Rightarrow> real" where
  "dist a b = sqrt ((kp_x a - kp_x b)\<^sup>2 + (kp_y a - kp_y b)\<^sup>2)"

definition avgY :: "keypoint \<Rightarrow> keypoint \<Rightarrow> real" where
  "avgY a b = (kp_y a + kp_y b) / 2"

definition avgX :: "keypoint \<Rightarrow> keypoint \<Rightarrow> real" where
  "avgX a b = (kp_x a + kp_x b) / 2"

text \<open>Angle at point b (a-b-c), in degrees; 180 when a ray has length zero.\<close>

definition angleDeg :: "keypoint \<Rightarrow> keypoint \<Rightarrow> keypoint \<Rightarrow> real" where
  "angleDeg a b c =
     (let abx = kp_x a - kp_x b; aby = kp_y a - kp_y b;
          cbx = kp_x c - kp_x b; cby = kp_y c - kp_y b;
          dot = abx * cbx + aby * cby;
          mag1 = sqrt (abx\<^sup>2 + aby\<^sup>2);
          mag2 = sqrt (cbx\<^sup>2 + cby\<^sup>2)
      in if mag1 = 0 \<or> mag2 = 0 then 180
         else arccos (clamp (dot / (mag1 * mag2)) (- 1) 1) * 180 / pi)"

definition shoulderScale :: "pose \<Rightarrow> real" where
  "shoulderScale p =
     (let viaHips =
            (case (getKp p ''left_hip'', getKp p ''right_hip'') of
               (Some lh, Some rh) \<Rightarrow> (let s = dist lh rh in if s > 1 then s else 100)
             | _ \<Rightarrow> 100)
      in case (getKp p ''left_shoulder'', getKp p ''right_shoulder'') of
           (Some ls, Some rs) \<Rightarrow> (let s = dist ls rs in if s > 1 then s else viaHips)
         | _ \<Rightarrow> viaHips)"

text \<open>
  \<open>s || 1\<close> on a distance: 1 when the distance is 0.
\<close>

definition or1 :: "real \<Rightarrow> real" where
  "or1 s = (if s = 0 then 1 else s)"

text \<open>
  Two validators (Warrior, Grinch Pose) divide by a multiple of the raw shoulder distance
  with no guard. For a divisor \<open>b \<ge> 0\<close>: \<open>clamp01_quot a b\<close> is JavaScript's
  \<open>clamp(a / b, 0, 1)\<close> and \<open>clamp01_one_minus_quot a b\<close> is \<open>clamp(1 - a / b, 0, 1)\<close>.
  With \<open>b = 0\<close> the quotient is NaN for \<open>a = 0\<close> (and \<open>Math.max\<close>, \<open>Math.min\<close> pass NaN
  on), plus infinity for \<open>a > 0\<close> and minus infinity for \<open>a < 0\<close>.
\<close>

definition clamp01_quot :: "real \<Rightarrow> real \<Rightarrow> real option" where
  "clamp01_quot a b =
     (if b \<noteq> 0 then Some (clamp (a / b) 0 1)
      else if a = 0 then None
      else if a > 0 then Some 1 else Some 0)"

definition clamp01_one_minus_quot :: "real \<Rightarrow> real \<Rightarrow> real option" where
  "clamp01_one_minus_quot a b =
     (if b \<noteq> 0 then Some (clamp (1 - a / b) 0 1)
      else if a = 0 then None
      else if a > 0 then Some 0 else Some 1)"

section \<open>Pose validators (app/arena/page-old-complex.tsx, lines 141-851)\<close>

text \<open>
  Each validator returns the accuracy as an integer, or \<open>None\<close> when JavaScript returns NaN.
\<close>

definition validate_T_Pose :: "pose \<Rightarrow> int option" where
  "validate_T_Pose p =
     (case (getKp p ''left_shoulder'', getKp p ''right_shoulder'',
            getKp p ''left_wrist'', getKp p ''right_wrist'') of
        (Some ls, Some rs, Some lw, Some rw) \<Rightarrow>
          (let s = dist ls rs;
               span = \<bar>kp_x rw - kp_x lw\<bar>;
               ratio = span / or1 s;
               wristsY = avgY lw rw;
               shouldersY = avgY ls rs;
               yDiff = \<bar>wristsY - shouldersY\<bar> / or1 s;
               spanScore = clamp ((ratio - 1) / (145 / 100 - 1)) 0 1;
               levelScore = clamp (1 - yDiff / (30 / 100)) 0 1
           in Some (score01To100 (spanScore * levelScore)))
      | _ \<Rightarrow> Some 0)"

definition validate_Hands_Up :: "pose \<Rightarrow> int option" where
  "validate_Hands_Up p =
     (case (getKp p ''nose'', getKp p ''left_wrist'', getKp p ''right_wrist'') of
        (Some nose, Some lw, Some rw) \<Rightarrow>
          (let s = shoulderScale p;
               wristsY = avgY lw rw;
               delta = (kp_y nose - wristsY) / s
           in Some (score01To100 (clamp (delta / (75 / 100)) 0 1)))
      | _ \<Rightarrow> Some 0)"

definition validate_Arms_Wide :: "pose \<Rightarrow> int option" where
  "validate_Arms_Wide p =
     (case (getKp p ''left_shoulder'', getKp p ''right_shoulder'',
            getKp p ''left_wrist'', getKp p ''right_wrist'') of
        (Some ls, Some rs, Some lw, Some rw) \<Rightarrow>
          (let s = dist ls rs;
               span = \<bar>kp_x rw - kp_x lw\<bar>;
               ratio = span / or1 s;
               score = clamp ((ratio - 105 / 100) / (155 / 100 - 105 / 100)) 0 1
           in Some (score01To100 score))
      | _ \<Rightarrow> Some 0)"

definition validate_Antlers :: "pose \<Rightarrow> int option" where
  "validate_Antlers p =
     (case (getKp p ''left_wrist'', getKp p ''right_wrist'', getKp p ''nose'') of
        (Some lw, Some rw, Some nose) \<Rightarrow>
          (let s = shoulderScale p;
               wristsY = avgY lw rw;
               up = clamp ((kp_y nose - wristsY) / (65 / 100 * s)) 0 1;
               handsApart = clamp (\<bar>kp_x rw - kp_x lw\<bar> / (12 / 10 * s)) 0 1
           in Some (score01To100 (up * (7 / 10) + handsApart * (3 / 10))))
      | _ \<Rightarrow> Some 0)"

definition validate_Hands_on_Hips :: "pose \<Rightarrow> int option" where
  "validate_Hands_on_Hips p =
     (case (getKp p ''left_hip'', getKp p ''right_hip'',
            getKp p ''left_wrist'', getKp p ''right_wrist'') of
        (Some lh, Some rh, Some lw, Some rw) \<Rightarrow>
          (let s = shoulderScale p;
               left = clamp (1 - dist lw lh / (9 / 10 * s)) 0 1;
               right = clamp (1 - dist rw rh / (9 / 10 * s)) 0 1
           in Some (score01To100 ((left + right) / 2)))
      | _ \<Rightarrow> Some 0)"

definition validate_Left_Arm_Up :: "pose \<Rightarrow> int option" where
  "validate_Left_Arm_Up p =
     (case (getKp p ''nose'', getKp p ''left_shoulder'', getKp p ''right_shoulder'',
            getKp p ''left_wrist'', getKp p ''right_wrist'') of
        (Some nose, Some ls, Some rs, Some lw, Some rw) \<Rightarrow>
          (let s = shoulderScale p;
               leftUp = clamp ((kp_y nose - kp_y lw) / (7 / 10 * s)) 0 1;
               rightDown = clamp ((kp_y rw - kp_y rs) / (6 / 10 * s)) 0 1
           in Some (score01To100 (leftUp * (65 / 100) + rightDown * (35 / 100))))
      | _ \<Rightarrow> Some 0)"

definition validate_Right_Arm_Up :: "pose \<Rightarrow> int option" where
  "validate_Right_Arm_Up p =
     (case (getKp p ''nose'', getKp p ''left_shoulder'', getKp p ''right_shoulder'',
            getKp p ''left_wrist'', getKp p ''right_wrist'') of
        (Some nose, Some ls, Some rs, Some lw, Some rw) \<Rightarrow>
          (let s = shoulderScale p;
               rightUp = clamp ((kp_y nose - kp_y rw) / (7 / 10 * s)) 0 1;
               leftDown = clamp ((kp_y lw - kp_y ls) / (6 / 10 * s)) 0 1
           in Some (score01To100 (rightUp * (65 / 100) + leftDown * (35 / 100))))
      | _ \<Rightarrow> Some 0)"

definition validate_Clap :: "pose \<Rightarrow> int option" where
  "validate_Clap p =
     (case (getKp p ''left_wrist'', getKp p ''right_wrist'') of
        (Some lw, Some rw) \<Rightarrow>
          (let s = shoulderScale p;
               close = clamp (1 - dist lw rw / (45 / 100 * s)) 0 1
           in Some (score01To100 close))
      | _ \<Rightarrow> Some 0)"

definition validate_Touch_Toes :: "pose \<Rightarrow> int option" where
  "validate_Touch_Toes p =
     (case (getKp p ''left_wrist'', getKp p ''right_wrist'',
            getKp p ''left_ankle'', getKp p ''right_ankle'') of
        (Some lw, Some rw, Some la, Some ra) \<Rightarrow>
          (let s = shoulderScale p;
               left = clamp (1 - dist lw la / (12 / 10 * s)) 0 1;
               right = clamp (1 - dist rw ra / (12 / 10 * s)) 0 1
           in Some (score01To100 ((left + right) / 2)))
      | _ \<Rightarrow> Some 0)"

definition validate_Squat :: "pose \<Rightarrow> int option" where
  "validate_Squat p =
     (case (getKp p ''left_hip'', getKp p ''left_knee'', getKp p ''left_ankle'',
            getKp p ''right_hip'', getKp p ''right_knee'', getKp p ''right_ankle'') of
        (Some lh, Some lk, Some la, Some rh, Some rk, Some ra) \<Rightarrow>
          (let a1 = angleDeg lh lk la;
               a2 = angleDeg rh rk ra;
               avg = (a1 + a2) / 2;
               bend = clamp ((160 - avg) / (160 - 95)) 0 1
           in Some (score01To100 bend))
      | _ \<Rightarrow> Some 0)"

definition validate_High_Knee_Left :: "pose \<Rightarrow> int option" where
  "validate_High_Knee_Left p =
     (case (getKp p ''left_hip'', getKp p ''left_knee'', getKp p ''right_hip'') of
        (Some lh, Some lk, Some rh) \<Rightarrow>
          (let s = shoulderScale p;
               lift = clamp ((kp_y lh - kp_y lk) / (65 / 100 * s)) 0 1;
               stable = clamp ((kp_y lk - kp_y rh) / (12 / 10 * s)) 0 1
           in Some (score01To100 (lift * (75 / 100) + stable * (25 / 100))))
      | _ \<Rightarrow> Some 0)"

definition validate_High_Knee_Right :: "pose \<Rightarrow> int option" where
  "validate_High_Knee_Right p =
     (case (getKp p ''right_hip'', getKp p ''right_knee'', getKp p ''left_hip'') of
        (Some rh, Some rk, Some lh) \<Rightarrow>
          (let s = shoulderScale p;
               lift = clamp ((kp_y rh - kp_y rk) / (65 / 100 * s)) 0 1;
               stable = clamp ((kp_y rk - kp_y lh) / (12 / 10 * s)) 0 1
           in Some (score01To100 (lift * (75 / 100) + stable * (25 / 100))))
      | _ \<Rightarrow> Some 0)"

definition validate_Side_Lunge_Left :: "pose \<Rightarrow> int option" where
  "validate_Side_Lunge_Left p =
     (case (getKp p ''left_hip'', getKp p ''left_knee'', getKp p ''left_ankle'',
            getKp p ''right_hip'', getKp p ''right_knee'', getKp p ''right_ankle'') of
        (Some lh, Some lk, Some la, Some rh, Some rk, Some ra) \<Rightarrow>
          (let leftBend = clamp ((160 - angleDeg lh lk la) / (160 - 100)) 0 1;
               rightStraight = clamp ((angleDeg rh rk ra - 145) / (175 - 145)) 0 1
           in Some (score01To100 (leftBend * (7 / 10) + rightStraight * (3 / 10))))
      | _ \<Rightarrow> Some 0)"

definition validate_Side_Lunge_Right :: "pose \<Rightarrow> int option" where
  "validate_Side_Lunge_Right p =
     (case (getKp p ''left_hip'', getKp p ''left_knee'', getKp p ''left_ankle'',
            getKp p ''right_hip'', getKp p ''right_knee'', getKp p ''right_ankle'') of
        (Some lh, Some lk, Some la, Some rh, Some rk, Some ra) \<Rightarrow>
          (let rightBend = clamp ((160 - angleDeg rh rk ra) / (160 - 100)) 0 1;
               leftStraight = clamp ((angleDeg lh lk la - 145) / (175 - 145)) 0 1
           in Some (score01To100 (rightBend * (7 / 10) + leftStraight * (3 / 10))))
      | _ \<Rightarrow> Some 0)"

definition validate_Balance_Left :: "pose \<Rightarrow> int option" where
  "validate_Balance_Left p =
     (case (getKp p ''left_ankle'', getKp p ''right_ankle'',
            getKp p ''left_knee'', getKp p ''right_knee'') of
        (Some la, Some ra, Some lk, Some rk) \<Rightarrow>
          (let s = shoulderScale p;
               lift = clamp ((kp_y ra - kp_y la) / (7 / 10 * s)) 0 1;
               kneeDiff = clamp ((kp_y rk - kp_y lk) / (8 / 10 * s)) 0 1
           in Some (score01To100 (lift * (7 / 10) + kneeDiff * (3 / 10))))
      | _ \<Rightarrow> Some 0)"

definition validate_Balance_Right :: "pose \<Rightarrow> int option" where
  "validate_Balance_Right p =
     (case (getKp p ''left_ankle'', getKp p ''right_ankle'',
            getKp p ''left_knee'', getKp p ''right_knee'') of
        (Some la, Some ra, Some lk, Some rk) \<Rightarrow>
          (let s = shoulderScale p;
               lift = clamp ((kp_y la - kp_y ra) / (7 / 10 * s)) 0 1;
               kneeDiff = clamp ((kp_y lk - kp_y rk) / (8 / 10 * s)) 0 1
           in Some (score01To100 (lift * (7 / 10) + kneeDiff * (3 / 10))))
      | _ \<Rightarrow> Some 0)"

definition validate_Star_Pose :: "pose \<Rightarrow> int option" where
  "validate_Star_Pose p =
     (case (getKp p ''left_wrist'', getKp p ''right_wrist'', getKp p ''nose'',
            getKp p ''left_ankle'', getKp p ''right_ankle'') of
        (Some lw, Some rw, Some nose, Some la, Some ra) \<Rightarrow>
          (let s = shoulderScale p;
               wristsY = avgY lw rw;
               handsUp = clamp ((kp_y nose - wristsY) / (65 / 100 * s)) 0 1;
               feetWide = clamp (\<bar>kp_x ra - kp_x la\<bar> / (16 / 10 * s)) 0 1
           in Some (score01To100 (handsUp * (6 / 10) + feetWide * (4 / 10))))
      | _ \<Rightarrow> Some 0)"

text \<open>Warrior divides by multiples of \<open>dist(ls, rs)\<close> itself, not of \<open>s || 1\<close>.\<close>

definition validate_Warrior :: "pose \<Rightarrow> int option" where
  "validate_Warrior p =
     (case (getKp p ''left_shoulder'', getKp p ''right_shoulder'',
            getKp p ''left_wrist'', getKp p ''right_wrist'',
            getKp p ''left_ankle'', getKp p ''right_ankle'') of
        (Some ls, Some rs, Some lw, Some rw, Some la, Some ra) \<Rightarrow>
          (let s = dist ls rs;
               wristsY = avgY lw rw;
               shouldersY = avgY ls rs
           in case (clamp01_quot \<bar>kp_x rw - kp_x lw\<bar> (145 / 100 * s),
                    clamp01_one_minus_quot \<bar>wristsY - shouldersY\<bar> (32 / 100 * s),
                    clamp01_quot \<bar>kp_x ra - kp_x la\<bar> (16 / 10 * s)) of
                (Some armSpan, Some level, Some stance) \<Rightarrow>
                  Some (score01To100 (armSpan * (5 / 10) + level * (2 / 10) + stance * (3 / 10)))
              | _ \<Rightarrow> None)
      | _ \<Rightarrow> Some 0)"

definition validate_Hands_Behind_Head :: "pose \<Rightarrow> int option" where
  "validate_Hands_Behind_Head p =
     (case (getKp p ''left_ear'', getKp p ''right_ear'',
            getKp p ''left_wrist'', getKp p ''right_wrist'') of
        (Some le, Some re, Some lw, Some rw) \<Rightarrow>
          (let s = shoulderScale p;
               left = clamp (1 - dist lw le / (75 / 100 * s)) 0 1;
               right = clamp (1 - dist rw re / (75 / 100 * s)) 0 1
           in Some (score01To100 ((left + right) / 2)))
      | _ \<Rightarrow> Some 0)"

definition validate_Punch_Left :: "pose \<Rightarrow> int option" where
  "validate_Punch_Left p =
     (case (getKp p ''left_shoulder'', getKp p ''left_elbow'', getKp p ''left_wrist'') of
        (Some ls, Some le, Some lw) \<Rightarrow>
          (let elbow = angleDeg ls le lw;
               straight = clamp ((elbow - 135) / (175 - 135)) 0 1
           in Some (score01To100 straight))
      | _ \<Rightarrow> Some 0)"

definition validate_Punch_Right :: "pose \<Rightarrow> int option" where
  "validate_Punch_Right p =
     (case (getKp p ''right_shoulder'', getKp p ''right_elbow'', getKp p ''right_wrist'') of
        (Some rs, Some re, Some rw) \<Rightarrow>
          (let elbow = angleDeg rs re rw;
               straight = clamp ((elbow - 135) / (175 - 135)) 0 1
           in Some (score01To100 straight))
      | _ \<Rightarrow> Some 0)"

definition validate_Kick_Left :: "pose \<Rightarrow> int option" where
  "validate_Kick_Left p =
     (case (getKp p ''left_hip'', getKp p ''left_ankle'') of
        (Some lh, Some la) \<Rightarrow>
          (let s = shoulderScale p;
               lift = clamp ((kp_y lh - kp_y la) / (75 / 100 * s)) 0 1
           in Some (score01To100 lift))
      | _ \<Rightarrow> Some 0)"

definition validate_Kick_Right :: "pose \<Rightarrow> int option" where
  "validate_Kick_Right p =
     (case (getKp p ''right_hip'', getKp p ''right_ankle'') of
        (Some rh, Some ra) \<Rightarrow>
          (let s = shoulderScale p;
               lift = clamp ((kp_y rh - kp_y ra) / (75 / 100 * s)) 0 1
           in Some (score01To100 lift))
      | _ \<Rightarrow> Some 0)"

definition validate_Lean_Left :: "pose \<Rightarrow> int option" where
  "validate_Lean_Left p =
     (case (getKp p ''left_shoulder'', getKp p ''right_shoulder'',
            getKp p ''left_hip'', getKp p ''right_hip'') of
        (Some ls, Some rs, Some lh, Some rh) \<Rightarrow>
          (let shoulderMidX = avgX ls rs;
               hipMidX = avgX lh rh;
               s = dist ls rs;
               offset = (hipMidX - shoulderMidX) / or1 s
           in Some (score01To100 (clamp (\<bar>offset\<bar> / (35 / 100)) 0 1)))
      | _ \<Rightarrow> Some 0)"

definition validate_Lean_Right :: "pose \<Rightarrow> int option" where
  "validate_Lean_Right p =
     (case (getKp p ''left_shoulder'', getKp p ''right_shoulder'',
            getKp p ''left_hip'', getKp p ''right_hip'') of
        (Some ls, Some rs, Some lh, Some rh) \<Rightarrow>
          (let shoulderMidX = avgX ls rs;
               hipMidX = avgX lh rh;
               s = dist ls rs;
               offset = (shoulderMidX - hipMidX) / or1 s
           in Some (score01To100 (clamp (\<bar>offset\<bar> / (35 / 100)) 0 1)))
      | _ \<Rightarrow> Some 0)"

definition validate_Elf_Hop :: "pose \<Rightarrow> int option" where
  "validate_Elf_Hop p =
     (case (getKp p ''left_hip'', getKp p ''left_knee'', getKp p ''left_ankle'',
            getKp p ''right_hip'', getKp p ''right_knee'', getKp p ''right_ankle'') of
        (Some lh, Some lk, Some la, Some rh, Some rk, Some ra) \<Rightarrow>
          (let a1 = angleDeg lh lk la;
               a2 = angleDeg rh rk ra;
               avg = (a1 + a2) / 2;
               bend = clamp ((155 - avg) / (155 - 105)) 0 1
           in Some (score01To100 bend))
      | _ \<Rightarrow> Some 0)"

definition validate_Santa_Salute :: "pose \<Rightarrow> int option" where
  "validate_Santa_Salute p =
     (case (getKp p ''right_wrist'', getKp p ''right_ear'') of
        (Some rw, Some re) \<Rightarrow>
          (let s = shoulderScale p;
               salute = clamp (1 - dist rw re / (7 / 10 * s)) 0 1
           in Some (score01To100 salute))
      | _ \<Rightarrow> Some 0)"

definition validate_Reindeer_Jump :: "pose \<Rightarrow> int option" where
  "validate_Reindeer_Jump p =
     (case (getKp p ''left_wrist'', getKp p ''right_wrist'', getKp p ''nose'') of
        (Some lw, Some rw, Some nose) \<Rightarrow>
          (let s = shoulderScale p;
               up = clamp ((kp_y nose - avgY lw rw) / (7 / 10 * s)) 0 1;
               apart = clamp (\<bar>kp_x rw - kp_x lw\<bar> / (14 / 10 * s)) 0 1
           in Some (score01To100 (up * (6 / 10) + apart * (4 / 10))))
      | _ \<Rightarrow> Some 0)"

definition validate_Snowman_Stand :: "pose \<Rightarrow> int option" where
  "validate_Snowman_Stand p =
     (case (getKp p ''left_wrist'', getKp p ''right_wrist'',
            getKp p ''left_hip'', getKp p ''right_hip'') of
        (Some lw, Some rw, Some lh, Some rh) \<Rightarrow>
          (let s = shoulderScale p;
               armsDown = clamp ((avgY lw rw - avgY lh rh) / (7 / 10 * s)) 0 1
           in Some (score01To100 armsDown))
      | _ \<Rightarrow> Some 0)"

definition validate_Gift_Box_Squat :: "pose \<Rightarrow> int option" where
  "validate_Gift_Box_Squat p =
     (case (getKp p ''left_wrist'', getKp p ''right_wrist'',
            getKp p ''left_hip'', getKp p ''left_knee'', getKp p ''left_ankle'',
            getKp p ''right_hip'', getKp p ''right_knee'', getKp p ''right_ankle'') of
        (Some lw, Some rw, Some lh, Some lk, Some la, Some rh, Some rk, Some ra) \<Rightarrow>
          (let s = shoulderScale p;
               handsTogether = clamp (1 - dist lw rw / (5 / 10 * s)) 0 1;
               a1 = angleDeg lh lk la;
               a2 = angleDeg rh rk ra;
               squat = clamp ((160 - (a1 + a2) / 2) / (160 - 100)) 0 1
           in Some (score01To100 (handsTogether * (4 / 10) + squat * (6 / 10))))
      | _ \<Rightarrow> Some 0)"

definition validate_Christmas_Tree :: "pose \<Rightarrow> int option" where
  "validate_Christmas_Tree p =
     (case (getKp p ''left_wrist'', getKp p ''right_wrist'', getKp p ''nose'') of
        (Some lw, Some rw, Some nose) \<Rightarrow>
          (let s = shoulderScale p;
               handsUp = clamp ((kp_y nose - avgY lw rw) / (6 / 10 * s)) 0 1;
               together = clamp (1 - dist lw rw / (8 / 10 * s)) 0 1
           in Some (score01To100 (handsUp * (5 / 10) + together * (5 / 10))))
      | _ \<Rightarrow> Some 0)"

definition validate_Snowball_Throw :: "pose \<Rightarrow> int option" where
  "validate_Snowball_Throw p =
     (case (getKp p ''right_wrist'', getKp p ''right_shoulder'', getKp p ''right_ear'') of
        (Some rw, Some rs, Some re) \<Rightarrow>
          (let s = shoulderScale p;
               behindHead = clamp ((kp_y rs - kp_y rw) / (5 / 10 * s)) 0 1
           in Some (score01To100 behindHead))
      | _ \<Rightarrow> Some 0)"

text \<open>Grinch Pose divides by \<open>1.2 * dist(ls, rs)\<close> with no guard either.\<close>

definition validate_Grinch_Pose :: "pose \<Rightarrow> int option" where
  "validate_Grinch_Pose p =
     (case (getKp p ''left_wrist'', getKp p ''right_wrist'',
            getKp p ''left_shoulder'', getKp p ''right_shoulder'') of
        (Some lw, Some rw, Some ls, Some rs) \<Rightarrow>
          (let s = dist ls rs
           in case clamp01_one_minus_quot
                     \<bar>(kp_x lw - kp_x rs) + (kp_x rw - kp_x ls)\<bar> (12 / 10 * s) of
                Some crossed \<Rightarrow> Some (score01To100 crossed)
              | None \<Rightarrow> None)
      | _ \<Rightarrow> Some 0)"

definition validate_Angel_Wings :: "pose \<Rightarrow> int option" where
  "validate_Angel_Wings p =
     (case (getKp p ''left_shoulder'', getKp p ''right_shoulder'',
            getKp p ''left_wrist'', getKp p ''right_wrist'') of
        (Some ls, Some rs, Some lw, Some rw) \<Rightarrow>
          (let s = shoulderScale p;
               shoulderY = avgY ls rs;
               wristY = avgY lw rw;
               upward = clamp ((shoulderY - wristY) / (5 / 10 * s)) 0 1;
               wide = clamp (\<bar>kp_x rw - kp_x lw\<bar> / (15 / 10 * s)) 0 1
           in Some (score01To100 (upward * (5 / 10) + wide * (5 / 10))))
      | _ \<Rightarrow> Some 0)"

definition validate_Candy_Cane :: "pose \<Rightarrow> int option" where
  "validate_Candy_Cane p =
     (case (getKp p ''right_wrist'', getKp p ''nose'',
            getKp p ''left_shoulder'', getKp p ''right_shoulder'',
            getKp p ''left_hip'', getKp p ''right_hip'') of
        (Some rw, Some nose, Some ls, Some rs, Some lh, Some rh) \<Rightarrow>
          (let s = shoulderScale p;
               armUp = clamp ((kp_y nose - kp_y rw) / (65 / 100 * s)) 0 1;
               shoulderMidX = avgX ls rs;
               hipMidX = avgX lh rh;
               lean = clamp (\<bar>hipMidX - shoulderMidX\<bar> / (3 / 10 * s)) 0 1
           in Some (score01To100 (armUp * (7 / 10) + lean * (3 / 10))))
      | _ \<Rightarrow> Some 0)"

definition validate_Ho_Ho_Ho :: "pose \<Rightarrow> int option" where
  "validate_Ho_Ho_Ho p =
     (case (getKp p ''left_wrist'', getKp p ''right_wrist'',
            getKp p ''left_hip'', getKp p ''right_hip'',
            getKp p ''left_shoulder'', getKp p ''right_shoulder'') of
        (Some lw, Some rw, Some lh, Some rh, Some ls, Some rs) \<Rightarrow>
          (let bellyY = (avgY ls rs + avgY lh rh) / 2;
               wristsY = avgY lw rw;
               s = shoulderScale p;
               onBelly = clamp (1 - \<bar>wristsY - bellyY\<bar> / (4 / 10 * s)) 0 1
           in Some (score01To100 onBelly))
      | _ \<Rightarrow> Some 0)"

definition validate_Sleigh_Ride :: "pose \<Rightarrow> int option" where
  "validate_Sleigh_Ride p =
     (case (getKp p ''left_wrist'', getKp p ''right_wrist'',
            getKp p ''left_shoulder'', getKp p ''right_shoulder'') of
        (Some lw, Some rw, Some ls, Some rs) \<Rightarrow>
          (let s = shoulderScale p;
               handsForward = clamp ((avgY lw rw - avgY ls rs) / (4 / 10 * s)) 0 1
           in Some (score01To100 handsForward))
      | _ \<Rightarrow> Some 0)"

definition validate_Elf_Dance :: "pose \<Rightarrow> int option" where
  "validate_Elf_Dance p =
     (case (getKp p ''left_hip'', getKp p ''right_hip'',
            getKp p ''left_wrist'', getKp p ''right_wrist'',
            getKp p ''left_knee'', getKp p ''right_knee'') of
        (Some lh, Some rh, Some lw, Some rw, Some lk, Some rk) \<Rightarrow>
          (let s = shoulderScale p;
               handsOnHips = clamp (1 - (dist lw lh + dist rw rh) / (15 / 10 * s)) 0 1;
               kneeLift = clamp (\<bar>kp_y lk - kp_y rk\<bar> / (6 / 10 * s)) 0 1
           in Some (score01To100 (handsOnHips * (5 / 10) + kneeLift * (5 / 10))))
      | _ \<Rightarrow> Some 0)"

definition validate_Star_on_Top :: "pose \<Rightarrow> int option" where
  "validate_Star_on_Top p =
     (case (getKp p ''left_wrist'', getKp p ''right_wrist'',
            getKp p ''left_ankle'', getKp p ''right_ankle'', getKp p ''nose'') of
        (Some lw, Some rw, Some la, Some ra, Some nose) \<Rightarrow>
          (let s = shoulderScale p;
               armsWide = clamp (\<bar>kp_x rw - kp_x lw\<bar> / (16 / 10 * s)) 0 1;
               legsWide = clamp (\<bar>kp_x ra - kp_x la\<bar> / (15 / 10 * s)) 0 1;
               armsUp = clamp ((kp_y nose - avgY lw rw) / (6 / 10 * s)) 0 1
           in Some (score01To100 (armsWide * (4 / 10) + legsWide * (3 / 10) + armsUp * (3 / 10))))
      | _ \<Rightarrow> Some 0)"

definition validate_Present_Surprise :: "pose \<Rightarrow> int option" where
  "validate_Present_Surprise p =
     (case (getKp p ''left_wrist'', getKp p ''right_wrist'', getKp p ''nose'') of
        (Some lw, Some rw, Some nose) \<Rightarrow>
          (let s = shoulderScale p;
               nearFace = clamp (1 - (dist lw nose + dist rw nose) / (15 / 10 * s)) 0 1
           in Some (score01To100 nearFace))
      | _ \<Rightarrow> Some 0)"

definition validate_Jingle_Bell_Rock :: "pose \<Rightarrow> int option" where
  "validate_Jingle_Bell_Rock p =
     (case (getKp p ''left_wrist'', getKp p ''right_wrist'', getKp p ''nose'',
            getKp p ''left_hip'') of
        (Some lw, Some rw, Some nose, Some lh) \<Rightarrow>
          (let s = shoulderScale p;
               oneUp = max (clamp ((kp_y nose - kp_y lw) / (6 / 10 * s)) 0 1)
                           (clamp ((kp_y nose - kp_y rw) / (6 / 10 * s)) 0 1);
               oneDown = max (clamp ((kp_y lw - kp_y lh) / (5 / 10 * s)) 0 1)
                             (clamp ((kp_y rw - kp_y lh) / (5 / 10 * s)) 0 1)
           in Some (score01To100 ((oneUp + oneDown) / 2)))
      | _ \<Rightarrow> Some 0)"

definition validate_Frosty_Wave :: "pose \<Rightarrow> int option" where
  "validate_Frosty_Wave p =
     (case (getKp p ''right_wrist'', getKp p ''right_shoulder'', getKp p ''nose'') of
        (Some rw, Some rs, Some nose) \<Rightarrow>
          (let s = shoulderScale p;
               handUp = clamp ((kp_y nose - kp_y rw) / (6 / 10 * s)) 0 1;
               toSide = clamp (\<bar>kp_x rw - kp_x rs\<bar> / (5 / 10 * s)) 0 1
           in Some (score01To100 (handUp * (7 / 10) + toSide * (3 / 10))))
      | _ \<Rightarrow> Some 0)"

definition validate_Mistletoe_Kiss :: "pose \<Rightarrow> int option" where
  "validate_Mistletoe_Kiss p =
     (case (getKp p ''right_wrist'', getKp p ''nose'') of
        (Some rw, Some nose) \<Rightarrow>
          (let s = shoulderScale p;
               nearMouth = clamp (1 - dist rw nose / (6 / 10 * s)) 0 1
           in Some (score01To100 nearMouth))
      | _ \<Rightarrow> Some 0)"

definition validate_Nutcracker_March :: "pose \<Rightarrow> int option" where
  "validate_Nutcracker_March p =
     (case (getKp p ''left_knee'', getKp p ''right_knee'',
            getKp p ''left_hip'', getKp p ''right_hip'') of
        (Some lk, Some rk, Some lh, Some rh) \<Rightarrow>
          (let s = shoulderScale p;
               kneeLift = max (clamp ((kp_y lh - kp_y lk) / (65 / 100 * s)) 0 1)
                              (clamp ((kp_y rh - kp_y rk) / (65 / 100 * s)) 0 1)
           in Some (score01To100 kneeLift))
      | _ \<Rightarrow> Some 0)"

definition validate_Chimney_Climb :: "pose \<Rightarrow> int option" where
  "validate_Chimney_Climb p =
     (case (getKp p ''left_wrist'', getKp p ''right_wrist'', getKp p ''nose'') of
        (Some lw, Some rw, Some nose) \<Rightarrow>
          (let s = shoulderScale p;
               bothUp = clamp ((kp_y nose - avgY lw rw) / (8 / 10 * s)) 0 1
           in Some (score01To100 bothUp))
      | _ \<Rightarrow> Some 0)"

definition validate_Santas_Bag_Carry :: "pose \<Rightarrow> int option" where
  "validate_Santas_Bag_Carry p =
     (case (getKp p ''right_wrist'', getKp p ''right_shoulder'', getKp p ''right_ear'') of
        (Some rw, Some rs, Some re) \<Rightarrow>
          (let s = shoulderScale p;
               nearShoulder = clamp (1 - dist rw rs / (6 / 10 * s)) 0 1;
               handUp = clamp ((kp_y rs - kp_y rw) / (4 / 10 * s)) 0 1
           in Some (score01To100 (nearShoulder * (7 / 10) + handUp * (3 / 10))))
      | _ \<Rightarrow> Some 0)"

section \<open>The challenge registry\<close>

text \<open>The entries of the validator array, in the order of the source.\<close>

datatype challenge =
  T_Pose
  | Hands_Up
  | Arms_Wide
  | Antlers
  | Hands_on_Hips
  | Left_Arm_Up
  | Right_Arm_Up
  | Clap
  | Touch_Toes
  | Squat
  | High_Knee_Left
  | High_Knee_Right
  | Side_Lunge_Left
  | Side_Lunge_Right
  | Balance_Left
  | Balance_Right
  | Star_Pose
  | Warrior
  | Hands_Behind_Head
  | Punch_Left
  | Punch_Right
  | Kick_Left
  | Kick_Right
  | Lean_Left
  | Lean_Right
  | Elf_Hop
  | Santa_Salute
  | Reindeer_Jump
  | Snowman_Stand
  | Gift_Box_Squat
  | Christmas_Tree
  | Snowball_Throw
  | Grinch_Pose
  | Angel_Wings
  | Candy_Cane
  | Ho_Ho_Ho
  | Sleigh_Ride
  | Elf_Dance
  | Star_on_Top
  | Present_Surprise
  | Jingle_Bell_Rock
  | Frosty_Wave
  | Mistletoe_Kiss
  | Nutcracker_March
  | Chimney_Climb
  | Santas_Bag_Carry

primrec challenge_name :: "challenge \<Rightarrow> string" where
  "challenge_name T_Pose = ''T-Pose''"
| "challenge_name Hands_Up = ''Hands Up''"
| "challenge_name Arms_Wide = ''Arms Wide (Santa)''"
| "challenge_name Antlers = ''Antlers (Reindeer)''"
| "challenge_name Hands_on_Hips = ''Hands on Hips''"
| "challenge_name Left_Arm_Up = ''Left Arm Up''"
| "challenge_name Right_Arm_Up = ''Right Arm Up''"
| "challenge_name Clap = ''Clap''"
| "challenge_name Touch_Toes = ''Touch Toes''"
| "challenge_name Squat = ''Squat''"
| "challenge_name High_Knee_Left = ''High Knee (Left)''"
| "challenge_name High_Knee_Right = ''High Knee (Right)''"
| "challenge_name Side_Lunge_Left = ''Side Lunge (Left)''"
| "challenge_name Side_Lunge_Right = ''Side Lunge (Right)''"
| "challenge_name Balance_Left = ''Balance (Left)''"
| "challenge_name Balance_Right = ''Balance (Right)''"
| "challenge_name Star_Pose = ''Star Pose''"
| "challenge_name Warrior = ''Warrior''"
| "challenge_name Hands_Behind_Head = ''Hands Behind Head''"
| "challenge_name Punch_Left = ''Punch Left''"
| "challenge_name Punch_Right = ''Punch Right''"
| "challenge_name Kick_Left = ''Kick Left''"
| "challenge_name Kick_Right = ''Kick Right''"
| "challenge_name Lean_Left = ''Lean Left''"
| "challenge_name Lean_Right = ''Lean Right''"
| "challenge_name Elf_Hop = ''Elf Hop (Bend Knees)''"
| "challenge_name Santa_Salute = ''Santa Salute''"
| "challenge_name Reindeer_Jump = ''Reindeer Jump''"
| "challenge_name Snowman_Stand = ''Snowman Stand''"
| "challenge_name Gift_Box_Squat = ''Gift Box Squat''"
| "challenge_name Christmas_Tree = ''Christmas Tree''"
| "challenge_name Snowball_Throw = ''Snowball Throw''"
| "challenge_name Grinch_Pose = ''Grinch Pose''"
| "challenge_name Angel_Wings = ''Angel Wings''"
| "challenge_name Candy_Cane = ''Candy Cane''"
| "challenge_name Ho_Ho_Ho = ''Ho Ho Ho''"
| "challenge_name Sleigh_Ride = ''Sleigh Ride''"
| "challenge_name Elf_Dance = ''Elf Dance''"
| "challenge_name Star_on_Top = ''Star on Top''"
| "challenge_name Present_Surprise = ''Present Surprise''"
| "challenge_name Jingle_Bell_Rock = ''Jingle Bell Rock''"
| "challenge_name Frosty_Wave = ''Frosty Wave''"
| "challenge_name Mistletoe_Kiss = ''Mistletoe Kiss''"
| "challenge_name Nutcracker_March = ''Nutcracker March''"
| "challenge_name Chimney_Climb = ''Chimney Climb''"
| "challenge_name Santas_Bag_Carry = ''Santa's Bag Carry''"

primrec validate :: "challenge \<Rightarrow> pose \<Rightarrow> int option" where
  "validate T_Pose = validate_T_Pose"
| "validate Hands_Up = validate_Hands_Up"
| "validate Arms_Wide = validate_Arms_Wide"
| "validate Antlers = validate_Antlers"
| "validate Hands_on_Hips = validate_Hands_on_Hips"
| "validate Left_Arm_Up = validate_Left_Arm_Up"
| "validate Right_Arm_Up = validate_Right_Arm_Up"
| "validate Clap = validate_Clap"
| "validate Touch_Toes = validate_Touch_Toes"
| "validate Squat = validate_Squat"
| "validate High_Knee_Left = validate_High_Knee_Left"
| "validate High_Knee_Right = validate_High_Knee_Right"
| "validate Side_Lunge_Left = validate_Side_Lunge_Left"
| "validate Side_Lunge_Right = validate_Side_Lunge_Right"
| "validate Balance_Left = validate_Balance_Left"
| "validate Balance_Right = validate_Balance_Right"
| "validate Star_Pose = validate_Star_Pose"
| "validate Warrior = validate_Warrior"
| "validate Hands_Behind_Head = validate_Hands_Behind_Head"
| "validate Punch_Left = validate_Punch_Left"
| "validate Punch_Right = validate_Punch_Right"
| "validate Kick_Left = validate_Kick_Left"
| "validate Kick_Right = validate_Kick_Right"
| "validate Lean_Left = validate_Lean_Left"
| "validate Lean_Right = validate_Lean_Right"
| "validate Elf_Hop = validate_Elf_Hop"
| "validate Santa_Salute = validate_Santa_Salute"
| "validate Reindeer_Jump = validate_Reindeer_Jump"
| "validate Snowman_Stand = validate_Snowman_Stand"
| "validate Gift_Box_Squat = validate_Gift_Box_Squat"
| "validate Christmas_Tree = validate_Christmas_Tree"
| "validate Snowball_Throw = validate_Snowball_Throw"
| "validate Grinch_Pose = validate_Grinch_Pose"
| "validate Angel_Wings = validate_Angel_Wings"
| "validate Candy_Cane = validate_Candy_Cane"
| "validate Ho_Ho_Ho = validate_Ho_Ho_Ho"
| "validate Sleigh_Ride = validate_Sleigh_Ride"
| "validate Elf_Dance = validate_Elf_Dance"
| "validate Star_on_Top = validate_Star_on_Top"
| "validate Present_Surprise = validate_Present_Surprise"
| "validate Jingle_Bell_Rock = validate_Jingle_Bell_Rock"
| "validate Frosty_Wave = validate_Frosty_Wave"
| "validate Mistletoe_Kiss = validate_Mistletoe_Kiss"
| "validate Nutcracker_March = validate_Nutcracker_March"
| "validate Chimney_Climb = validate_Chimney_Climb"
| "validate Santas_Bag_Carry = validate_Santas_Bag_Carry"

text \<open>
  The joints a validator looks up with \<open>getKp\<close> before it computes anything: the joints of
  its guard \<open>if (!a || !b || ...) return 0\<close>.
\<close>

primrec required_joints :: "challenge \<Rightarrow> string list" where
  "required_joints T_Pose = [''left_shoulder'', ''right_shoulder'', ''left_wrist'', ''right_wrist'']"
| "required_joints Hands_Up = [''nose'', ''left_wrist'', ''right_wrist'']"
| "required_joints Arms_Wide = [''left_shoulder'', ''right_shoulder'', ''left_wrist'', ''right_wrist'']"
| "required_joints Antlers = [''left_wrist'', ''right_wrist'', ''nose'']"
| "required_joints Hands_on_Hips = [''left_hip'', ''right_hip'', ''left_wrist'', ''right_wrist'']"
| "required_joints Left_Arm_Up = [''nose'', ''left_shoulder'', ''right_shoulder'', ''left_wrist'', ''right_wrist'']"
| "required_joints Right_Arm_Up = [''nose'', ''left_shoulder'', ''right_shoulder'', ''left_wrist'', ''right_wrist'']"
| "required_joints Clap = [''left_wrist'', ''right_wrist'']"
| "required_joints Touch_Toes = [''left_wrist'', ''right_wrist'', ''left_ankle'', ''right_ankle'']"
| "required_joints Squat = [''left_hip'', ''left_knee'', ''left_ankle'', ''right_hip'', ''right_knee'', ''right_ankle'']"
| "required_joints High_Knee_Left = [''left_hip'', ''left_knee'', ''right_hip'']"
| "required_joints High_Knee_Right = [''right_hip'', ''right_knee'', ''left_hip'']"
| "required_joints Side_Lunge_Left = [''left_hip'', ''left_knee'', ''left_ankle'', ''right_hip'', ''right_knee'', ''right_ankle'']"
| "required_joints Side_Lunge_Right = [''left_hip'', ''left_knee'', ''left_ankle'', ''right_hip'', ''right_knee'', ''right_ankle'']"
| "required_joints Balance_Left = [''left_ankle'', ''right_ankle'', ''left_knee'', ''right_knee'']"
| "required_joints Balance_Right = [''left_ankle'', ''right_ankle'', ''left_knee'', ''right_knee'']"
| "required_joints Star_Pose = [''left_wrist'', ''right_wrist'', ''nose'', ''left_ankle'', ''right_ankle'']"
| "required_joints Warrior = [''left_shoulder'', ''right_shoulder'', ''left_wrist'', ''right_wrist'', ''left_ankle'', ''right_ankle'']"
| "required_joints Hands_Behind_Head = [''left_ear'', ''right_ear'', ''left_wrist'', ''right_wrist'']"
| "required_joints Punch_Left = [''left_shoulder'', ''left_elbow'', ''left_wrist'']"
| "required_joints Punch_Right = [''right_shoulder'', ''right_elbow'', ''right_wrist'']"
| "required_joints Kick_Left = [''left_hip'', ''left_ankle'']"
| "required_joints Kick_Right = [''right_hip'', ''right_ankle'']"
| "required_joints Lean_Left = [''left_shoulder'', ''right_shoulder'', ''left_hip'', ''right_hip'']"
| "required_joints Lean_Right = [''left_shoulder'', ''right_shoulder'', ''left_hip'', ''right_hip'']"
| "required_joints Elf_Hop = [''left_hip'', ''left_knee'', ''left_ankle'', ''right_hip'', ''right_knee'', ''right_ankle'']"
| "required_joints Santa_Salute = [''right_wrist'', ''right_ear'']"
| "required_joints Reindeer_Jump = [''left_wrist'', ''right_wrist'', ''nose'']"
| "required_joints Snowman_Stand = [''left_wrist'', ''right_wrist'', ''left_hip'', ''right_hip'']"
| "required_joints Gift_Box_Squat = [''left_wrist'', ''right_wrist'', ''left_hip'', ''left_knee'', ''left_ankle'', ''right_hip'', ''right_knee'', ''right_ankle'']"
| "required_joints Christmas_Tree = [''left_wrist'', ''right_wrist'', ''nose'']"
| "required_joints Snowball_Throw = [''right_wrist'', ''right_shoulder'', ''right_ear'']"
| "required_joints Grinch_Pose = [''left_wrist'', ''right_wrist'', ''left_shoulder'', ''right_shoulder'']"
| "required_joints Angel_Wings = [''left_shoulder'', ''right_shoulder'', ''left_wrist'', ''right_wrist'']"
| "required_joints Candy_Cane = [''right_wrist'', ''nose'', ''left_shoulder'', ''right_shoulder'', ''left_hip'', ''right_hip'']"
| "required_joints Ho_Ho_Ho = [''left_wrist'', ''right_wrist'', ''left_hip'', ''right_hip'', ''left_shoulder'', ''right_shoulder'']"
| "required_joints Sleigh_Ride = [''left_wrist'', ''right_wrist'', ''left_shoulder'', ''right_shoulder'']"
| "required_joints Elf_Dance = [''left_hip'', ''right_hip'', ''left_wrist'', ''right_wrist'', ''left_knee'', ''right_knee'']"
| "required_joints Star_on_Top = [''left_wrist'', ''right_wrist'', ''left_ankle'', ''right_ankle'', ''nose'']"
| "required_joints Present_Surprise = [''left_wrist'', ''right_wrist'', ''nose'']"
| "required_joints Jingle_Bell_Rock = [''left_wrist'', ''right_wrist'', ''nose'', ''left_hip'']"
| "required_joints Frosty_Wave = [''right_wrist'', ''right_shoulder'', ''nose'']"
| "required_joints Mistletoe_Kiss = [''right_wrist'', ''nose'']"
| "required_joints Nutcracker_March = [''left_knee'', ''right_knee'', ''left_hip'', ''right_hip'']"
| "required_joints Chimney_Climb = [''left_wrist'', ''right_wrist'', ''nose'']"
| "required_joints Santas_Bag_Carry = [''right_wrist'', ''right_shoulder'', ''right_ear'']"

section \<open>Notions the validator properties are stated with\<close>

text \<open>A joint is unusable when no keypoint has its name, or when the first keypoint of
  that name has no score or a score below 0.35.\<close>

definition joint_unusable :: "pose \<Rightarrow> string \<Rightarrow> bool" where
  "joint_unusable p j =
     (case find (\<lambda>k. kp_name k = Some j) (keypoints p) of
        None \<Rightarrow> True
      | Some k \<Rightarrow> (case kp_score k of None \<Rightarrow> True | Some v \<Rightarrow> v < 35 / 100))"

text \<open>A subject seen from the side: both shoulders on one point, both wrists on one point
  below them, both ankles on one point on the floor.\<close>

definition sideways :: pose where
  "sideways =
     \<lparr>keypoints =
        [\<lparr>kp_x = 100, kp_y = 100, kp_score = Some (9 / 10), kp_name = Some ''left_shoulder''\<rparr>,
         \<lparr>kp_x = 100, kp_y = 100, kp_score = Some (9 / 10), kp_name = Some ''right_shoulder''\<rparr>,
         \<lparr>kp_x = 100, kp_y = 180, kp_score = Some (9 / 10), kp_name = Some ''left_wrist''\<rparr>,
         \<lparr>kp_x = 100, kp_y = 180, kp_score = Some (9 / 10), kp_name = Some ''right_wrist''\<rparr>,
         \<lparr>kp_x = 100, kp_y = 300, kp_score = Some (9 / 10), kp_name = Some ''left_ankle''\<rparr>,
         \<lparr>kp_x = 100, kp_y = 300, kp_score = Some (9 / 10), kp_name = Some ''right_ankle''\<rparr>]\<rparr>"

section \<open>Leaderboard storage and merge (finishGame, page-old-complex.tsx, lines 1615-1651)\<close>

text \<open>
  What \<open>localStorage.getItem('leaderboard')\<close> followed by \<open>JSON.parse\<close> can give: no item
  (or the empty string), text that does not parse, a JSON value that is not an array, or an
  array. An array element is either an object whose \<open>name\<close> is a string, or anything else
  (\<open>null\<close>, a number, an object without a string name). The score of an entry is a number,
  \<open>null\<close>, or missing; in memory it can also be NaN, which \<open>JSON.stringify\<close> writes as
  \<open>null\<close>. Numbers are exact reals (the doubles of the program without their rounding);
  \<open>attempts\<close> is a number, or missing or \<open>null\<close> (\<open>None\<close>: the program treats both alike).
  A timestamp is the instant its ISO-8601 string denotes, in milliseconds. An entry
  whose score or attempt count is any other JSON value (a string, a boolean, an object)
  is outside this model.
\<close>

datatype js_score = Missing | Null | Num real | NaN

record entry =
  entry_name :: string
  entry_score :: js_score
  entry_accuracy :: real
  entry_timestamp :: int
  entry_attempts :: "real option"

datatype lb_elem = Invalid | Entry entry

datatype stored_item = NoItem | Unparsable | ParsedOther | ParsedArray "lb_elem list"

datatype js_error = TypeError | SyntaxError

text \<open>
  What the program takes from the JavaScript engine it runs on: \<open>String.prototype.toLowerCase\<close>,
  and the order \<open>Array.prototype.sort\<close> gives when its comparator is not consistent, which
  the language leaves to the engine. Nothing is assumed of either, except where a
  statement says so.
\<close>

record host =
  toLowerCase :: "string \<Rightarrow> string"
  engineSort :: "(entry \<Rightarrow> entry \<Rightarrow> real option) \<Rightarrow> entry list \<Rightarrow> entry list"

subsection \<open>Array.prototype.sort\<close>

text \<open>
  A comparator gives a number or NaN (\<open>None\<close>); the sort reads NaN as 0. For a consistent
  comparator (the conditions of the language definition, on the elements of the array)
  the result is the stable sorted order, computed here by insertion; otherwise it is the
  engine's.
\<close>

definition cmp0 :: "(entry \<Rightarrow> entry \<Rightarrow> real option) \<Rightarrow> entry \<Rightarrow> entry \<Rightarrow> real" where
  "cmp0 c a b = (case c a b of None \<Rightarrow> 0 | Some v \<Rightarrow> v)"

definition consistent :: "(entry \<Rightarrow> entry \<Rightarrow> real option) \<Rightarrow> entry list \<Rightarrow> bool" where
  "consistent c es =
     (\<forall>a\<in>set es. \<forall>b\<in>set es. \<forall>d\<in>set es.
        cmp0 c a a = 0
        \<and> (cmp0 c a b = 0 \<longrightarrow> cmp0 c b a = 0)
        \<and> (cmp0 c a b = 0 \<and> cmp0 c b d = 0 \<longrightarrow> cmp0 c a d = 0)
        \<and> (cmp0 c a b < 0 \<and> cmp0 c b d < 0 \<longrightarrow> cmp0 c a d < 0)
        \<and> (cmp0 c a b > 0 \<and> cmp0 c b d > 0 \<longrightarrow> cmp0 c a d > 0))"

fun insort_cmp :: "(entry \<Rightarrow> entry \<Rightarrow> real option) \<Rightarrow> entry \<Rightarrow> entry list \<Rightarrow> entry list" where
  "insort_cmp c x [] = [x]"
| "insort_cmp c x (y # ys) =
     (if cmp0 c x y \<le> 0 then x # y # ys else y # insort_cmp c x ys)"

definition sort_cmp :: "(entry \<Rightarrow> entry \<Rightarrow> real option) \<Rightarrow> entry list \<Rightarrow> entry list" where
  "sort_cmp c es = foldr (insort_cmp c) es []"

definition js_sort :: "host \<Rightarrow> (entry \<Rightarrow> entry \<Rightarrow> real option) \<Rightarrow> entry list \<Rightarrow> entry list" where
  "js_sort h c es = (if consistent c es then sort_cmp c es else engineSort h c es)"

subsection \<open>The merge\<close>

text \<open>Lines 1615-1622: a missing, unparsable or non-array item is the empty leaderboard.\<close>

definition loadStored :: "stored_item \<Rightarrow> lb_elem list" where
  "loadStored item =
     (case item of
        NoItem \<Rightarrow> []
      | Unparsable \<Rightarrow> []
      | ParsedOther \<Rightarrow> []
      | ParsedArray xs \<Rightarrow> xs)"

text \<open>
  Lines 1625-1627: \<open>findIndex\<close> with the callback
  \<open>entry.name.toLowerCase() === participantName.toLowerCase()\<close>. The callback throws a
  TypeError on an element whose name is not a string, when the search reaches it.
  \<open>None\<close> is the index -1.
\<close>

fun findIndex_name :: "host \<Rightarrow> string \<Rightarrow> lb_elem list \<Rightarrow> js_error + nat option" where
  "findIndex_name h nm [] = Inr None"
| "findIndex_name h nm (Invalid # xs) = Inl TypeError"
| "findIndex_name h nm (Entry e # xs) =
     (if toLowerCase h (entry_name e) = toLowerCase h nm then Inr (Some 0)
      else (case findIndex_name h nm xs of
              Inl err \<Rightarrow> Inl err
            | Inr None \<Rightarrow> Inr None
            | Inr (Some i) \<Rightarrow> Inr (Some (Suc i))))"

text \<open>\<open>score += finalScore\<close>: \<open>undefined + n\<close> is NaN, \<open>null + n\<close> is \<open>n\<close>.\<close>

fun score_plus :: "js_score \<Rightarrow> real \<Rightarrow> js_score" where
  "score_plus Missing n = NaN"
| "score_plus Null n = Num n"
| "score_plus (Num r) n = Num (r + n)"
| "score_plus NaN n = NaN"

text \<open>Lines 1631-1634, on the entry found; \<open>attempts || 1\<close> is 1 for a missing or zero count.\<close>

definition accumulate_entry :: "real \<Rightarrow> real \<Rightarrow> int \<Rightarrow> entry \<Rightarrow> entry" where
  "accumulate_entry finalScore finalAccuracy isoNow e =
     e\<lparr>entry_score := score_plus (entry_score e) finalScore,
       entry_accuracy := finalAccuracy,
       entry_timestamp := isoNow,
       entry_attempts :=
         Some ((case entry_attempts e of
                  None \<Rightarrow> 1
                | Some a \<Rightarrow> if a = 0 then 1 else a) + 1)\<rparr>"

text \<open>Lines 1625-1644: accumulate onto the player's entry, or push a new one.\<close>

definition accumulate ::
    "host \<Rightarrow> lb_elem list \<Rightarrow> string \<Rightarrow> real \<Rightarrow> real \<Rightarrow> int \<Rightarrow> js_error + lb_elem list" where
  "accumulate h leaderboard participantName finalScore finalAccuracy isoNow =
     (case findIndex_name h participantName leaderboard of
        Inl err \<Rightarrow> Inl err
      | Inr (Some existingPlayerIndex) \<Rightarrow>
          (case leaderboard ! existingPlayerIndex of
             Entry e \<Rightarrow>
               Inr (leaderboard[existingPlayerIndex :=
                      Entry (accumulate_entry finalScore finalAccuracy isoNow e)])
           | Invalid \<Rightarrow> Inl TypeError)
      | Inr None \<Rightarrow>
          Inr (leaderboard @
                 [Entry \<lparr>entry_name = participantName, entry_score = Num finalScore,
                          entry_accuracy = finalAccuracy, entry_timestamp = isoNow,
                          entry_attempts = Some 1\<rparr>]))"

text \<open>
  Lines 1647-1650: drop the elements without a string name, sort with the comparator
  \<open>(b.score ?? 0) - (a.score ?? 0)\<close>, keep the first 200.
\<close>

fun valid_entries :: "lb_elem list \<Rightarrow> entry list" where
  "valid_entries [] = []"
| "valid_entries (Invalid # xs) = valid_entries xs"
| "valid_entries (Entry e # xs) = e # valid_entries xs"

fun score_or0 :: "js_score \<Rightarrow> real option" where
  "score_or0 Missing = Some 0"
| "score_or0 Null = Some 0"
| "score_or0 (Num r) = Some r"
| "score_or0 NaN = None"

definition byScore :: "entry \<Rightarrow> entry \<Rightarrow> real option" where
  "byScore a b =
     (case (score_or0 (entry_score b), score_or0 (entry_score a)) of
        (Some x, Some y) \<Rightarrow> Some (x - y)
      | _ \<Rightarrow> None)"

definition keepBest :: "host \<Rightarrow> lb_elem list \<Rightarrow> entry list" where
  "keepBest h leaderboard = take 200 (js_sort h byScore (valid_entries leaderboard))"

text \<open>
  The leaderboard part of \<open>finishGame\<close>: the array handed to \<open>JSON.stringify\<close> and
  \<open>setItem\<close>, or the error thrown before anything is written.
\<close>

definition finishGame_leaderboard ::
    "host \<Rightarrow> stored_item \<Rightarrow> string \<Rightarrow> real \<Rightarrow> real \<Rightarrow> int \<Rightarrow> js_error + entry list" where
  "finishGame_leaderboard h item participantName finalScore finalAccuracy isoNow =
     (case accumulate h (loadStored item) participantName finalScore finalAccuracy isoNow of
        Inl err \<Rightarrow> Inl err
      | Inr leaderboard \<Rightarrow> Inr (keepBest h leaderboard))"

text \<open>The item read back after \<open>setItem('leaderboard', JSON.stringify(leaderboard))\<close>: a NaN
  score comes back as \<open>null\<close>.\<close>

definition stringified :: "entry \<Rightarrow> entry" where
  "stringified e = (if entry_score e = NaN then e\<lparr>entry_score := Null\<rparr> else e)"

definition persisted :: "entry list \<Rightarrow> stored_item" where
  "persisted leaderboard = ParsedArray (map (\<lambda>e. Entry (stringified e)) leaderboard)"

subsection \<open>The leaderboard page (src/app/page.tsx, loadLeaderboard, lines 82-93)\<close>

text \<open>
  The sort and the ranks of \<open>loadLeaderboard\<close>, on an array of entries: by score, highest
  first, then most recent first for ties. \<open>b.score - a.score\<close> is NaN when a score is
  missing, and a NaN difference is returned as it is (\<open>scoreDiff !== 0\<close>).
\<close>

fun score_num :: "js_score \<Rightarrow> real option" where
  "score_num Missing = None"
| "score_num Null = Some 0"
| "score_num (Num r) = Some r"
| "score_num NaN = None"

definition byScoreThenRecent :: "entry \<Rightarrow> entry \<Rightarrow> real option" where
  "byScoreThenRecent a b =
     (case (score_num (entry_score b), score_num (entry_score a)) of
        (Some x, Some y) \<Rightarrow>
          (let scoreDiff = x - y
           in if scoreDiff \<noteq> 0 then Some scoreDiff
              else Some (real_of_int (entry_timestamp b - entry_timestamp a)))
      | _ \<Rightarrow> None)"

definition rankEntries :: "host \<Rightarrow> entry list \<Rightarrow> (nat \<times> entry) list" where
  "rankEntries h filtered =
     (let sorted = js_sort h byScoreThenRecent filtered
      in zip [1..<Suc (length sorted)] sorted)"

subsection \<open>Notions the leaderboard properties are stated with\<close>

text \<open>The number a score counts as (0 when there is no number), and the order that puts the
  higher score first and, of equal scores, the more recent entry first.\<close>

definition score_value :: "entry \<Rightarrow> real" where
  "score_value e = (case entry_score e of Num r \<Rightarrow> r | _ \<Rightarrow> 0)"

definition ranks_before :: "entry \<Rightarrow> entry \<Rightarrow> bool" where
  "ranks_before a b =
     (score_value b < score_value a
      \<or> (score_value b = score_value a \<and> entry_timestamp b \<le> entry_timestamp a))"

text \<open>What JSON can hold: no NaN score. An entry with a score: a number or \<open>null\<close>.\<close>

definition json_scores :: "entry list \<Rightarrow> bool" where
  "json_scores es = (\<forall>e\<in>set es. entry_score e \<noteq> NaN)"

definition has_score :: "entry \<Rightarrow> bool" where
  "has_score e = (entry_score e \<noteq> Missing \<and> entry_score e \<noteq> NaN)"

text \<open>The entries a stored item holds: the elements of its array that have a string name
  (none for an item that is absent or unusable).\<close>

definition stored_entries :: "stored_item \<Rightarrow> entry list" where
  "stored_entries item = valid_entries (loadStored item)"

text \<open>The entries of a player, by case-insensitive name; the score and the attempt count
  the first of them carries before a merge (0 when there is none; a missing or zero count
  is a count of 1, as \<open>attempts || 1\<close> has it).\<close>

definition same_player :: "host \<Rightarrow> string \<Rightarrow> entry \<Rightarrow> bool" where
  "same_player h nm e = (toLowerCase h (entry_name e) = toLowerCase h nm)"

definition player_entries :: "host \<Rightarrow> string \<Rightarrow> entry list \<Rightarrow> entry list" where
  "player_entries h nm es = filter (same_player h nm) es"

definition prior_score :: "host \<Rightarrow> string \<Rightarrow> entry list \<Rightarrow> real" where
  "prior_score h nm es = (case player_entries h nm es of [] \<Rightarrow> 0 | e # _ \<Rightarrow> score_value e)"

definition prior_attempts :: "host \<Rightarrow> string \<Rightarrow> entry list \<Rightarrow> real" where
  "prior_attempts h nm es =
     (case player_entries h nm es of
        [] \<Rightarrow> 0
      | e # _ \<Rightarrow> (case entry_attempts e of None \<Rightarrow> 1 | Some a \<Rightarrow> if a = 0 then 1 else a))"

text \<open>At most one entry per case-insensitive name.\<close>

definition one_entry_per_name :: "host \<Rightarrow> entry list \<Rightarrow> bool" where
  "one_entry_per_name h es = distinct (map (\<lambda>e. toLowerCase h (entry_name e)) es)"

definition item_one_entry_per_name :: "host \<Rightarrow> stored_item \<Rightarrow> bool" where
  "item_one_entry_per_name h item = one_entry_per_name h (valid_entries (loadStored item))"

text \<open>The language's promise about \<open>sort\<close> whatever the comparator: the result is a
  rearrangement of the array.\<close>

definition engine_permutes :: "host \<Rightarrow> bool" where
  "engine_permutes h = (\<forall>c es. mset (engineSort h c es) = mset es)"

text \<open>What \<open>slice(0, 200)\<close> cuts off.\<close>

definition evicted :: "host \<Rightarrow> lb_elem list \<Rightarrow> entry list" where
  "evicted h leaderboard = drop 200 (js_sort h byScore (valid_entries leaderboard))"

text \<open>What the stored item holds after a sequence of finished games, each given by the
  participant's name, the final score, the final accuracy and the time of writing. A
  game whose \<open>finishGame\<close> throws leaves the item as it was.\<close>

fun merge_sessions ::
    "host \<Rightarrow> stored_item \<Rightarrow> (string \<times> real \<times> real \<times> int) list \<Rightarrow> stored_item" where
  "merge_sessions h item [] = item"
| "merge_sessions h item ((nm, finalScore, finalAccuracy, isoNow) # rest) =
     merge_sessions h
       (case finishGame_leaderboard h item nm finalScore finalAccuracy isoNow of
          Inl err \<Rightarrow> item
        | Inr leaderboard \<Rightarrow> persisted leaderboard)
       rest"

subsection \<open>A host and a leaderboard to evaluate on\<close>

text \<open>A host that lower-cases the letters A to Z, as every engine does on names written
  in ASCII, and whose sort leaves an array with an inconsistent comparator as it is.\<close>

definition ascii_lower :: "char \<Rightarrow> char" where
  "ascii_lower c =
     (case map_of (zip ''ABCDEFGHIJKLMNOPQRSTUVWXYZ'' ''abcdefghijklmnopqrstuvwxyz'') c of
        None \<Rightarrow> c
      | Some d \<Rightarrow> d)"

definition ascii_host :: host where
  "ascii_host = \<lparr>toLowerCase = map ascii_lower, engineSort = (\<lambda>c es. es)\<rparr>"

text \<open>A full leaderboard: 200 players named x, xx, xxx, ..., each with score 100, written
  one millisecond after the other.\<close>

definition full_board :: "entry list" where
  "full_board =
     map (\<lambda>n. \<lparr>entry_name = replicate (Suc n) CHR ''x'', entry_score = Num 100,
                  entry_accuracy = 100, entry_timestamp = int n, entry_attempts = Some 1\<rparr>)
         [0..<200]"

text \<open>The same array with one more tied entry, written later, and an element that is not
  an entry.\<close>

definition late_tie :: entry where
  "late_tie = \<lparr>entry_name = ''Zed'', entry_score = Num 100, entry_accuracy = 100,
                entry_timestamp = 500, entry_attempts = Some 1\<rparr>"

definition crowded_array :: "lb_elem list" where
  "crowded_array = map Entry full_board @ [Entry late_tie, Invalid]"

section \<open>The round state machine (ArenaPage, page-old-complex.tsx, lines 910-1659)\<close>

text \<open>
  The refs and state of \<open>ArenaPage\<close> that the game logic reads or writes, as one record; the
  state that only drives the display (accuracy, hold time, time left, celebration) is left
  out. \<open>score\<close> and \<open>scoreRef\<close>, \<open>gameState\<close> and \<open>gameStateRef\<close>, \<open>currentChallenge\<close> and
  \<open>currentChallengeRef\<close> are one field each, the value they share between two callbacks.
  An updater passed to a state setter (\<open>setScore\<close>, \<open>setPoseResults\<close>,
  \<open>setCurrentChallenge\<close>) does not run inside the callback that queues it: React runs it
  when it next renders, after the callback has returned, so what the callback calls
  after queueing it still reads the old \<open>scoreRef\<close> and \<open>currentChallengeRef\<close>. Each
  callback below applies its queued updaters last. Times are \<open>performance.now()\<close>
  readings in milliseconds. A JavaScript array is a list of options, \<open>None\<close> being a hole;
  reading past the end gives \<open>undefined\<close> and writing past the end extends the array.
\<close>

datatype game_state = Name | Countdown | Playing | Finished

datatype pose_result = Pending | Passed | Failed

definition js_get :: "'a option list \<Rightarrow> nat \<Rightarrow> 'a option" where
  "js_get xs i = (if i < length xs then xs ! i else None)"

definition js_set :: "'a option list \<Rightarrow> nat \<Rightarrow> 'a \<Rightarrow> 'a option list" where
  "js_set xs i v =
     (if i < length xs then xs[i := Some v]
      else xs @ replicate (i - length xs) None @ [Some v])"

record arena =
  participantName :: string
  gameStateRef :: game_state
  currentChallengeRef :: nat
  activeChallengesRef :: "challenge list"
  scoreRef :: int
  poseResults :: "pose_result option list"
  poseTimerIntervalRef :: bool
  poseDeadlineMsRef :: "real option"
  poseResolvedRef :: bool
  holdStartMsRef :: "real option"
  poseBestAccuracyRef :: "int option list"
  leaderboardItem :: stored_item

definition clearPoseTimer :: "arena \<Rightarrow> arena" where
  "clearPoseTimer s = s\<lparr>poseTimerIntervalRef := False, poseDeadlineMsRef := None\<rparr>"

text \<open>\<open>startPoseTimer\<close>, lines 1240-1256: a fresh round for the current challenge, with its
  deadline and a running interval.\<close>

definition startPoseTimer :: "real \<Rightarrow> arena \<Rightarrow> arena" where
  "startPoseTimer now s =
     (let s1 = clearPoseTimer s;
          s2 = s1\<lparr>poseResolvedRef := False, holdStartMsRef := None\<rparr>;
          idx = currentChallengeRef s2;
          s3 = s2\<lparr>poseBestAccuracyRef := js_set (poseBestAccuracyRef s2) idx 0\<rparr>
      in s3\<lparr>poseDeadlineMsRef := Some (now + POSE_TIME_LIMIT_MS),
             poseTimerIntervalRef := True\<rparr>)"

text \<open>
  \<open>finishGame\<close>, lines 1601-1659. The final accuracy is the rounded mean of the best
  accuracies of the rounds (a hole counting 0). When the merge throws, nothing is written.
  The score merged is \<open>scoreRef\<close> as it is when \<open>finishGame\<close> is called.
\<close>

definition finalAccuracy :: "arena \<Rightarrow> int" where
  "finalAccuracy s =
     (let n = length (activeChallengesRef s);
          rounds = max 1 (if n = 0 then 3 else n);
          vals = map (\<lambda>v. case v of None \<Rightarrow> 0 | Some b \<Rightarrow> b)
                     (take rounds (poseBestAccuracyRef s))
      in js_round (real_of_int (sum_list vals) / real rounds))"

definition finishGame :: "host \<Rightarrow> int \<Rightarrow> arena \<Rightarrow> arena" where
  "finishGame h isoNow s =
     (let s1 = clearPoseTimer (s\<lparr>gameStateRef := Finished\<rparr>);
          finalScore = scoreRef s1
      in case finishGame_leaderboard h (leaderboardItem s1) (participantName s1)
                (real_of_int finalScore) (real_of_int (finalAccuracy s1)) isoNow of
           Inl err \<Rightarrow> s1
         | Inr leaderboard \<Rightarrow> s1\<lparr>leaderboardItem := persisted leaderboard\<rparr>)"

text \<open>
  The callback of the interval set by \<open>startPoseTimer\<close>, lines 1257-1308; it runs only
  while that interval is set. \<open>!deadline\<close> holds for \<open>null\<close> and for 0. On a timeout the
  callback queues the updaters of the score, of the round's outcome and, when a round
  follows, of the current challenge, then calls \<open>startPoseTimer\<close> or \<open>finishGame\<close>, which
  run before the updaters do: \<open>startPoseTimer\<close> resets the best accuracy of the round that
  has just ended, and \<open>finishGame\<close> merges the score without the points of this round.
\<close>

definition poseTimerTick :: "host \<Rightarrow> real \<Rightarrow> int \<Rightarrow> arena \<Rightarrow> arena" where
  "poseTimerTick h now isoNow s =
     (if \<not> poseTimerIntervalRef s then s
      else if gameStateRef s \<noteq> Playing then s
      else case poseDeadlineMsRef s of
             None \<Rightarrow> s
           | Some deadline \<Rightarrow>
               if deadline = 0 then s
               else
                 let remainingMs = deadline - now
                 in if remainingMs \<le> 0 then
                      (let s1 = clearPoseTimer s
                       in if poseResolvedRef s1 then s1
                          else
                            let s2 = s1\<lparr>poseResolvedRef := True\<rparr>;
                                idx = currentChallengeRef s2;
                                bestAcc = (case js_get (poseBestAccuracyRef s2) idx of
                                             None \<Rightarrow> 0
                                           | Some b \<Rightarrow> b);
                                earnedPoints = bestAcc div 10;
                                active = activeChallengesRef s2;
                                advance = (int idx < int (length active) - 1);
                                s3 = (if advance then startPoseTimer now s2
                                      else finishGame h isoNow s2);
                                s4 = (if earnedPoints > 0
                                      then s3\<lparr>scoreRef := scoreRef s3 + earnedPoints\<rparr>
                                      else s3);
                                s5 = (if js_get (poseResults s4) idx = Some Pending
                                      then s4\<lparr>poseResults := js_set (poseResults s4) idx Failed\<rparr>
                                      else s4)
                            in if advance then s5\<lparr>currentChallengeRef := idx + 1\<rparr>
                               else s5)
                    else s)"

text \<open>
  \<open>detect\<close>, lines 1451-1543, from the estimator's answer on: \<open>poses\<close> is what
  \<open>estimatePoses\<close> returned and \<open>now\<close> the clock when it is processed (the two clock
  readings of lines 1493 and 1495 are one instant). The checks before the estimator is
  called (video ready, a finished game, the 80 ms throttle) decide only whether it is
  called; the check for a finished game is kept. \<open>Math.round\<close> of a validator's result
  is the result itself, an integer or NaN, and every comparison with NaN is false.
\<close>

definition detect :: "real \<Rightarrow> pose list \<Rightarrow> arena \<Rightarrow> arena" where
  "detect now poses s =
     (if gameStateRef s = Finished then s
      else case poses of
             [] \<Rightarrow> s
           | pose # _ \<Rightarrow>
               if poseResolvedRef s then s
               else
                 let challengeIndex = currentChallengeRef s;
                     active = activeChallengesRef s;
                     currentAccuracy =
                       (if challengeIndex < length active
                        then validate (active ! challengeIndex) pose else Some 0);
                     best = (case js_get (poseBestAccuracyRef s) challengeIndex of
                               None \<Rightarrow> 0
                             | Some b \<Rightarrow> b);
                     s1 = (case currentAccuracy of
                             None \<Rightarrow> s
                           | Some roundedAccuracy \<Rightarrow>
                               if roundedAccuracy > best
                               then s\<lparr>poseBestAccuracyRef :=
                                        js_set (poseBestAccuracyRef s) challengeIndex
                                          roundedAccuracy\<rparr>
                               else s)
                 in (case currentAccuracy of
                      None \<Rightarrow> s1\<lparr>holdStartMsRef := None\<rparr>
                    | Some acc \<Rightarrow>
                        if acc \<ge> 80 then
                          (let holdStart = (case holdStartMsRef s1 of
                                              None \<Rightarrow> now
                                            | Some h \<Rightarrow> h);
                               s2 = s1\<lparr>holdStartMsRef := Some holdStart\<rparr>;
                               holdSeconds = (now - holdStart) / 1000
                           in if \<not> poseResolvedRef s2 \<and> holdSeconds \<ge> POSE_HOLD_SECONDS
                              then
                                (let s3 = clearPoseTimer
                                            (s2\<lparr>poseResolvedRef := True,
                                                 holdStartMsRef := None\<rparr>);
                                     bestAcc =
                                       (case js_get (poseBestAccuracyRef s3) challengeIndex of
                                          None \<Rightarrow> acc
                                        | Some b \<Rightarrow> b);
                                     earnedPoints = bestAcc div 10
                                 in s3\<lparr>scoreRef := scoreRef s3 + earnedPoints,
                                        poseResults :=
                                          js_set (poseResults s3) challengeIndex Passed\<rparr>)
                              else s2)
                        else s1\<lparr>holdStartMsRef := None\<rparr>))"

text \<open>The callback that \<open>detect\<close> schedules one second after a pass, lines 1521-1537;
  \<open>startPoseTimer\<close> runs before the queued updater of the current challenge does.\<close>

definition afterPass :: "host \<Rightarrow> real \<Rightarrow> int \<Rightarrow> arena \<Rightarrow> arena" where
  "afterPass h now isoNow s =
     (let active = activeChallengesRef s
      in if int (currentChallengeRef s) < int (length active) - 1
         then (startPoseTimer now s)\<lparr>currentChallengeRef := currentChallengeRef s + 1\<rparr>
         else finishGame h isoNow s)"

text \<open>
  \<open>startGame\<close>, lines 1185-1230, with the three challenges it drew (a name of white
  space only starts nothing), and the start of play once the camera and the detector are
  ready, lines 1388-1391.
\<close>

definition startGame :: "challenge list \<Rightarrow> arena \<Rightarrow> arena" where
  "startGame selected s =
     (if \<forall>c\<in>set (participantName s).
           c \<in> set [CHR '' '', CHR 0x09, CHR 0x0A, CHR 0x0B, CHR 0x0C, CHR 0x0D]
      then s
      else s\<lparr>activeChallengesRef := selected,
             poseResults := replicate 3 (Some Pending),
             poseBestAccuracyRef := [Some 0, Some 0, Some 0],
             poseResolvedRef := False,
             holdStartMsRef := None,
             currentChallengeRef := 0,
             scoreRef := 0,
             gameStateRef := Countdown\<rparr>)"

definition startPlaying :: "real \<Rightarrow> arena \<Rightarrow> arena" where
  "startPlaying now s = startPoseTimer now (s\<lparr>gameStateRef := Playing\<rparr>)"

subsection \<open>Event streams\<close>

text \<open>A tracker sample (the poses the estimator returned for a frame, none when it found
  no body, processed at the given time) or a run of the timer's callback.\<close>

datatype event = Sample real "pose list" | Tick real

fun step :: "host \<Rightarrow> int \<Rightarrow> event \<Rightarrow> arena \<Rightarrow> arena" where
  "step h isoNow (Sample now poses) s = detect now poses s"
| "step h isoNow (Tick now) s = poseTimerTick h now isoNow s"

definition run :: "host \<Rightarrow> int \<Rightarrow> event list \<Rightarrow> arena \<Rightarrow> arena" where
  "run h isoNow evs s = fold (step h isoNow) evs s"

text \<open>The accuracy the current round's validator gives a pose, as \<open>detect\<close> computes it.\<close>

definition currentAccuracy :: "arena \<Rightarrow> pose \<Rightarrow> int option" where
  "currentAccuracy s pose =
     (if currentChallengeRef s < length (activeChallengesRef s)
      then validate (activeChallengesRef s ! currentChallengeRef s) pose else Some 0)"

text \<open>The outcome and the best accuracy of round \<open>i\<close>.\<close>

definition outcome :: "arena \<Rightarrow> nat \<Rightarrow> pose_result option" where
  "outcome s i = js_get (poseResults s) i"

definition bestAccuracy :: "arena \<Rightarrow> nat \<Rightarrow> int" where
  "bestAccuracy s i = (case js_get (poseBestAccuracyRef s) i of None \<Rightarrow> 0 | Some b \<Rightarrow> b)"

text \<open>The accuracies \<open>detect\<close> computes for the samples of a stream, in the current round
  of \<open>s\<close>: a frame without a pose gives none, nor does a NaN.\<close>

fun observed :: "arena \<Rightarrow> event list \<Rightarrow> int list" where
  "observed s [] = []"
| "observed s (Tick t # evs) = observed s evs"
| "observed s (Sample t [] # evs) = observed s evs"
| "observed s (Sample t (pose # rest) # evs) =
     (case currentAccuracy s pose of
        None \<Rightarrow> observed s evs
      | Some a \<Rightarrow> a # observed s evs)"

text \<open>The events of a stream up to and including the first sample with a pose that comes
  at least \<open>POSE_HOLD_SECONDS\<close> after the time \<open>t0\<close>.\<close>

fun until_held :: "real \<Rightarrow> event list \<Rightarrow> event list" where
  "until_held t0 [] = []"
| "until_held t0 (Tick t # evs) = Tick t # until_held t0 evs"
| "until_held t0 (Sample t poses # evs) =
     (if poses \<noteq> [] \<and> (t - t0) / 1000 \<ge> POSE_HOLD_SECONDS then [Sample t poses]
      else Sample t poses # until_held t0 evs)"

text \<open>An unresolved round is a pending one: what \<open>startGame\<close> sets up and every event
  keeps.\<close>

definition round_pending :: "arena \<Rightarrow> bool" where
  "round_pending s =
     (\<not> poseResolvedRef s \<longrightarrow> outcome s (currentChallengeRef s) = Some Pending)"

definition rounds_wf :: "arena \<Rightarrow> bool" where
  "rounds_wf s =
     (currentChallengeRef s < length (poseResults s)
      \<and> length (activeChallengesRef s) \<le> length (poseResults s)
      \<and> (\<forall>j < length (poseResults s).
            (if poseResolvedRef s then currentChallengeRef s < j
             else currentChallengeRef s \<le> j)
            \<longrightarrow> poseResults s ! j = Some Pending))"

subsection \<open>A game to run the state machine on\<close>

text \<open>The page as mounted, with a name typed in; the game of Ana, playing its first round
  (Hands Up) since time 0; a pose with the nose at height 200 and both wrists at height
  \<open>y\<close>, and nothing else.\<close>

definition mounted :: "string \<Rightarrow> stored_item \<Rightarrow> arena" where
  "mounted nm item =
     \<lparr>participantName = nm, gameStateRef = Name, currentChallengeRef = 0,
      activeChallengesRef = [], scoreRef = 0, poseResults = replicate 10 (Some Pending),
      poseTimerIntervalRef = False, poseDeadlineMsRef = None, poseResolvedRef = False,
      holdStartMsRef = None, poseBestAccuracyRef = [Some 0, Some 0, Some 0],
      leaderboardItem = item\<rparr>"

definition ana_playing :: arena where
  "ana_playing = startPlaying 0 (startGame [Hands_Up, T_Pose, Warrior] (mounted ''Ana'' NoItem))"

definition wrists_at :: "real \<Rightarrow> pose" where
  "wrists_at y =
     \<lparr>keypoints =
        [\<lparr>kp_x = 100, kp_y = 200, kp_score = Some (9 / 10), kp_name = Some ''nose''\<rparr>,
         \<lparr>kp_x = 60, kp_y = y, kp_score = Some (9 / 10), kp_name = Some ''left_wrist''\<rparr>,
         \<lparr>kp_x = 140, kp_y = y, kp_score = Some (9 / 10), kp_name = Some ''right_wrist''\<rparr>]\<rparr>"

section \<open>Geometry: the scale and the validators' guards\<close>

lemma dist_nonneg: "0 \<le> dist a b"
  by (simp add: dist_def)

text \<open>\<open>shoulderScale\<close> is a shoulder or hip distance greater than 1, or the constant 100.\<close>

lemma shoulderScale_gt_1: "1 < shoulderScale p"
  by (simp add: shoulderScale_def Let_def split: option.splits)

lemma shoulderScale_cases:
  "shoulderScale p = 100
   \<or> (\<exists>ls rs. getKp p ''left_shoulder'' = Some ls \<and> getKp p ''right_shoulder'' = Some rs
         \<and> shoulderScale p = dist ls rs)
   \<or> (\<exists>lh rh. getKp p ''left_hip'' = Some lh \<and> getKp p ''right_hip'' = Some rh
         \<and> shoulderScale p = dist lh rh)"
  by (auto simp: shoulderScale_def Let_def split: option.splits)

lemma getKp_None_iff: "getKp p j = None \<longleftrightarrow> joint_unusable p j"
  by (simp add: getKp_def getKp_min_def joint_unusable_def MIN_KP_SCORE_def Let_def
           split: option.splits)

lemmas validate_defs =
      validate_T_Pose_def validate_Hands_Up_def validate_Arms_Wide_def validate_Antlers_def
      validate_Hands_on_Hips_def validate_Left_Arm_Up_def validate_Right_Arm_Up_def
      validate_Clap_def validate_Touch_Toes_def validate_Squat_def validate_High_Knee_Left_def
      validate_High_Knee_Right_def validate_Side_Lunge_Left_def validate_Side_Lunge_Right_def
      validate_Balance_Left_def validate_Balance_Right_def validate_Star_Pose_def
      validate_Warrior_def validate_Hands_Behind_Head_def validate_Punch_Left_def
      validate_Punch_Right_def validate_Kick_Left_def validate_Kick_Right_def
      validate_Lean_Left_def validate_Lean_Right_def validate_Elf_Hop_def
      validate_Santa_Salute_def validate_Reindeer_Jump_def validate_Snowman_Stand_def
      validate_Gift_Box_Squat_def validate_Christmas_Tree_def validate_Snowball_Throw_def
      validate_Grinch_Pose_def validate_Angel_Wings_def validate_Candy_Cane_def
      validate_Ho_Ho_Ho_def validate_Sleigh_Ride_def validate_Elf_Dance_def
      validate_Star_on_Top_def validate_Present_Surprise_def validate_Jingle_Bell_Rock_def
      validate_Frosty_Wave_def validate_Mistletoe_Kiss_def validate_Nutcracker_March_def
      validate_Chimney_Climb_def validate_Santas_Bag_Carry_def

lemma validate_guard:
  "j \<in> set (required_joints c) \<Longrightarrow> getKp p j = None \<Longrightarrow> validate c p = Some 0"
  by (cases c) (auto simp: validate_defs split: option.splits)

text \<open>
  C5: if a joint that a validator requires is absent from the pose, or the keypoint of
  that name has no score or a score below \<open>MIN_KP_SCORE\<close> (0.35), the validator returns
  exactly 0.
\<close>

theorem unusable_joint_scores_zero:
  assumes "j \<in> set (required_joints c)" and "joint_unusable p j"
  shows "validate c p = Some 0"
  using assms validate_guard getKp_None_iff by blast

text \<open>A pose with both wrists but a nose of confidence 0.2, and one with no nose at all,
  under Hands Up.\<close>

theorem unusable_joint_scores_zero_witness:
  "''nose'' \<in> set (required_joints Hands_Up)
   \<and> joint_unusable
        \<lparr>keypoints =
           [\<lparr>kp_x = 100, kp_y = 200, kp_score = Some (2 / 10), kp_name = Some ''nose''\<rparr>,
            \<lparr>kp_x = 60, kp_y = 100, kp_score = Some (9 / 10), kp_name = Some ''left_wrist''\<rparr>,
            \<lparr>kp_x = 140, kp_y = 100, kp_score = Some (9 / 10),
               kp_name = Some ''right_wrist''\<rparr>]\<rparr> ''nose''
   \<and> validate Hands_Up
        \<lparr>keypoints =
           [\<lparr>kp_x = 100, kp_y = 200, kp_score = Some (2 / 10), kp_name = Some ''nose''\<rparr>,
            \<lparr>kp_x = 60, kp_y = 100, kp_score = Some (9 / 10), kp_name = Some ''left_wrist''\<rparr>,
            \<lparr>kp_x = 140, kp_y = 100, kp_score = Some (9 / 10),
               kp_name = Some ''right_wrist''\<rparr>]\<rparr> = Some 0"
proof -
  let ?p = "\<lparr>keypoints =
           [\<lparr>kp_x = 100, kp_y = 200, kp_score = Some (2 / 10), kp_name = Some ''nose''\<rparr>,
            \<lparr>kp_x = 60, kp_y = 100, kp_score = Some (9 / 10), kp_name = Some ''left_wrist''\<rparr>,
            \<lparr>kp_x = 140, kp_y = 100, kp_score = Some (9 / 10),
               kp_name = Some ''right_wrist''\<rparr>]\<rparr>"
  have h1: "''nose'' \<in> set (required_joints Hands_Up)" by simp
  have h2: "joint_unusable ?p ''nose''" by (simp add: joint_unusable_def)
  from unusable_joint_scores_zero[OF h1 h2] h1 h2 show ?thesis by simp
qed

section \<open>Geometry: validators that divide by the raw shoulder distance (C10)\<close>

text \<open>
  C10 fails on Warrior and Grinch Pose: they divide by a multiple of \<open>dist(ls, rs)\<close>,
  not of \<open>shoulderScale\<close> or \<open>s || 1\<close>. On a subject seen from the side, both shoulders on
  one point and the wrists on one vertical line, the divisor is 0, the quotient 0/0, and
  the validator returns NaN instead of an accuracy.
\<close>

theorem warrior_divides_by_zero:
  "dist \<lparr>kp_x = 100, kp_y = 100, kp_score = Some (9 / 10), kp_name = Some ''left_shoulder''\<rparr>
        \<lparr>kp_x = 100, kp_y = 100, kp_score = Some (9 / 10), kp_name = Some ''right_shoulder''\<rparr>
     = 0
   \<and> validate Warrior sideways = None
   \<and> validate Grinch_Pose sideways = None"
  by (simp add: validate_Warrior_def validate_Grinch_Pose_def sideways_def getKp_def
      getKp_min_def MIN_KP_SCORE_def dist_def avgY_def Let_def clamp01_quot_def
      clamp01_one_minus_quot_def)

section \<open>Leaderboard: auxiliary facts\<close>

subsection \<open>The sort\<close>

lemma cmp0_byScore:
  "entry_score a \<noteq> NaN \<Longrightarrow> entry_score b \<noteq> NaN \<Longrightarrow>
     cmp0 byScore a b = score_value b - score_value a"
  by (cases "entry_score a"; cases "entry_score b")
     (simp_all add: cmp0_def byScore_def score_value_def)

lemma consistent_byScore: "json_scores es \<Longrightarrow> consistent byScore es"
  unfolding consistent_def json_scores_def
  by (intro ballI) (simp add: cmp0_byScore)

lemma insort_cmp_byScore:
  "entry_score x \<noteq> NaN \<Longrightarrow> json_scores ys \<Longrightarrow>
     insort_cmp byScore x ys = insort_key (\<lambda>e. - score_value e) x ys"
  by (induction ys) (simp_all add: json_scores_def cmp0_byScore)

lemma sort_cmp_byScore:
  "json_scores es \<Longrightarrow> sort_cmp byScore es = sort_key (\<lambda>e. - score_value e) es"
proof (induction es)
  case Nil
  then show ?case by (simp add: sort_cmp_def)
next
  case (Cons x xs)
  then have x: "entry_score x \<noteq> NaN" and xs: "json_scores xs"
    by (simp_all add: json_scores_def)
  from xs have "json_scores (sort_key (\<lambda>e. - score_value e) xs)"
    by (simp add: json_scores_def)
  from insort_cmp_byScore[OF x this] Cons.IH[OF xs] show ?case
    by (simp add: sort_cmp_def sort_key_def)
qed

lemma js_sort_byScore:
  "json_scores es \<Longrightarrow> js_sort h byScore es = sort_key (\<lambda>e. - score_value e) es"
  by (simp add: js_sort_def consistent_byScore sort_cmp_byScore)

lemma mset_insort_cmp: "mset (insort_cmp c x ys) = add_mset x (mset ys)"
  by (induction ys) simp_all

lemma mset_sort_cmp: "mset (sort_cmp c es) = mset es"
  by (induction es) (simp_all add: sort_cmp_def mset_insort_cmp)

lemma mset_js_sort: "engine_permutes h \<Longrightarrow> mset (js_sort h c es) = mset es"
  by (simp add: js_sort_def mset_sort_cmp engine_permutes_def)

lemma js_sort_single: "js_sort h c [e] = [e]" if "cmp0 c e e = 0"
  using that by (simp add: js_sort_def consistent_def sort_cmp_def)

lemma cmp0_byScore_refl: "cmp0 byScore e e = 0"
  by (cases "entry_score e") (simp_all add: cmp0_def byScore_def)

lemma keepBest_json:
  "json_scores (valid_entries lb) \<Longrightarrow>
     keepBest h lb = take 200 (sort_key (\<lambda>e. - score_value e) (valid_entries lb))"
  by (simp add: keepBest_def js_sort_byScore)

lemma evicted_json:
  "json_scores (valid_entries lb) \<Longrightarrow>
     evicted h lb = drop 200 (sort_key (\<lambda>e. - score_value e) (valid_entries lb))"
  by (simp add: evicted_def js_sort_byScore)

text \<open>The comparator of the leaderboard page, on entries that have a score: the order by
  score, then by time, both descending.\<close>

lemma score_num_has_score: "has_score e \<Longrightarrow> score_num (entry_score e) = Some (score_value e)"
  by (cases "entry_score e") (simp_all add: has_score_def score_value_def)

lemma cmp0_byScoreThenRecent:
  "has_score a \<Longrightarrow> has_score b \<Longrightarrow>
     cmp0 byScoreThenRecent a b =
       (if score_value b - score_value a \<noteq> 0 then score_value b - score_value a
        else real_of_int (entry_timestamp b - entry_timestamp a))"
  by (simp add: cmp0_def byScoreThenRecent_def score_num_has_score Let_def)

lemma consistent_byScoreThenRecent:
  "\<forall>e\<in>set es. has_score e \<Longrightarrow> consistent byScoreThenRecent es"
  unfolding consistent_def
  by (intro ballI) (auto simp: cmp0_byScoreThenRecent split: if_splits)

lemma cmp0_byScoreThenRecent_le:
  "has_score a \<Longrightarrow> has_score b \<Longrightarrow>
     cmp0 byScoreThenRecent a b \<le> 0
       \<longleftrightarrow> (- score_value a, - entry_timestamp a) \<le> (- score_value b, - entry_timestamp b)"
  by (auto simp: cmp0_byScoreThenRecent less_eq_prod_def split: if_splits)

lemma insort_cmp_byScoreThenRecent:
  "has_score x \<Longrightarrow> \<forall>e\<in>set ys. has_score e \<Longrightarrow>
     insort_cmp byScoreThenRecent x ys
       = insort_key (\<lambda>e. (- score_value e, - entry_timestamp e)) x ys"
  by (induction ys) (simp_all add: cmp0_byScoreThenRecent_le)

lemma sort_cmp_byScoreThenRecent:
  "\<forall>e\<in>set es. has_score e \<Longrightarrow>
     sort_cmp byScoreThenRecent es = sort_key (\<lambda>e. (- score_value e, - entry_timestamp e)) es"
proof (induction es)
  case Nil
  then show ?case by (simp add: sort_cmp_def)
next
  case (Cons x xs)
  then have x: "has_score x" and xs: "\<forall>e\<in>set xs. has_score e" by simp_all
  from xs have "\<forall>e\<in>set (sort_key (\<lambda>e. (- score_value e, - entry_timestamp e)) xs). has_score e"
    by simp
  from insort_cmp_byScoreThenRecent[OF x this] Cons.IH[OF xs] show ?case
    by (simp add: sort_cmp_def sort_key_def)
qed

lemma rankEntries_sorted:
  assumes "\<forall>e\<in>set es. has_score e"
  shows "map snd (rankEntries h es) = sort_key (\<lambda>e. (- score_value e, - entry_timestamp e)) es"
    and "map fst (rankEntries h es) = [1..<Suc (length es)]"
    and "sorted_wrt ranks_before (map snd (rankEntries h es))"
proof -
  let ?k = "\<lambda>e. (- score_value e, - entry_timestamp e)"
  have js: "js_sort h byScoreThenRecent es = sort_key ?k es"
    using assms by (simp add: js_sort_def consistent_byScoreThenRecent sort_cmp_byScoreThenRecent)
  have "length [1..<Suc n] = n" for n :: nat
    by (simp only: length_upt diff_Suc_1)
  then have len: "length [1..<Suc (length (sort_key ?k es))] = length (sort_key ?k es)" .
  show 1: "map snd (rankEntries h es) = sort_key ?k es"
    unfolding rankEntries_def js Let_def by (rule map_snd_zip[OF len])
  have "map fst (rankEntries h es) = [1..<Suc (length (sort_key ?k es))]"
    unfolding rankEntries_def js Let_def by (rule map_fst_zip[OF len])
  then show "map fst (rankEntries h es) = [1..<Suc (length es)]"
    by simp
  have "sorted (map ?k (sort_key ?k es))" by (rule sorted_sort_key)
  then have "sorted_wrt (\<lambda>a b. ?k a \<le> ?k b) (sort_key ?k es)"
    by (simp add: sorted_map)
  moreover have "?k a \<le> ?k b \<Longrightarrow> ranks_before a b" for a b
    by (auto simp: less_eq_prod_def ranks_before_def)
  ultimately have "sorted_wrt ranks_before (sort_key ?k es)"
    using sorted_wrt_mono_rel[of "sort_key ?k es" "\<lambda>a b. ?k a \<le> ?k b" ranks_before] by blast
  with 1 show "sorted_wrt ranks_before (map snd (rankEntries h es))" by simp
qed

subsection \<open>Reading and writing the item\<close>

lemma valid_entries_map_Entry: "valid_entries (map Entry es) = es"
  by (induction es) simp_all

lemma valid_entries_append:
  "valid_entries (xs @ ys) = valid_entries xs @ valid_entries ys"
  by (induction xs rule: valid_entries.induct) simp_all

lemma stringified_name [simp]: "entry_name (stringified e) = entry_name e"
  by (simp add: stringified_def)

lemma stringified_json: "json_scores es \<Longrightarrow> map stringified es = es"
  by (induction es) (simp_all add: json_scores_def stringified_def)

lemma loadStored_persisted: "loadStored (persisted es) = map Entry (map stringified es)"
  by (simp add: loadStored_def persisted_def)

lemma loadStored_persisted_json: "json_scores es \<Longrightarrow> loadStored (persisted es) = map Entry es"
  by (simp add: loadStored_persisted stringified_json)

lemma json_scores_stringified: "json_scores (map stringified es)"
  by (auto simp: json_scores_def stringified_def)

subsection \<open>The search and the merge\<close>

lemma findIndex_name_None:
  "findIndex_name h nm lb = Inr None \<Longrightarrow>
     player_entries h nm (valid_entries lb) = [] \<and> lb = map Entry (valid_entries lb)"
  by (induction h nm lb rule: findIndex_name.induct)
     (auto simp: player_entries_def same_player_def split: if_splits sum.splits option.splits)

lemma findIndex_name_Some:
  "findIndex_name h nm lb = Inr (Some i) \<Longrightarrow>
     i < length lb \<and> (\<exists>e. lb ! i = Entry e \<and> same_player h nm e)"
proof (induction h nm lb arbitrary: i rule: findIndex_name.induct)
  case (3 h nm e xs)
  show ?case
  proof (cases "toLowerCase h (entry_name e) = toLowerCase h nm")
    case True
    with 3 show ?thesis by (simp add: same_player_def)
  next
    case False
    with 3(2) obtain j where j: "findIndex_name h nm xs = Inr (Some j)" "i = Suc j"
      by (auto split: sum.splits option.splits)
    with 3(1)[OF False j(1)] show ?thesis by simp
  qed
qed simp_all

lemma findIndex_name_map_Entry:
  "findIndex_name h nm (map Entry es) =
     (case find (same_player h nm) es of
        None \<Rightarrow> Inr None
      | Some e \<Rightarrow> Inr (Some (length (takeWhile (\<lambda>x. \<not> same_player h nm x) es))))"
  by (induction es) (auto simp: same_player_def split: option.splits)

lemma valid_entries_update_names:
  "i < length lb \<Longrightarrow> lb ! i = Entry e \<Longrightarrow> entry_name e' = entry_name e \<Longrightarrow>
     map entry_name (valid_entries (lb[i := Entry e'])) = map entry_name (valid_entries lb)"
proof (induction lb arbitrary: i rule: valid_entries.induct)
  case 1
  then show ?case by simp
next
  case (2 xs)
  then show ?case by (cases i) simp_all
next
  case (3 x xs)
  then show ?case by (cases i) simp_all
qed

lemma one_entry_per_name_names:
  "map entry_name es = map entry_name es' \<Longrightarrow>
     one_entry_per_name h es = one_entry_per_name h es'"
proof -
  assume "map entry_name es = map entry_name es'"
  then have "map (toLowerCase h) (map entry_name es) = map (toLowerCase h) (map entry_name es')"
    by simp
  then show ?thesis by (simp add: one_entry_per_name_def comp_def)
qed

lemma one_entry_per_name_mset:
  assumes "mset ys = mset es" and "one_entry_per_name h es"
  shows "one_entry_per_name h ys"
proof -
  let ?f = "\<lambda>e. toLowerCase h (entry_name e)"
  from assms(1) have "mset (map ?f ys) = mset (map ?f es)" by simp
  then have "distinct (map ?f ys) = distinct (map ?f es)"
    by (rule mset_eq_imp_distinct_iff)
  with assms(2) show ?thesis by (simp add: one_entry_per_name_def)
qed

lemma one_entry_per_name_take:
  "one_entry_per_name h es \<Longrightarrow> one_entry_per_name h (take n es)"
proof -
  assume "one_entry_per_name h es"
  then have "distinct (take n (map (\<lambda>e. toLowerCase h (entry_name e)) es))"
    unfolding one_entry_per_name_def by (rule distinct_take)
  then show ?thesis by (simp add: one_entry_per_name_def take_map)
qed

lemma one_entry_per_name_keepBest:
  "engine_permutes h \<Longrightarrow> one_entry_per_name h (valid_entries lb) \<Longrightarrow>
     one_entry_per_name h (keepBest h lb)"
  unfolding keepBest_def
  by (rule one_entry_per_name_take) (rule one_entry_per_name_mset[OF mset_js_sort])

lemma accumulate_entry_name [simp]:
  "entry_name (accumulate_entry s a t e) = entry_name e"
  by (simp add: accumulate_entry_def)

lemma accumulate_keeps_one_entry_per_name:
  assumes "one_entry_per_name h (valid_entries lb)"
      and "accumulate h lb nm s a t = Inr lb'"
  shows "one_entry_per_name h (valid_entries lb')"
proof (cases "findIndex_name h nm lb")
  case (Inl err)
  with assms(2) show ?thesis by (simp add: accumulate_def)
next
  case (Inr r)
  show ?thesis
  proof (cases r)
    case None
    with Inr have absent: "player_entries h nm (valid_entries lb) = []"
      by (simp add: findIndex_name_None)
    from None Inr assms(2) have lb': "lb' = lb @ [Entry \<lparr>entry_name = nm, entry_score = Num s,
        entry_accuracy = a, entry_timestamp = t, entry_attempts = Some 1\<rparr>]"
      by (simp add: accumulate_def)
    from absent have
      "toLowerCase h nm \<notin> (\<lambda>e. toLowerCase h (entry_name e)) ` set (valid_entries lb)"
      by (auto simp: player_entries_def same_player_def filter_empty_conv)
    with assms(1) show ?thesis
      by (simp add: lb' valid_entries_append one_entry_per_name_def)
  next
    case (Some i)
    with Inr obtain e where e: "i < length lb" "lb ! i = Entry e"
      using findIndex_name_Some by blast
    with Some Inr assms(2) have lb': "lb' = lb[i := Entry (accumulate_entry s a t e)]"
      by (simp add: accumulate_def)
    have "map entry_name (valid_entries lb') = map entry_name (valid_entries lb)"
      unfolding lb' by (rule valid_entries_update_names[OF e]) simp
    with assms(1) show ?thesis using one_entry_per_name_names by blast
  qed
qed

lemma finishGame_leaderboard_keeps_one_entry_per_name:
  assumes "engine_permutes h"
      and "one_entry_per_name h (valid_entries (loadStored item))"
      and "finishGame_leaderboard h item nm s a t = Inr lb'"
  shows "one_entry_per_name h lb'"
proof -
  from assms(3) obtain lb where lb: "accumulate h (loadStored item) nm s a t = Inr lb"
      and lb': "lb' = keepBest h lb"
    by (auto simp: finishGame_leaderboard_def split: sum.splits)
  from accumulate_keeps_one_entry_per_name[OF assms(2) lb]
  show ?thesis unfolding lb' by (rule one_entry_per_name_keepBest[OF assms(1)])
qed

subsection \<open>The evaluation host\<close>

lemma ascii_host_simps [simp]:
  "toLowerCase ascii_host = map ascii_lower" "engineSort ascii_host c es = es"
  by (simp_all add: ascii_host_def)

lemma engine_permutes_ascii_host: "engine_permutes ascii_host"
  by (simp add: engine_permutes_def)

section \<open>Leaderboard: two sessions of one player (C6)\<close>

lemma player_entries_at:
  "one_entry_per_name h es \<Longrightarrow> i < length es \<Longrightarrow> same_player h nm (es ! i) \<Longrightarrow>
     player_entries h nm es = [es ! i]"
proof (induction es arbitrary: i)
  case Nil
  then show ?case by simp
next
  case (Cons x xs)
  show ?case
  proof (cases i)
    case 0
    with Cons.prems have "\<forall>y\<in>set xs. \<not> same_player h nm y"
      by (force simp: one_entry_per_name_def same_player_def image_iff)
    then have "filter (same_player h nm) xs = []"
      by (simp add: filter_empty_conv)
    with 0 Cons.prems show ?thesis by (simp add: player_entries_def)
  next
    case (Suc j)
    with Cons.prems have j: "j < length xs" "same_player h nm (xs ! j)" "one_entry_per_name h xs"
      by (simp_all add: one_entry_per_name_def)
    then have "xs ! j \<in> set xs" by simp
    with Cons.prems(1) j(2) have "\<not> same_player h nm x"
      by (force simp: one_entry_per_name_def same_player_def image_iff)
    with Cons.IH[OF j(3) j(1) j(2)] Suc show ?thesis
      by (simp add: player_entries_def)
  qed
qed

text \<open>When the player has at most one entry, it is the one found, and replacing it leaves
  the player with the replacement alone.\<close>

lemma player_entries_update:
  assumes "length (player_entries h nm es) \<le> 1" and "i < length es"
      and "same_player h nm (es ! i)" and "same_player h nm y"
  shows "player_entries h nm es = [es ! i]"
    and "player_entries h nm (es[i := y]) = [y]"
proof -
  let ?P = "same_player h nm"
  have split: "es = take i es @ es ! i # drop (Suc i) es"
    using assms(2) by (rule id_take_nth_drop)
  have "filter ?P es = filter ?P (take i es) @ filter ?P (es ! i # drop (Suc i) es)"
    by (subst split) (simp only: filter_append)
  then have f: "filter ?P es = filter ?P (take i es) @ es ! i # filter ?P (drop (Suc i) es)"
    using assms(3) by simp
  with assms(1) have "length (filter ?P (take i es)) + length (filter ?P (drop (Suc i) es)) = 0"
    by (simp add: player_entries_def)
  then have e: "filter ?P (take i es) = []" "filter ?P (drop (Suc i) es) = []"
    by simp_all
  from f e show "player_entries h nm es = [es ! i]"
    by (simp add: player_entries_def)
  have "es[i := y] = take i es @ y # drop (Suc i) es"
    using assms(2) by (rule upd_conv_take_nth_drop)
  then have "filter ?P (es[i := y]) = filter ?P (take i es) @ y # filter ?P (drop (Suc i) es)"
    using assms(4) by simp
  with e show "player_entries h nm (es[i := y]) = [y]"
    by (simp add: player_entries_def)
qed

text \<open>The search has passed entries only when it finds the player.\<close>

lemma findIndex_name_valid:
  "findIndex_name h nm lb = Inr (Some i) \<Longrightarrow> lb ! i = Entry x \<Longrightarrow>
     i < length (valid_entries lb) \<and> valid_entries lb ! i = x
     \<and> valid_entries (lb[i := Entry y]) = (valid_entries lb)[i := y]"
proof (induction h nm lb arbitrary: i rule: findIndex_name.induct)
  case (3 h nm e xs)
  show ?case
  proof (cases "toLowerCase h (entry_name e) = toLowerCase h nm")
    case True
    with 3 show ?thesis by simp
  next
    case False
    with 3(2) obtain j where j: "findIndex_name h nm xs = Inr (Some j)" "i = Suc j"
      by (auto split: sum.splits option.splits)
    with 3(1)[OF False j(1)] 3(3) show ?thesis by simp
  qed
qed simp_all

lemma findIndex_name_error: "findIndex_name h nm lb = Inl err \<Longrightarrow> err = TypeError"
  by (induction h nm lb rule: findIndex_name.induct)
     (auto split: if_splits sum.splits option.splits)

lemma findIndex_name_same:
  "toLowerCase h nm1 = toLowerCase h nm2 \<Longrightarrow>
     findIndex_name h nm1 lb = findIndex_name h nm2 lb"
  by (induction h nm1 lb rule: findIndex_name.induct) simp_all

lemma player_entries_sort_key:
  "player_entries h nm (sort_key k es) = sort_key k (player_entries h nm es)"
  by (simp add: player_entries_def filter_sort)

lemma score_plus_Num:
  "entry_score e \<noteq> Missing \<Longrightarrow> entry_score e \<noteq> NaN \<Longrightarrow>
     score_plus (entry_score e) s = Num (score_value e + s)"
  by (cases "entry_score e") (simp_all add: score_value_def)

lemma json_scores_sort_key: "json_scores (sort_key k es) = json_scores es"
  by (simp add: json_scores_def)

lemma keepBest_room:
  "json_scores (valid_entries lb) \<Longrightarrow> length (valid_entries lb) \<le> 200 \<Longrightarrow>
     keepBest h lb = sort_key (\<lambda>e. - score_value e) (valid_entries lb)"
  by (simp add: keepBest_json)

text \<open>One merge into a stored item in which the player has at most one entry, with a
  score, and which has room: the player's entry afterwards.\<close>

lemma merge_one_session:
  assumes nothrow: "findIndex_name h nm (loadStored item) \<noteq> Inl TypeError"
      and uniq: "length (player_entries h nm (stored_entries item)) \<le> 1"
      and json: "json_scores (stored_entries item)"
      and scored: "\<forall>e\<in>set (player_entries h nm (stored_entries item)). entry_score e \<noteq> Missing"
      and room: "length (stored_entries item) < 200
                 \<or> (player_entries h nm (stored_entries item) \<noteq> []
                     \<and> length (stored_entries item) \<le> 200)"
  shows "\<exists>lb e. finishGame_leaderboard h item nm s a t = Inr lb
           \<and> json_scores lb \<and> length lb \<le> 200
           \<and> player_entries h nm lb = [e]
           \<and> entry_score e = Num (prior_score h nm (stored_entries item) + s)
           \<and> entry_attempts e = Some (prior_attempts h nm (stored_entries item) + 1)"
proof (cases "findIndex_name h nm (loadStored item)")
  case (Inl err)
  with nothrow findIndex_name_error[OF Inl] show ?thesis by simp
next
  case (Inr r)
  let ?k = "\<lambda>e. - score_value e"
  let ?lb = "loadStored item"
  let ?es = "stored_entries item"
  have es: "?es = valid_entries ?lb" by (simp add: stored_entries_def)
  show ?thesis
  proof (cases r)
    case None
    with Inr have absent: "player_entries h nm ?es = []"
      using findIndex_name_None[of h nm ?lb] by (simp add: es)
    let ?new = "\<lparr>entry_name = nm, entry_score = Num s, entry_accuracy = a,
                  entry_timestamp = t, entry_attempts = Some 1\<rparr>"
    from None Inr have acc: "accumulate h ?lb nm s a t = Inr (?lb @ [Entry ?new])"
      by (simp add: accumulate_def)
    have ve: "valid_entries (?lb @ [Entry ?new]) = ?es @ [?new]"
      by (simp add: valid_entries_append es)
    from absent room have len: "length (valid_entries (?lb @ [Entry ?new])) \<le> 200"
      by (simp add: ve)
    from json have json1: "json_scores (valid_entries (?lb @ [Entry ?new]))"
      by (simp add: ve json_scores_def)
    let ?out = "sort_key ?k (?es @ [?new])"
    have fin: "finishGame_leaderboard h item nm s a t = Inr ?out"
      using acc keepBest_room[OF json1 len, of h]
      by (simp add: finishGame_leaderboard_def ve)
    have json': "json_scores ?out" using json1 by (simp only: json_scores_sort_key ve)
    have pe: "player_entries h nm ?out = [?new]"
      using absent by (simp add: player_entries_sort_key)
         (simp add: player_entries_def same_player_def)
    from absent have "prior_score h nm ?es = 0" "prior_attempts h nm ?es = 0"
      by (simp_all add: prior_score_def prior_attempts_def)
    with fin json' pe len ve show ?thesis by simp
  next
    case (Some i)
    with Inr obtain x where x: "i < length ?lb" "?lb ! i = Entry x" "same_player h nm x"
      using findIndex_name_Some[of h nm ?lb i] by auto
    let ?upd = "accumulate_entry s a t x"
    from Some Inr x have acc: "accumulate h ?lb nm s a t = Inr (?lb[i := Entry ?upd])"
      by (simp add: accumulate_def)
    from Some Inr x(2) have v: "i < length ?es" "?es ! i = x"
        "valid_entries (?lb[i := Entry ?upd]) = ?es[i := ?upd]"
      using findIndex_name_valid[of h nm ?lb i x ?upd] by (simp_all add: es)
    have sp: "same_player h nm (?es ! i)" "same_player h nm ?upd"
      using x(3) v(2) by (simp_all add: same_player_def)
    note pu = player_entries_update[OF uniq v(1) sp]
    from pu(1) v(2) have old: "player_entries h nm ?es = [x]" by simp
    from room have len: "length (valid_entries (?lb[i := Entry ?upd])) \<le> 200"
      by (auto simp: v(3))
    from v(1,2) have xin: "x \<in> set ?es" by auto
    with json have xn: "entry_score x \<noteq> NaN" by (simp add: json_scores_def)
    from scored old have xm: "entry_score x \<noteq> Missing" by simp
    have sc: "entry_score ?upd = Num (score_value x + s)"
      using score_plus_Num[OF xm xn] by (simp add: accumulate_entry_def)
    have "set (?es[i := ?upd]) \<subseteq> insert ?upd (set ?es)" by (rule set_update_subset_insert)
    with json sc have json1: "json_scores (valid_entries (?lb[i := Entry ?upd]))"
      by (auto simp: json_scores_def v(3))
    let ?out = "sort_key ?k (?es[i := ?upd])"
    have fin: "finishGame_leaderboard h item nm s a t = Inr ?out"
      using acc keepBest_room[OF json1 len, of h]
      by (simp add: finishGame_leaderboard_def v(3))
    have json': "json_scores ?out" using json1 by (simp only: json_scores_sort_key v(3))
    have pe: "player_entries h nm ?out = [?upd]"
      using pu(2) by (simp add: player_entries_sort_key)
    from old have "prior_score h nm ?es = score_value x"
      "entry_attempts ?upd = Some (prior_attempts h nm ?es + 1)"
      by (simp_all add: prior_score_def prior_attempts_def accumulate_entry_def)
    with sc fin json' pe len v(3) show ?thesis by simp
  qed
qed

lemma stored_entries_persisted: "json_scores lb \<Longrightarrow> stored_entries (persisted lb) = lb"
  by (simp add: stored_entries_def loadStored_persisted_json valid_entries_map_Entry)

lemma findIndex_name_persisted:
  "findIndex_name h nm (loadStored (persisted lb)) \<noteq> Inl TypeError"
  by (simp only: loadStored_persisted findIndex_name_map_Entry) (simp split: option.splits)

lemma merge_two_sessions:
  assumes nothrow: "findIndex_name h nm1 (loadStored item) \<noteq> Inl TypeError"
      and uniq: "length (player_entries h nm1 (stored_entries item)) \<le> 1"
      and json: "json_scores (stored_entries item)"
      and scored: "\<forall>e\<in>set (player_entries h nm1 (stored_entries item)). entry_score e \<noteq> Missing"
      and room: "length (stored_entries item) < 200
                 \<or> (player_entries h nm1 (stored_entries item) \<noteq> []
                     \<and> length (stored_entries item) \<le> 200)"
      and att: "prior_attempts h nm1 (stored_entries item) \<noteq> - 1"
      and same: "toLowerCase h nm1 = toLowerCase h nm2"
  shows "\<exists>lb1 lb2 e.
           finishGame_leaderboard h item nm1 s1 a1 t1 = Inr lb1
           \<and> finishGame_leaderboard h (persisted lb1) nm2 s2 a2 t2 = Inr lb2
           \<and> player_entries h nm1 lb2 = [e]
           \<and> entry_score e = Num (prior_score h nm1 (stored_entries item) + (s1 + s2))
           \<and> entry_attempts e = Some (prior_attempts h nm1 (stored_entries item) + 2)"
proof -
  let ?es = "stored_entries item"
  from same have sp: "same_player h nm2 = same_player h nm1"
    by (auto simp: same_player_def fun_eq_iff)
  then have pe_eq: "\<And>xs. player_entries h nm2 xs = player_entries h nm1 xs"
    by (simp add: player_entries_def)
  from merge_one_session[OF nothrow uniq json scored room, of s1 a1 t1]
  obtain lb1 e1 where 1: "finishGame_leaderboard h item nm1 s1 a1 t1 = Inr lb1"
      "json_scores lb1" "length lb1 \<le> 200"
      "player_entries h nm1 lb1 = [e1]"
      "entry_score e1 = Num (prior_score h nm1 ?es + s1)"
      "entry_attempts e1 = Some (prior_attempts h nm1 ?es + 1)"
    by blast
  have se: "stored_entries (persisted lb1) = lb1" by (rule stored_entries_persisted[OF 1(2)])
  have nothrow1: "findIndex_name h nm2 (loadStored (persisted lb1)) \<noteq> Inl TypeError"
    by (rule findIndex_name_persisted)
  have uniq1: "length (player_entries h nm2 (stored_entries (persisted lb1))) \<le> 1"
    using 1(4) by (simp add: se pe_eq)
  have json1: "json_scores (stored_entries (persisted lb1))" using 1(2) by (simp add: se)
  have scored1: "\<forall>e\<in>set (player_entries h nm2 (stored_entries (persisted lb1))).
                   entry_score e \<noteq> Missing"
    using 1(4,5) by (simp add: se pe_eq)
  have room1: "length (stored_entries (persisted lb1)) < 200
               \<or> (player_entries h nm2 (stored_entries (persisted lb1)) \<noteq> []
                   \<and> length (stored_entries (persisted lb1)) \<le> 200)"
    using 1(3,4) by (simp add: se pe_eq)
  from merge_one_session[OF nothrow1 uniq1 json1 scored1 room1, of s2 a2 t2]
  obtain lb2 e2 where 2: "finishGame_leaderboard h (persisted lb1) nm2 s2 a2 t2 = Inr lb2"
      "player_entries h nm2 lb2 = [e2]"
      "entry_score e2 = Num (prior_score h nm2 lb1 + s2)"
      "entry_attempts e2 = Some (prior_attempts h nm2 lb1 + 1)"
    unfolding se by blast
  have ps: "prior_score h nm2 lb1 = prior_score h nm1 ?es + s1"
    using 1(4,5) by (simp add: prior_score_def pe_eq score_value_def)
  from att have "prior_attempts h nm1 ?es + 1 \<noteq> 0" by simp
  then have pa: "prior_attempts h nm2 lb1 = prior_attempts h nm1 ?es + 1"
    using 1(4,6) by (simp add: prior_attempts_def pe_eq)
  from 1(1) 2 ps pa show ?thesis by (auto simp: pe_eq)
qed

text \<open>
  C6 (amended): take a stored item (absent, unusable, or an array) in which the search
  for the player meets no element without a string name, whose entries have JSON scores,
  in which the player has at most one entry, that one with a score (a number or \<open>null\<close>,
  which counts as 0) and an attempt count other than -1, and which holds fewer than 200
  entries, or at most 200 with the player among them. Merging two sessions of the same
  case-insensitive player name, in either order, then yields exactly one entry for that
  player; its score is the score of the player's entry before (0 for a new player) plus
  both sessions' scores, and its attempt count is the count of that entry before (a
  missing or zero count being a count of 1; 0 for a new player) plus 2.
\<close>

theorem merge_two_sessions_either_order:
  assumes "findIndex_name h nm1 (loadStored item) \<noteq> Inl TypeError"
      and "length (player_entries h nm1 (stored_entries item)) \<le> 1"
      and "json_scores (stored_entries item)"
      and "\<forall>e\<in>set (player_entries h nm1 (stored_entries item)). entry_score e \<noteq> Missing"
      and "length (stored_entries item) < 200
           \<or> (player_entries h nm1 (stored_entries item) \<noteq> []
               \<and> length (stored_entries item) \<le> 200)"
      and "prior_attempts h nm1 (stored_entries item) \<noteq> - 1"
      and "toLowerCase h nm1 = toLowerCase h nm2"
  shows "(\<exists>lb1 lb2 e.
            finishGame_leaderboard h item nm1 s1 a1 t1 = Inr lb1
            \<and> finishGame_leaderboard h (persisted lb1) nm2 s2 a2 t2 = Inr lb2
            \<and> player_entries h nm1 lb2 = [e]
            \<and> entry_score e = Num (prior_score h nm1 (stored_entries item) + (s1 + s2))
            \<and> entry_attempts e = Some (prior_attempts h nm1 (stored_entries item) + 2))
       \<and> (\<exists>lb1 lb2 e.
            finishGame_leaderboard h item nm2 s2 a2 t2 = Inr lb1
            \<and> finishGame_leaderboard h (persisted lb1) nm1 s1 a1 t1 = Inr lb2
            \<and> player_entries h nm1 lb2 = [e]
            \<and> entry_score e = Num (prior_score h nm1 (stored_entries item) + (s1 + s2))
            \<and> entry_attempts e = Some (prior_attempts h nm1 (stored_entries item) + 2))"
proof
  show "\<exists>lb1 lb2 e.
            finishGame_leaderboard h item nm1 s1 a1 t1 = Inr lb1
            \<and> finishGame_leaderboard h (persisted lb1) nm2 s2 a2 t2 = Inr lb2
            \<and> player_entries h nm1 lb2 = [e]
            \<and> entry_score e = Num (prior_score h nm1 (stored_entries item) + (s1 + s2))
            \<and> entry_attempts e = Some (prior_attempts h nm1 (stored_entries item) + 2)"
    by (rule merge_two_sessions[OF assms])
next
  from assms(7) have sp: "same_player h nm2 = same_player h nm1"
    by (auto simp: same_player_def fun_eq_iff)
  then have eqs: "\<And>xs. player_entries h nm2 xs = player_entries h nm1 xs"
    "\<And>xs. prior_score h nm2 xs = prior_score h nm1 xs"
    "\<And>xs. prior_attempts h nm2 xs = prior_attempts h nm1 xs"
    by (simp_all add: player_entries_def prior_score_def prior_attempts_def)
  have fi: "findIndex_name h nm2 (loadStored item) = findIndex_name h nm1 (loadStored item)"
    by (rule findIndex_name_same[OF assms(7)[symmetric]])
  have "\<exists>lb1 lb2 e.
            finishGame_leaderboard h item nm2 s2 a2 t2 = Inr lb1
            \<and> finishGame_leaderboard h (persisted lb1) nm1 s1 a1 t1 = Inr lb2
            \<and> player_entries h nm2 lb2 = [e]
            \<and> entry_score e = Num (prior_score h nm2 (stored_entries item) + (s2 + s1))
            \<and> entry_attempts e = Some (prior_attempts h nm2 (stored_entries item) + 2)"
    using assms by (intro merge_two_sessions) (simp_all add: eqs fi)
  then show "\<exists>lb1 lb2 e.
            finishGame_leaderboard h item nm2 s2 a2 t2 = Inr lb1
            \<and> finishGame_leaderboard h (persisted lb1) nm1 s1 a1 t1 = Inr lb2
            \<and> player_entries h nm1 lb2 = [e]
            \<and> entry_score e = Num (prior_score h nm1 (stored_entries item) + (s1 + s2))
            \<and> entry_attempts e = Some (prior_attempts h nm1 (stored_entries item) + 2)"
    by (simp add: eqs add.commute)
qed

lemma full_board_facts:
  "length full_board = 200"
  "\<forall>e\<in>set full_board. entry_score e = Num 100"
  "\<forall>e\<in>set full_board. \<not> same_player ascii_host ''Bob'' e"
  "json_scores full_board"
  "\<forall>e\<in>set full_board. has_score e"
  by (auto simp: full_board_def same_player_def ascii_lower_def json_scores_def has_score_def)

lemma full_board_nth:
  "n < 200 \<Longrightarrow> full_board ! n
     = \<lparr>entry_name = replicate (Suc n) CHR ''x'', entry_score = Num 100,
         entry_accuracy = 100, entry_timestamp = int n, entry_attempts = Some 1\<rparr>"
  unfolding full_board_def by (simp only: nth_map length_upt nth_upt) simp

lemma full_board_one_entry_per_name: "one_entry_per_name ascii_host full_board"
proof -
  have "inj_on (\<lambda>n. map ascii_lower (replicate (Suc n) CHR ''x'')) {0..<200}"
  proof (rule inj_onI)
    fix m n :: nat
    assume "map ascii_lower (replicate (Suc m) CHR ''x'')
          = map ascii_lower (replicate (Suc n) CHR ''x'')"
    then have "length (map ascii_lower (replicate (Suc m) CHR ''x''))
             = length (map ascii_lower (replicate (Suc n) CHR ''x''))"
      by (rule arg_cong)
    then show "m = n" by simp
  qed
  then show ?thesis
    by (simp add: one_entry_per_name_def full_board_def distinct_map comp_def)
qed

lemma full_board_player_x:
  "player_entries ascii_host ''X'' full_board = [full_board ! 0]"
  by (rule player_entries_at[OF full_board_one_entry_per_name])
     (simp_all add: full_board_facts full_board_nth same_player_def ascii_lower_def)

text \<open>A full leaderboard on which the player already has an entry: both sessions are
  added to it. And the first two sessions of a player, on an absent item.\<close>

theorem merge_two_sessions_either_order_witness:
  "findIndex_name ascii_host ''X'' (loadStored (persisted full_board)) \<noteq> Inl TypeError
   \<and> stored_entries (persisted full_board) = full_board
   \<and> length (player_entries ascii_host ''X'' full_board) = 1
   \<and> json_scores full_board
   \<and> length full_board = 200
   \<and> prior_score ascii_host ''X'' full_board = 100
   \<and> prior_attempts ascii_host ''X'' full_board = 1
   \<and> toLowerCase ascii_host ''X'' = toLowerCase ascii_host ''x''
   \<and> (\<exists>lb1 lb2 e.
         finishGame_leaderboard ascii_host (persisted full_board) ''X'' 15 70 1000 = Inr lb1
         \<and> finishGame_leaderboard ascii_host (persisted lb1) ''x'' 5 60 2000 = Inr lb2
         \<and> player_entries ascii_host ''X'' lb2 = [e]
         \<and> entry_score e = Num 120 \<and> entry_attempts e = Some 3)
   \<and> (\<exists>lb1 lb2 e.
         finishGame_leaderboard ascii_host NoItem ''Ana'' 15 70 1000 = Inr lb1
         \<and> finishGame_leaderboard ascii_host (persisted lb1) ''ANA'' 5 60 2000 = Inr lb2
         \<and> player_entries ascii_host ''Ana'' lb2 = [e]
         \<and> entry_score e = Num 20 \<and> entry_attempts e = Some 2)"
proof -
  let ?item = "persisted full_board"
  have se: "stored_entries ?item = full_board"
    by (rule stored_entries_persisted[OF full_board_facts(4)])
  have h1: "findIndex_name ascii_host ''X'' (loadStored ?item) \<noteq> Inl TypeError"
    by (rule findIndex_name_persisted)
  have h2: "length (player_entries ascii_host ''X'' (stored_entries ?item)) \<le> 1"
    by (simp add: se full_board_player_x)
  have h3: "json_scores (stored_entries ?item)" by (simp add: se full_board_facts)
  have h4: "\<forall>e\<in>set (player_entries ascii_host ''X'' (stored_entries ?item)).
              entry_score e \<noteq> Missing"
    by (simp add: se full_board_player_x full_board_nth)
  have h5: "length (stored_entries ?item) < 200
            \<or> (player_entries ascii_host ''X'' (stored_entries ?item) \<noteq> []
                \<and> length (stored_entries ?item) \<le> 200)"
    by (simp add: se full_board_player_x full_board_facts)
  have p: "prior_score ascii_host ''X'' full_board = 100"
    "prior_attempts ascii_host ''X'' full_board = 1"
    by (simp_all add: prior_score_def prior_attempts_def full_board_player_x full_board_nth
        score_value_def)
  have h6: "prior_attempts ascii_host ''X'' (stored_entries ?item) \<noteq> - 1"
    by (simp add: se p)
  have h7: "toLowerCase ascii_host ''X'' = toLowerCase ascii_host ''x''"
    by (simp add: ascii_lower_def)
  from merge_two_sessions_either_order[OF h1 h2 h3 h4 h5 h6 h7, of 15 70 1000 5 60 2000]
  have a: "\<exists>lb1 lb2 e.
         finishGame_leaderboard ascii_host ?item ''X'' 15 70 1000 = Inr lb1
         \<and> finishGame_leaderboard ascii_host (persisted lb1) ''x'' 5 60 2000 = Inr lb2
         \<and> player_entries ascii_host ''X'' lb2 = [e]
         \<and> entry_score e = Num 120 \<and> entry_attempts e = Some 3"
    unfolding se p by simp
  have n: "stored_entries NoItem = []" by (simp add: stored_entries_def loadStored_def)
  have g1: "findIndex_name ascii_host ''Ana'' (loadStored NoItem) \<noteq> Inl TypeError"
    by (simp add: loadStored_def)
  have g7: "toLowerCase ascii_host ''Ana'' = toLowerCase ascii_host ''ANA''"
    by (simp add: ascii_lower_def)
  have "\<exists>lb1 lb2 e.
         finishGame_leaderboard ascii_host NoItem ''Ana'' 15 70 1000 = Inr lb1
         \<and> finishGame_leaderboard ascii_host (persisted lb1) ''ANA'' 5 60 2000 = Inr lb2
         \<and> player_entries ascii_host ''Ana'' lb2 = [e]
         \<and> entry_score e = Num (prior_score ascii_host ''Ana'' [] + (15 + 5))
         \<and> entry_attempts e = Some (prior_attempts ascii_host ''Ana'' [] + 2)"
    using merge_two_sessions_either_order[OF g1 _ _ _ _ _ g7, of 15 70 1000 5 60 2000]
    by (simp add: n json_scores_def player_entries_def prior_attempts_def)
  then have b: "\<exists>lb1 lb2 e.
         finishGame_leaderboard ascii_host NoItem ''Ana'' 15 70 1000 = Inr lb1
         \<and> finishGame_leaderboard ascii_host (persisted lb1) ''ANA'' 5 60 2000 = Inr lb2
         \<and> player_entries ascii_host ''Ana'' lb2 = [e]
         \<and> entry_score e = Num 20 \<and> entry_attempts e = Some 2"
    by (simp add: prior_score_def prior_attempts_def player_entries_def)
  from h1 se a b h7 p show ?thesis
    by (simp add: full_board_player_x full_board_facts)
qed

lemma full_board_keys:
  "map (\<lambda>e. - score_value e) full_board = replicate 200 (- 100)"
proof -
  have "map (\<lambda>e. - score_value e) full_board = map (\<lambda>e. - 100) full_board"
    using full_board_facts(2) by (simp add: score_value_def)
  also have "\<dots> = replicate 200 (- 100)"
    using full_board_facts(1) by (simp only: map_replicate_const)
  finally show ?thesis .
qed

lemma full_board_accumulate_new:
  "accumulate ascii_host (map Entry full_board) ''Bob'' s a t
     = Inr (map Entry (full_board @ [\<lparr>entry_name = ''Bob'', entry_score = Num s,
              entry_accuracy = a, entry_timestamp = t, entry_attempts = Some 1\<rparr>]))"
proof -
  have "find (same_player ascii_host ''Bob'') full_board = None"
    using full_board_facts(3) by (simp add: find_None_iff)
  then show ?thesis by (simp add: accumulate_def findIndex_name_map_Entry)
qed

lemma full_board_evicts:
  "finishGame_leaderboard ascii_host (persisted full_board) ''Bob'' s a t = Inr full_board"
  if "s < 100"
proof -
  let ?new = "\<lparr>entry_name = ''Bob'', entry_score = Num s, entry_accuracy = a,
                entry_timestamp = t, entry_attempts = Some 1\<rparr>"
  have json: "json_scores (full_board @ [?new])"
    using full_board_facts(4) by (simp add: json_scores_def)
  have "score_value ?new = s" by (simp add: score_value_def)
  then have "sorted (map (\<lambda>e. - score_value e) (full_board @ [?new]))"
    using that by (simp add: full_board_keys sorted_append)
  then have "sort_key (\<lambda>e. - score_value e) (full_board @ [?new]) = full_board @ [?new]"
    by (rule sort_key_id_if_sorted)
  moreover have "keepBest ascii_host (map Entry (full_board @ [?new]))
                 = take 200 (sort_key (\<lambda>e. - score_value e) (full_board @ [?new]))"
    using keepBest_json[of "map Entry (full_board @ [?new])" ascii_host] json
    by (simp only: valid_entries_map_Entry)
  ultimately have "keepBest ascii_host (map Entry (full_board @ [?new])) = full_board"
    using full_board_facts(1) by simp
  then show ?thesis
    by (simp add: finishGame_leaderboard_def loadStored_persisted_json[OF full_board_facts(4)]
        full_board_accumulate_new)
qed

text \<open>
  C6 as stated fails on a full leaderboard: a new player whose two sessions score less
  than the 200 stored entries is cut off by \<open>slice(0, 200)\<close> each time, and has no entry
  after both merges.
\<close>

theorem full_board_loses_new_player:
  "one_entry_per_name ascii_host full_board
   \<and> finishGame_leaderboard ascii_host (persisted full_board) ''Bob'' 5 50 1000 = Inr full_board
   \<and> finishGame_leaderboard ascii_host (persisted full_board) ''Bob'' 7 70 2000 = Inr full_board
   \<and> player_entries ascii_host ''Bob'' full_board = []"
proof -
  have "player_entries ascii_host ''Bob'' full_board = []"
    using full_board_facts(3) by (simp add: player_entries_def filter_empty_conv)
  then show ?thesis
    using full_board_one_entry_per_name full_board_evicts[of 5 50 1000]
      full_board_evicts[of 7 70 2000]
    by simp
qed

section \<open>Leaderboard: what is persisted (C7)\<close>

lemma findIndex_name_find:
  "findIndex_name h nm lb = Inr (Some i) \<Longrightarrow> lb ! i = Entry e \<Longrightarrow>
     find (same_player h nm) (valid_entries lb) = Some e"
proof (induction h nm lb arbitrary: i rule: findIndex_name.induct)
  case (3 h nm x xs)
  show ?case
  proof (cases "toLowerCase h (entry_name x) = toLowerCase h nm")
    case True
    with 3 show ?thesis by (simp add: same_player_def)
  next
    case False
    with 3(2) obtain j where j: "findIndex_name h nm xs = Inr (Some j)" "i = Suc j"
      by (auto split: sum.splits option.splits)
    with 3(1)[OF False j(1)] 3(3) False show ?thesis by (simp add: same_player_def)
  qed
qed simp_all

lemma valid_entries_update_set:
  "i < length lb \<Longrightarrow> set (valid_entries (lb[i := Entry e'])) \<subseteq> insert e' (set (valid_entries lb))"
proof (induction lb arbitrary: i rule: valid_entries.induct)
  case 1
  then show ?case by simp
next
  case (2 xs)
  then show ?case by (cases i) auto
next
  case (3 x xs)
  then show ?case by (cases i) auto
qed

text \<open>No NaN arises in the merge when the stored scores are JSON values and the entry the
  session is added to has a score.\<close>

lemma accumulate_json:
  assumes json: "json_scores (valid_entries lb)"
      and scored: "\<forall>e. find (same_player h nm) (valid_entries lb) = Some e
                       \<longrightarrow> entry_score e \<noteq> Missing"
      and acc: "accumulate h lb nm s a t = Inr lb'"
  shows "json_scores (valid_entries lb')"
proof (cases "findIndex_name h nm lb")
  case (Inl err)
  with acc show ?thesis by (simp add: accumulate_def)
next
  case (Inr r)
  show ?thesis
  proof (cases r)
    case None
    with Inr acc have "lb' = lb @ [Entry \<lparr>entry_name = nm, entry_score = Num s,
        entry_accuracy = a, entry_timestamp = t, entry_attempts = Some 1\<rparr>]"
      by (simp add: accumulate_def)
    with json show ?thesis by (simp add: valid_entries_append json_scores_def)
  next
    case (Some i)
    with Inr obtain e where e: "i < length lb" "lb ! i = Entry e"
      using findIndex_name_Some by blast
    with Some Inr acc have lb': "lb' = lb[i := Entry (accumulate_entry s a t e)]"
      by (simp add: accumulate_def)
    from Some Inr e have f: "find (same_player h nm) (valid_entries lb) = Some e"
      using findIndex_name_find by blast
    with scored have m: "entry_score e \<noteq> Missing" by simp
    from f have "e \<in> set (valid_entries lb)"
      by (auto simp: find_Some_iff)
    with json have n: "entry_score e \<noteq> NaN" by (simp add: json_scores_def)
    from m n have "entry_score (accumulate_entry s a t e) \<noteq> NaN"
      by (cases "entry_score e") (simp_all add: accumulate_entry_def)
    with json valid_entries_update_set[OF e(1), of "accumulate_entry s a t e"]
    show ?thesis unfolding lb' json_scores_def by auto
  qed
qed

lemma sort_key_score_sorted:
  "sorted_wrt (\<lambda>x y. score_value y \<le> score_value x) (sort_key (\<lambda>e. - score_value e) es)"
proof -
  have "sorted (map (\<lambda>e. - score_value e) (sort_key (\<lambda>e. - score_value e) es))"
    by (rule sorted_sort_key)
  then show ?thesis by (simp add: sorted_map)
qed

lemma keepBest_sorted:
  "json_scores (valid_entries lb) \<Longrightarrow>
     sorted_wrt (\<lambda>x y. score_value y \<le> score_value x) (keepBest h lb)"
  by (simp only: keepBest_json) (rule sorted_wrt_take[OF sort_key_score_sorted])

lemma keepBest_evicted_mset:
  "json_scores (valid_entries lb) \<Longrightarrow>
     mset (keepBest h lb) + mset (evicted h lb) = mset (valid_entries lb)"
proof -
  assume json: "json_scores (valid_entries lb)"
  let ?zs = "sort_key (\<lambda>e. - score_value e) (valid_entries lb)"
  have "mset (take 200 ?zs) + mset (drop 200 ?zs) = mset ?zs"
    by (simp only: mset_append[symmetric] append_take_drop_id)
  also have "\<dots> = mset (valid_entries lb)" by simp
  finally show ?thesis by (simp only: keepBest_json[OF json] evicted_json[OF json])
qed

lemma evicted_score_le_kept:
  assumes json: "json_scores (valid_entries lb)"
      and "k \<in> set (keepBest h lb)" and "e \<in> set (evicted h lb)"
  shows "score_value e \<le> score_value k"
proof -
  let ?zs = "sort_key (\<lambda>e. - score_value e) (valid_entries lb)"
  have "sorted_wrt (\<lambda>x y. score_value y \<le> score_value x) (take 200 ?zs @ drop 200 ?zs)"
    by (simp only: append_take_drop_id) (rule sort_key_score_sorted)
  then have "\<forall>x\<in>set (take 200 ?zs). \<forall>y\<in>set (drop 200 ?zs). score_value y \<le> score_value x"
    by (simp only: sorted_wrt_append) blast
  with assms(2,3) show ?thesis by (simp only: keepBest_json[OF json] evicted_json[OF json])
qed

lemma keepBest_ties_in_stored_order:
  assumes json: "json_scores (valid_entries lb)"
  shows "prefix (filter (\<lambda>e. score_value e = v) (keepBest h lb))
                (filter (\<lambda>e. score_value e = v) (valid_entries lb))"
proof -
  let ?zs = "sort_key (\<lambda>e. - score_value e) (valid_entries lb)"
  let ?P = "\<lambda>e. score_value e = v"
  have "filter (\<lambda>e. - score_value e = - v) ?zs
        = filter (\<lambda>e. - score_value e = - v) (valid_entries lb)"
    by (rule sort_key_stable)
  then have st: "filter ?P ?zs = filter ?P (valid_entries lb)" by simp
  have "filter ?P ?zs = filter ?P (take 200 ?zs) @ filter ?P (drop 200 ?zs)"
    by (simp only: filter_append[symmetric] append_take_drop_id)
  then have "prefix (filter ?P (take 200 ?zs)) (filter ?P ?zs)"
    by (simp add: prefix_def)
  then show ?thesis by (simp only: st keepBest_json[OF json])
qed

lemma json_scores_keepBest:
  "json_scores (valid_entries lb) \<Longrightarrow> json_scores (keepBest h lb)"
proof -
  assume json: "json_scores (valid_entries lb)"
  have "set (take 200 (sort_key (\<lambda>e. - score_value e) (valid_entries lb)))
        \<subseteq> set (sort_key (\<lambda>e. - score_value e) (valid_entries lb))"
    by (rule set_take_subset)
  with json show ?thesis
    by (simp only: keepBest_json[OF json]) (auto simp: json_scores_def)
qed

lemma rankEntries_mset:
  "\<forall>e\<in>set es. has_score e \<Longrightarrow> mset (map snd (rankEntries h es)) = mset es"
  by (simp add: rankEntries_sorted(1))

text \<open>
  C7 (amended): a merge that writes the leaderboard back persists at most 200 entries.
  When the stored scores are JSON values and the entry the session is added to, if any,
  has a score, the persisted entries are read back as they were written; with those cut
  off they are exactly the elements of the merged array that have a string name; they
  are sorted in descending order of score (a missing or \<open>null\<close> score counting as 0),
  entries of equal score staying in the order they had in the array (a new entry last);
  and what was cut off scores no more than anything that was kept. The tie-break by
  recency is not part of the persisted order: the leaderboard page applies it when it
  ranks the collection. When every entry has a score, the page shows the entries its
  date filter keeps rearranged by score, highest first, then most recent first, with the
  ranks 1, 2, ... in that order.
\<close>

theorem finishGame_leaderboard_persisted:
  assumes "finishGame_leaderboard h item nm s a t = Inr lb'"
  shows "length lb' \<le> 200
       \<and> (json_scores (valid_entries (loadStored item))
            \<and> (\<forall>e. find (same_player h nm) (valid_entries (loadStored item)) = Some e
                     \<longrightarrow> entry_score e \<noteq> Missing)
          \<longrightarrow> json_scores lb'
              \<and> loadStored (persisted lb') = map Entry lb'
              \<and> sorted_wrt (\<lambda>x y. score_value y \<le> score_value x) lb'
              \<and> (\<exists>lb. accumulate h (loadStored item) nm s a t = Inr lb
                    \<and> mset lb' + mset (evicted h lb) = mset (valid_entries lb)
                    \<and> (\<forall>k\<in>set lb'. \<forall>e\<in>set (evicted h lb). score_value e \<le> score_value k)
                    \<and> (\<forall>v. prefix (filter (\<lambda>e. score_value e = v) lb')
                                   (filter (\<lambda>e. score_value e = v) (valid_entries lb))))
              \<and> ((\<forall>e\<in>set lb'. has_score e)
                   \<longrightarrow> (\<forall>keep.
                         map fst (rankEntries h (filter keep lb'))
                           = [1..<Suc (length (filter keep lb'))]
                         \<and> mset (map snd (rankEntries h (filter keep lb')))
                             = mset (filter keep lb')
                         \<and> sorted_wrt ranks_before
                             (map snd (rankEntries h (filter keep lb'))))))"
proof -
  from assms obtain lb where lb: "accumulate h (loadStored item) nm s a t = Inr lb"
      and lb': "lb' = keepBest h lb"
    by (auto simp: finishGame_leaderboard_def split: sum.splits)
  have len: "length lb' \<le> 200" by (simp add: lb' keepBest_def)
  have rest: "json_scores lb'
              \<and> loadStored (persisted lb') = map Entry lb'
              \<and> sorted_wrt (\<lambda>x y. score_value y \<le> score_value x) lb'
              \<and> (\<exists>lb. accumulate h (loadStored item) nm s a t = Inr lb
                    \<and> mset lb' + mset (evicted h lb) = mset (valid_entries lb)
                    \<and> (\<forall>k\<in>set lb'. \<forall>e\<in>set (evicted h lb). score_value e \<le> score_value k)
                    \<and> (\<forall>v. prefix (filter (\<lambda>e. score_value e = v) lb')
                                   (filter (\<lambda>e. score_value e = v) (valid_entries lb))))
              \<and> ((\<forall>e\<in>set lb'. has_score e)
                   \<longrightarrow> (\<forall>keep.
                         map fst (rankEntries h (filter keep lb'))
                           = [1..<Suc (length (filter keep lb'))]
                         \<and> mset (map snd (rankEntries h (filter keep lb')))
                             = mset (filter keep lb')
                         \<and> sorted_wrt ranks_before
                             (map snd (rankEntries h (filter keep lb')))))"
    if json: "json_scores (valid_entries (loadStored item))"
      and scored: "\<forall>e. find (same_player h nm) (valid_entries (loadStored item)) = Some e
                     \<longrightarrow> entry_score e \<noteq> Missing"
  proof -
    from accumulate_json[OF json scored lb] have j: "json_scores (valid_entries lb)" .
    have 1: "json_scores lb'" unfolding lb' by (rule json_scores_keepBest[OF j])
    have 0: "loadStored (persisted lb') = map Entry lb'"
      by (rule loadStored_persisted_json[OF 1])
    have 2: "sorted_wrt (\<lambda>x y. score_value y \<le> score_value x) lb'"
      unfolding lb' by (rule keepBest_sorted[OF j])
    have 4: "mset lb' + mset (evicted h lb) = mset (valid_entries lb)"
      unfolding lb' by (rule keepBest_evicted_mset[OF j])
    have 5: "\<forall>k\<in>set lb'. \<forall>e\<in>set (evicted h lb). score_value e \<le> score_value k"
      unfolding lb' using evicted_score_le_kept[OF j] by blast
    have 6: "\<forall>v. prefix (filter (\<lambda>e. score_value e = v) lb')
                        (filter (\<lambda>e. score_value e = v) (valid_entries lb))"
      unfolding lb' using keepBest_ties_in_stored_order[OF j] by blast
    have 7: "map fst (rankEntries h (filter keep lb')) = [1..<Suc (length (filter keep lb'))]
             \<and> mset (map snd (rankEntries h (filter keep lb'))) = mset (filter keep lb')
             \<and> sorted_wrt ranks_before (map snd (rankEntries h (filter keep lb')))"
      if "\<forall>e\<in>set lb'. has_score e" for keep
    proof -
      from that have hs: "\<forall>e\<in>set (filter keep lb'). has_score e" by simp
      from rankEntries_sorted(2,3)[OF hs] rankEntries_mset[OF hs] show ?thesis by blast
    qed
    from lb 0 1 2 4 5 6 7 show ?thesis by blast
  qed
  from len rest show ?thesis by blast
qed

lemma full_board_split:
  "full_board = \<lparr>entry_name = ''x'', entry_score = Num 100, entry_accuracy = 100,
                  entry_timestamp = 0, entry_attempts = Some 1\<rparr> # tl full_board"
proof -
  have "full_board \<noteq> []" using full_board_facts(1) by auto
  then have "full_board = hd full_board # tl full_board" by simp
  moreover from \<open>full_board \<noteq> []\<close> have "hd full_board = full_board ! 0"
    by (rule hd_conv_nth)
  ultimately have "full_board = full_board ! 0 # tl full_board" by simp
  then show ?thesis by (simp add: full_board_nth)
qed

lemma tl_full_board_facts:
  "length (tl full_board) = 199"
  "map (\<lambda>e. - score_value e) (tl full_board) = replicate 199 (- 100)"
  "json_scores (tl full_board)"
  "\<forall>e\<in>set (tl full_board). has_score e"
proof -
  show "length (tl full_board) = 199" by (simp add: full_board_facts)
  have "map (\<lambda>e. - score_value e) (tl full_board) = tl (map (\<lambda>e. - score_value e) full_board)"
    by (simp add: map_tl)
  then show "map (\<lambda>e. - score_value e) (tl full_board) = replicate 199 (- 100)"
    by (simp add: full_board_keys)
  have "set (tl full_board) \<subseteq> set full_board"
    using full_board_split by (metis set_subset_Cons)
  with full_board_facts(4,5) show "json_scores (tl full_board)"
    "\<forall>e\<in>set (tl full_board). has_score e"
    by (auto simp: json_scores_def)
qed

lemma crowded_array_eq:
  "crowded_array =
     Entry \<lparr>entry_name = ''x'', entry_score = Num 100, entry_accuracy = 100,
             entry_timestamp = 0, entry_attempts = Some 1\<rparr>
       # (map Entry (tl full_board) @ [Entry late_tie, Invalid])"
proof -
  have "map Entry full_board =
     Entry \<lparr>entry_name = ''x'', entry_score = Num 100, entry_accuracy = 100,
             entry_timestamp = 0, entry_attempts = Some 1\<rparr> # map Entry (tl full_board)"
    by (subst full_board_split) simp
  then show ?thesis by (simp add: crowded_array_def)
qed

lemma crowded_array_accumulate:
  "accumulate ascii_host crowded_array ''X'' 50 70 1000 =
     Inr (Entry \<lparr>entry_name = ''x'', entry_score = Num 150, entry_accuracy = 70,
                  entry_timestamp = 1000, entry_attempts = Some 2\<rparr>
            # (map Entry (tl full_board) @ [Entry late_tie, Invalid]))"
  by (simp add: crowded_array_eq accumulate_def accumulate_entry_def ascii_lower_def)

lemma crowded_array_sorted:
  "js_sort ascii_host byScore
     (\<lparr>entry_name = ''x'', entry_score = Num 150, entry_accuracy = 70,
        entry_timestamp = 1000, entry_attempts = Some 2\<rparr> # tl full_board @ [late_tie])
   = \<lparr>entry_name = ''x'', entry_score = Num 150, entry_accuracy = 70,
        entry_timestamp = 1000, entry_attempts = Some 2\<rparr> # tl full_board @ [late_tie]"
proof -
  let ?x = "\<lparr>entry_name = ''x'', entry_score = Num 150, entry_accuracy = 70,
              entry_timestamp = 1000, entry_attempts = Some 2\<rparr>"
  have json: "json_scores (?x # tl full_board @ [late_tie])"
    using tl_full_board_facts(3) by (simp add: json_scores_def late_tie_def)
  have "score_value ?x = 150" "score_value late_tie = 100"
    by (simp_all add: score_value_def late_tie_def)
  then have "sorted (map (\<lambda>e. - score_value e) (?x # tl full_board @ [late_tie]))"
    by (simp add: tl_full_board_facts(2) sorted_append)
  then have "sort_key (\<lambda>e. - score_value e) (?x # tl full_board @ [late_tie])
             = ?x # tl full_board @ [late_tie]"
    by (rule sort_key_id_if_sorted)
  with js_sort_byScore[OF json] show ?thesis by simp
qed

lemma crowded_array_valid:
  "valid_entries (Entry e # (map Entry (tl full_board) @ [Entry late_tie, Invalid]))
     = e # tl full_board @ [late_tie]"
  by (simp add: valid_entries_append valid_entries_map_Entry)

theorem finishGame_leaderboard_persisted_witness:
  "finishGame_leaderboard ascii_host (ParsedArray crowded_array) ''X'' 50 70 1000
     = Inr (\<lparr>entry_name = ''x'', entry_score = Num 150, entry_accuracy = 70,
              entry_timestamp = 1000, entry_attempts = Some 2\<rparr> # tl full_board)
   \<and> evicted ascii_host
        (Entry \<lparr>entry_name = ''x'', entry_score = Num 150, entry_accuracy = 70,
                 entry_timestamp = 1000, entry_attempts = Some 2\<rparr>
           # (map Entry (tl full_board) @ [Entry late_tie, Invalid])) = [late_tie]
   \<and> length (\<lparr>entry_name = ''x'', entry_score = Num 150, entry_accuracy = 70,
                entry_timestamp = 1000, entry_attempts = Some 2\<rparr> # tl full_board) = 200
   \<and> json_scores (valid_entries (loadStored (ParsedArray crowded_array)))
   \<and> find (same_player ascii_host ''X'') (valid_entries (loadStored (ParsedArray crowded_array)))
       = Some \<lparr>entry_name = ''x'', entry_score = Num 100, entry_accuracy = 100,
                entry_timestamp = 0, entry_attempts = Some 1\<rparr>
   \<and> list_all has_score
        (\<lparr>entry_name = ''x'', entry_score = Num 150, entry_accuracy = 70,
           entry_timestamp = 1000, entry_attempts = Some 2\<rparr> # tl full_board)
   \<and> sorted_wrt (\<lambda>x y. score_value y \<le> score_value x)
        (\<lparr>entry_name = ''x'', entry_score = Num 150, entry_accuracy = 70,
           entry_timestamp = 1000, entry_attempts = Some 2\<rparr> # tl full_board)
   \<and> map fst (rankEntries ascii_host
        (\<lparr>entry_name = ''x'', entry_score = Num 150, entry_accuracy = 70,
           entry_timestamp = 1000, entry_attempts = Some 2\<rparr> # tl full_board)) = [1..<201]
   \<and> sorted_wrt ranks_before (map snd (rankEntries ascii_host
        (\<lparr>entry_name = ''x'', entry_score = Num 150, entry_accuracy = 70,
           entry_timestamp = 1000, entry_attempts = Some 2\<rparr> # tl full_board)))"
proof -
  let ?x = "\<lparr>entry_name = ''x'', entry_score = Num 150, entry_accuracy = 70,
              entry_timestamp = 1000, entry_attempts = Some 2\<rparr>"
  let ?f0 = "\<lparr>entry_name = ''x'', entry_score = Num 100, entry_accuracy = 100,
               entry_timestamp = 0, entry_attempts = Some 1\<rparr>"
  let ?lb = "Entry ?x # (map Entry (tl full_board) @ [Entry late_tie, Invalid])"
  have kb: "keepBest ascii_host ?lb = ?x # tl full_board"
    by (simp only: keepBest_def crowded_array_valid crowded_array_sorted)
       (simp add: full_board_facts(1))
  have ev: "evicted ascii_host ?lb = [late_tie]"
    by (simp only: evicted_def crowded_array_valid crowded_array_sorted)
       (simp add: full_board_facts(1))
  have fin: "finishGame_leaderboard ascii_host (ParsedArray crowded_array) ''X'' 50 70 1000
             = Inr (?x # tl full_board)"
    by (simp add: finishGame_leaderboard_def loadStored_def crowded_array_accumulate kb)
  have len: "length (?x # tl full_board) = 200" by (simp add: full_board_facts(1))
  have ve: "valid_entries (loadStored (ParsedArray crowded_array)) = ?f0 # tl full_board @ [late_tie]"
    by (simp add: loadStored_def crowded_array_eq valid_entries_append valid_entries_map_Entry)
  have json: "json_scores (valid_entries (loadStored (ParsedArray crowded_array)))"
    using tl_full_board_facts(3) by (simp add: ve json_scores_def late_tie_def)
  have fnd: "find (same_player ascii_host ''X'')
               (valid_entries (loadStored (ParsedArray crowded_array))) = Some ?f0"
    by (simp add: ve same_player_def ascii_lower_def)
  then have scored: "\<forall>e. find (same_player ascii_host ''X'')
               (valid_entries (loadStored (ParsedArray crowded_array))) = Some e
             \<longrightarrow> entry_score e \<noteq> Missing"
    by auto
  have hs: "\<forall>e\<in>set (?x # tl full_board). has_score e"
    using tl_full_board_facts(4) by (simp add: has_score_def)
  from finishGame_leaderboard_persisted[OF fin] json scored hs
  have "sorted_wrt (\<lambda>x y. score_value y \<le> score_value x) (?x # tl full_board)
        \<and> (\<forall>keep. map fst (rankEntries ascii_host (filter keep (?x # tl full_board)))
              = [1..<Suc (length (filter keep (?x # tl full_board)))]
            \<and> sorted_wrt ranks_before
                (map snd (rankEntries ascii_host (filter keep (?x # tl full_board)))))"
    by blast
  then have "sorted_wrt (\<lambda>x y. score_value y \<le> score_value x) (?x # tl full_board)
        \<and> map fst (rankEntries ascii_host (filter (\<lambda>e. True) (?x # tl full_board)))
            = [1..<Suc (length (filter (\<lambda>e. True) (?x # tl full_board)))]
        \<and> sorted_wrt ranks_before
            (map snd (rankEntries ascii_host (filter (\<lambda>e. True) (?x # tl full_board))))"
    by blast
  moreover have "filter (\<lambda>e. True) (?x # tl full_board) = ?x # tl full_board"
    by simp
  ultimately have "sorted_wrt (\<lambda>x y. score_value y \<le> score_value x) (?x # tl full_board)
        \<and> map fst (rankEntries ascii_host (?x # tl full_board))
            = [1..<Suc (length (?x # tl full_board))]
        \<and> sorted_wrt ranks_before (map snd (rankEntries ascii_host (?x # tl full_board)))"
    by (simp only:)
  then have "sorted_wrt (\<lambda>x y. score_value y \<le> score_value x) (?x # tl full_board)
        \<and> map fst (rankEntries ascii_host (?x # tl full_board)) = [1..<201]
        \<and> sorted_wrt ranks_before (map snd (rankEntries ascii_host (?x # tl full_board)))"
    by (simp only: len) simp
  moreover from hs have "list_all has_score (?x # tl full_board)"
    by (simp only: list_all_iff)
  ultimately show ?thesis using fin ev len json fnd by blast
qed

text \<open>
  C7 as stated fails on the tie-break: the merge sorts by score alone. Bob ties with Ana
  and is the more recent, yet is persisted behind her; the leaderboard page ranks him
  first.
\<close>

theorem finishGame_leaderboard_tie_not_by_recency:
  "finishGame_leaderboard ascii_host
     (ParsedArray [Entry \<lparr>entry_name = ''Ana'', entry_score = Num 5, entry_accuracy = 50,
                          entry_timestamp = 100, entry_attempts = Some 1\<rparr>])
     ''Bob'' 5 70 200
   = Inr [\<lparr>entry_name = ''Ana'', entry_score = Num 5, entry_accuracy = 50,
            entry_timestamp = 100, entry_attempts = Some 1\<rparr>,
          \<lparr>entry_name = ''Bob'', entry_score = Num 5, entry_accuracy = 70,
            entry_timestamp = 200, entry_attempts = Some 1\<rparr>]
   \<and> \<not> sorted_wrt ranks_before
         [\<lparr>entry_name = ''Ana'', entry_score = Num 5, entry_accuracy = 50,
            entry_timestamp = 100, entry_attempts = Some 1\<rparr>,
          \<lparr>entry_name = ''Bob'', entry_score = Num 5, entry_accuracy = 70,
            entry_timestamp = 200, entry_attempts = Some 1\<rparr>]
   \<and> rankEntries ascii_host
         [\<lparr>entry_name = ''Ana'', entry_score = Num 5, entry_accuracy = 50,
            entry_timestamp = 100, entry_attempts = Some 1\<rparr>,
          \<lparr>entry_name = ''Bob'', entry_score = Num 5, entry_accuracy = 70,
            entry_timestamp = 200, entry_attempts = Some 1\<rparr>]
       = [(1, \<lparr>entry_name = ''Bob'', entry_score = Num 5, entry_accuracy = 70,
                 entry_timestamp = 200, entry_attempts = Some 1\<rparr>),
          (2, \<lparr>entry_name = ''Ana'', entry_score = Num 5, entry_accuracy = 50,
                 entry_timestamp = 100, entry_attempts = Some 1\<rparr>)]"
proof -
  let ?ana = "\<lparr>entry_name = ''Ana'', entry_score = Num 5, entry_accuracy = 50,
                entry_timestamp = 100, entry_attempts = Some 1\<rparr>"
  let ?bob = "\<lparr>entry_name = ''Bob'', entry_score = Num 5, entry_accuracy = 70,
                entry_timestamp = 200, entry_attempts = Some 1\<rparr>"
  have json: "json_scores [?ana, ?bob]" by (simp add: json_scores_def)
  have "js_sort ascii_host byScore [?ana, ?bob] = [?ana, ?bob]"
    by (simp add: js_sort_byScore[OF json] score_value_def)
  then have 1: "finishGame_leaderboard ascii_host (ParsedArray [Entry ?ana]) ''Bob'' 5 70 200
                = Inr [?ana, ?bob]"
    by (simp add: finishGame_leaderboard_def loadStored_def accumulate_def keepBest_def
        ascii_lower_def)
  have 2: "\<not> sorted_wrt ranks_before [?ana, ?bob]"
    by (simp add: ranks_before_def score_value_def)
  have hs: "\<forall>e\<in>set [?ana, ?bob]. has_score e" by (simp add: has_score_def)
  have "consistent byScoreThenRecent [?ana, ?bob]"
    by (rule consistent_byScoreThenRecent[OF hs])
  then have "js_sort ascii_host byScoreThenRecent [?ana, ?bob] = [?bob, ?ana]"
    by (simp add: js_sort_def sort_cmp_def cmp0_def byScoreThenRecent_def)
  then have 3: "rankEntries ascii_host [?ana, ?bob] = [(1, ?bob), (2, ?ana)]"
    by (simp add: rankEntries_def)
  from 1 2 3 show ?thesis by blast
qed

section \<open>Leaderboard: an unusable stored item (C9)\<close>

text \<open>
  C9: when the stored item is absent, does not parse, or parses to something that is not
  an array, the merge throws nothing, treats the collection as empty and writes the
  session's entry alone.
\<close>

theorem finishGame_leaderboard_unusable_item:
  "item \<in> {NoItem, Unparsable, ParsedOther} \<Longrightarrow>
     loadStored item = []
     \<and> finishGame_leaderboard h item nm s a t
         = Inr [\<lparr>entry_name = nm, entry_score = Num s, entry_accuracy = a,
                  entry_timestamp = t, entry_attempts = Some 1\<rparr>]"
proof -
  assume "item \<in> {NoItem, Unparsable, ParsedOther}"
  then have l: "loadStored item = []" by (auto simp: loadStored_def)
  let ?new = "\<lparr>entry_name = nm, entry_score = Num s, entry_accuracy = a,
                entry_timestamp = t, entry_attempts = Some 1\<rparr>"
  have "js_sort h byScore [?new] = [?new]"
    by (rule js_sort_single) (rule cmp0_byScore_refl)
  with l show ?thesis
    by (simp add: finishGame_leaderboard_def accumulate_def keepBest_def)
qed

theorem finishGame_leaderboard_unusable_item_witness:
  "Unparsable \<in> {NoItem, Unparsable, ParsedOther}
   \<and> loadStored Unparsable = []
   \<and> finishGame_leaderboard ascii_host Unparsable ''Ana'' 15 90 2000
       = Inr [\<lparr>entry_name = ''Ana'', entry_score = Num 15, entry_accuracy = 90,
                entry_timestamp = 2000, entry_attempts = Some 1\<rparr>]
   \<and> finishGame_leaderboard ascii_host NoItem ''Ana'' 15 90 2000
       = Inr [\<lparr>entry_name = ''Ana'', entry_score = Num 15, entry_accuracy = 90,
                entry_timestamp = 2000, entry_attempts = Some 1\<rparr>]
   \<and> finishGame_leaderboard ascii_host ParsedOther ''Ana'' 15 90 2000
       = Inr [\<lparr>entry_name = ''Ana'', entry_score = Num 15, entry_accuracy = 90,
                entry_timestamp = 2000, entry_attempts = Some 1\<rparr>]"
  using finishGame_leaderboard_unusable_item[of Unparsable ascii_host "''Ana''" 15 90 2000]
    finishGame_leaderboard_unusable_item[of NoItem ascii_host "''Ana''" 15 90 2000]
    finishGame_leaderboard_unusable_item[of ParsedOther ascii_host "''Ana''" 15 90 2000]
  by simp

section \<open>Leaderboard: one entry per player (C8)\<close>

lemma merge_step_keeps_one_entry_per_name:
  assumes "engine_permutes h" and "item_one_entry_per_name h item"
  shows "item_one_entry_per_name h
           (case finishGame_leaderboard h item nm s a t of
              Inl err \<Rightarrow> item
            | Inr leaderboard \<Rightarrow> persisted leaderboard)"
proof (cases "finishGame_leaderboard h item nm s a t")
  case (Inl err)
  with assms show ?thesis by simp
next
  case (Inr lb')
  from assms(2) have "one_entry_per_name h (valid_entries (loadStored item))"
    by (simp add: item_one_entry_per_name_def)
  from finishGame_leaderboard_keeps_one_entry_per_name[OF assms(1) this Inr]
  have "one_entry_per_name h lb'" .
  moreover have "map entry_name (map stringified lb') = map entry_name lb'" by simp
  ultimately have "one_entry_per_name h (map stringified lb')"
    using one_entry_per_name_names by blast
  moreover have "valid_entries (loadStored (persisted lb')) = map stringified lb'"
    by (simp only: loadStored_persisted valid_entries_map_Entry)
  ultimately show ?thesis
    by (simp add: Inr item_one_entry_per_name_def)
qed

text \<open>
  C8: the merge keeps the invariant. Starting from a stored item with at most one entry
  per case-insensitive name (an absent item is one), every collection the merge
  persists, game after game, has at most one entry per case-insensitive name; the
  engine's sort is taken to rearrange the array, as the language promises.
\<close>

theorem merge_sessions_one_entry_per_name:
  "engine_permutes h \<Longrightarrow> item_one_entry_per_name h item \<Longrightarrow>
     item_one_entry_per_name h (merge_sessions h item sessions)"
proof (induction sessions arbitrary: item)
  case Nil
  then show ?case by simp
next
  case (Cons session rest)
  obtain nm s a t where session: "session = (nm, s, a, t)"
    by (cases session) auto
  show ?case
    unfolding session merge_sessions.simps
    by (rule Cons.IH[OF Cons.prems(1)])
       (rule merge_step_keeps_one_entry_per_name[OF Cons.prems])
qed

theorem merge_sessions_one_entry_per_name_witness:
  "engine_permutes ascii_host
   \<and> item_one_entry_per_name ascii_host NoItem
   \<and> item_one_entry_per_name ascii_host
        (merge_sessions ascii_host NoItem
           [(''Ana'', 10, 80, 1000), (''Bob'', 20, 85, 1500), (''ana'', 15, 90, 2000)])
   \<and> merge_sessions ascii_host NoItem
        [(''Ana'', 10, 80, 1000), (''Bob'', 20, 85, 1500), (''ana'', 15, 90, 2000)]
       = ParsedArray
           [Entry \<lparr>entry_name = ''Ana'', entry_score = Num 25, entry_accuracy = 90,
                    entry_timestamp = 2000, entry_attempts = Some 2\<rparr>,
            Entry \<lparr>entry_name = ''Bob'', entry_score = Num 20, entry_accuracy = 85,
                    entry_timestamp = 1500, entry_attempts = Some 1\<rparr>]"
proof -
  have h: "item_one_entry_per_name ascii_host NoItem"
    by (simp add: item_one_entry_per_name_def loadStored_def one_entry_per_name_def)
  let ?a1 = "\<lparr>entry_name = ''Ana'', entry_score = Num 10, entry_accuracy = 80,
               entry_timestamp = 1000, entry_attempts = Some 1\<rparr>"
  let ?a2 = "\<lparr>entry_name = ''Ana'', entry_score = Num 25, entry_accuracy = 90,
               entry_timestamp = 2000, entry_attempts = Some 2\<rparr>"
  let ?b = "\<lparr>entry_name = ''Bob'', entry_score = Num 20, entry_accuracy = 85,
              entry_timestamp = 1500, entry_attempts = Some 1\<rparr>"
  have s1: "js_sort ascii_host byScore [?a1] = [?a1]"
    by (rule js_sort_single) (rule cmp0_byScore_refl)
  have "json_scores [?a1, ?b]" by (simp add: json_scores_def)
  then have s2: "js_sort ascii_host byScore [?a1, ?b] = [?b, ?a1]"
    by (simp add: js_sort_byScore score_value_def)
  have "json_scores [?b, ?a2]" by (simp add: json_scores_def)
  then have s3: "js_sort ascii_host byScore [?b, ?a2] = [?a2, ?b]"
    by (simp add: js_sort_byScore score_value_def)
  have "merge_sessions ascii_host NoItem
          [(''Ana'', 10, 80, 1000), (''Bob'', 20, 85, 1500), (''ana'', 15, 90, 2000)]
       = ParsedArray [Entry ?a2, Entry ?b]"
    by (simp add: finishGame_leaderboard_def loadStored_def accumulate_def keepBest_def
        persisted_def stringified_def ascii_lower_def accumulate_entry_def s1 s2 s3)
  with h merge_sessions_one_entry_per_name[OF engine_permutes_ascii_host h,
      of "[(''Ana'', 10, 80, 1000), (''Bob'', 20, 85, 1500), (''ana'', 15, 90, 2000)]"]
  show ?thesis by (simp add: engine_permutes_ascii_host)
qed

section \<open>Round state machine: auxiliary facts\<close>

lemma js_get_js_set:
  "js_get (js_set xs i v) j = (if j = i then Some v else js_get xs j)"
  by (auto simp: js_get_def js_set_def nth_append nth_Cons')

lemma detect_resolved: "poseResolvedRef s \<Longrightarrow> detect now poses s = s"
  by (simp add: detect_def split: list.splits)

lemma detect_finished: "gameStateRef s = Finished \<Longrightarrow> detect now poses s = s"
  by (simp add: detect_def)

lemma detect_no_pose: "detect now [] s = s"
  by (simp add: detect_def)

lemma poseTimerTick_idle:
  "\<forall>d. poseDeadlineMsRef s = Some d \<longrightarrow> now < d \<Longrightarrow> poseTimerTick h now isoNow s = s"
proof (cases "poseDeadlineMsRef s")
  case None
  then show ?thesis by (simp add: poseTimerTick_def)
next
  case (Some d)
  assume "\<forall>d. poseDeadlineMsRef s = Some d \<longrightarrow> now < d"
  with Some have "now < d" by simp
  with Some show ?thesis by (simp add: poseTimerTick_def Let_def)
qed

lemma poseTimerTick_no_interval:
  "\<not> poseTimerIntervalRef s \<Longrightarrow> poseTimerTick h now isoNow s = s"
  by (simp add: poseTimerTick_def)

text \<open>A sample below the threshold (or with a NaN accuracy) in an unresolved round.\<close>

lemma detect_low:
  assumes "gameStateRef s \<noteq> Finished" and "\<not> poseResolvedRef s"
      and "\<forall>a. currentAccuracy s pose = Some a \<longrightarrow> a < 80"
  shows "holdStartMsRef (detect now (pose # rest) s) = None"
    and "poseResolvedRef (detect now (pose # rest) s) = False"
    and "scoreRef (detect now (pose # rest) s) = scoreRef s"
    and "poseResults (detect now (pose # rest) s) = poseResults s"
    and "gameStateRef (detect now (pose # rest) s) = gameStateRef s"
    and "currentChallengeRef (detect now (pose # rest) s) = currentChallengeRef s"
    and "activeChallengesRef (detect now (pose # rest) s) = activeChallengesRef s"
    and "poseDeadlineMsRef (detect now (pose # rest) s) = poseDeadlineMsRef s"
    and "poseTimerIntervalRef (detect now (pose # rest) s) = poseTimerIntervalRef s"
    and "bestAccuracy (detect now (pose # rest) s) (currentChallengeRef s)
           = (case currentAccuracy s pose of
                None \<Rightarrow> bestAccuracy s (currentChallengeRef s)
              | Some a \<Rightarrow> max (bestAccuracy s (currentChallengeRef s)) a)"
  using assms
  by (auto simp: detect_def currentAccuracy_def Let_def bestAccuracy_def js_get_js_set
           split: option.splits)

text \<open>A sample at or above the threshold in an unresolved round, before the hold is
  complete: the hold starts or goes on.\<close>

lemma detect_holding:
  assumes "gameStateRef s \<noteq> Finished" and "\<not> poseResolvedRef s"
      and "currentAccuracy s pose = Some a" and "80 \<le> a"
      and "(now - (case holdStartMsRef s of None \<Rightarrow> now | Some h \<Rightarrow> h)) / 1000 < POSE_HOLD_SECONDS"
  shows "holdStartMsRef (detect now (pose # rest) s)
           = Some (case holdStartMsRef s of None \<Rightarrow> now | Some h \<Rightarrow> h)"
    and "poseResolvedRef (detect now (pose # rest) s) = False"
    and "scoreRef (detect now (pose # rest) s) = scoreRef s"
    and "poseResults (detect now (pose # rest) s) = poseResults s"
    and "gameStateRef (detect now (pose # rest) s) = gameStateRef s"
    and "currentChallengeRef (detect now (pose # rest) s) = currentChallengeRef s"
    and "activeChallengesRef (detect now (pose # rest) s) = activeChallengesRef s"
    and "poseDeadlineMsRef (detect now (pose # rest) s) = poseDeadlineMsRef s"
    and "bestAccuracy (detect now (pose # rest) s) (currentChallengeRef s)
           = max (bestAccuracy s (currentChallengeRef s)) a"
    and "poseTimerIntervalRef (detect now (pose # rest) s) = poseTimerIntervalRef s"
  using assms
  by (auto simp: detect_def currentAccuracy_def Let_def bestAccuracy_def js_get_js_set
           split: option.splits)

text \<open>A sample at or above the threshold that completes the hold: the round is passed.\<close>

lemma detect_pass:
  assumes "gameStateRef s \<noteq> Finished" and "\<not> poseResolvedRef s"
      and "currentAccuracy s pose = Some a" and "80 \<le> a"
      and "(now - (case holdStartMsRef s of None \<Rightarrow> now | Some h \<Rightarrow> h)) / 1000 \<ge> POSE_HOLD_SECONDS"
  shows "poseResolvedRef (detect now (pose # rest) s)"
    and "poseTimerIntervalRef (detect now (pose # rest) s) = False"
    and "poseDeadlineMsRef (detect now (pose # rest) s) = None"
    and "holdStartMsRef (detect now (pose # rest) s) = None"
    and "outcome (detect now (pose # rest) s) (currentChallengeRef s) = Some Passed"
    and "currentChallengeRef (detect now (pose # rest) s) = currentChallengeRef s"
    and "bestAccuracy (detect now (pose # rest) s) (currentChallengeRef s)
           = max (bestAccuracy s (currentChallengeRef s)) a"
    and "scoreRef (detect now (pose # rest) s)
           = scoreRef s + max (bestAccuracy s (currentChallengeRef s)) a div 10"
  using assms
  by (auto simp: detect_def currentAccuracy_def Let_def bestAccuracy_def js_get_js_set
           outcome_def clearPoseTimer_def split: option.splits)

lemma run_Nil [simp]: "run h isoNow [] s = s"
  by (simp add: run_def)

lemma run_Cons [simp]: "run h isoNow (e # evs) s = run h isoNow evs (step h isoNow e s)"
  by (simp add: run_def)

lemma run_append: "run h isoNow (xs @ ys) s = run h isoNow ys (run h isoNow xs s)"
  by (simp add: run_def)

text \<open>Once a round is resolved and its timer cleared, samples and ticks change nothing.\<close>

lemma run_resolved:
  "poseResolvedRef s \<Longrightarrow> \<not> poseTimerIntervalRef s \<Longrightarrow> run h isoNow evs s = s"
proof (induction evs)
  case Nil
  then show ?case by simp
next
  case (Cons e evs)
  then have "step h isoNow e s = s"
    by (cases e) (simp_all add: detect_resolved poseTimerTick_no_interval)
  with Cons show ?case by simp
qed

lemma currentAccuracy_cong:
  "currentChallengeRef s' = currentChallengeRef s \<Longrightarrow>
   activeChallengesRef s' = activeChallengesRef s \<Longrightarrow>
   currentAccuracy s' p = currentAccuracy s p"
  by (simp add: currentAccuracy_def)

lemma observed_cong:
  assumes "currentChallengeRef s' = currentChallengeRef s"
      and "activeChallengesRef s' = activeChallengesRef s"
  shows "observed s' evs = observed s evs"
proof -
  have acc: "currentAccuracy s' p = currentAccuracy s p" for p
    using assms by (rule currentAccuracy_cong)
  show ?thesis
  proof (induction evs)
    case Nil
    then show ?case by simp
  next
    case (Cons e evs)
    show ?case
    proof (cases e)
      case (Tick t)
      with Cons show ?thesis by simp
    next
      case (Sample t ps)
      with Cons show ?thesis by (cases ps) (simp_all add: acc split: option.splits)
    qed
  qed
qed

lemma fold_max_Max: "fold max xs (b::int) = Max (set (b # xs))"
  by (simp only: Max.set_eq_fold)

section \<open>The example game evaluated\<close>

lemma ana_playing_eq:
  "ana_playing =
     \<lparr>participantName = ''Ana'', gameStateRef = Playing, currentChallengeRef = 0,
      activeChallengesRef = [Hands_Up, T_Pose, Warrior], scoreRef = 0,
      poseResults = [Some Pending, Some Pending, Some Pending],
      poseTimerIntervalRef = True, poseDeadlineMsRef = Some 20000, poseResolvedRef = False,
      holdStartMsRef = None, poseBestAccuracyRef = [Some 0, Some 0, Some 0],
      leaderboardItem = NoItem\<rparr>"
  by (simp add: ana_playing_def startPlaying_def startGame_def mounted_def startPoseTimer_def
      clearPoseTimer_def Let_def js_set_def POSE_TIME_LIMIT_MS_def POSE_TIME_LIMIT_SECONDS_def
      numeral_3_eq_3)

lemma validate_wrists_at_95: "validate Hands_Up (wrists_at (515 / 4)) = Some 95"
  by (simp add: validate_Hands_Up_def wrists_at_def getKp_def getKp_min_def MIN_KP_SCORE_def
      shoulderScale_def avgY_def score01To100_def clamp_def js_round_def Let_def)

lemma validate_wrists_at_60: "validate Hands_Up (wrists_at 155) = Some 60"
  by (simp add: validate_Hands_Up_def wrists_at_def getKp_def getKp_min_def MIN_KP_SCORE_def
      shoulderScale_def avgY_def score01To100_def clamp_def js_round_def Let_def)

lemma validate_wrists_at_0: "validate Hands_Up (wrists_at 200) = Some 0"
  by (simp add: validate_Hands_Up_def wrists_at_def getKp_def getKp_min_def MIN_KP_SCORE_def
      shoulderScale_def avgY_def score01To100_def clamp_def js_round_def Let_def)

lemma validate_wrists_at_80: "validate Hands_Up (wrists_at 140) = Some 80"
  by (simp add: validate_Hands_Up_def wrists_at_def getKp_def getKp_min_def MIN_KP_SCORE_def
      shoulderScale_def avgY_def score01To100_def clamp_def js_round_def Let_def)

lemma ana_playing_fields:
  "gameStateRef ana_playing = Playing" "\<not> poseResolvedRef ana_playing"
  "holdStartMsRef ana_playing = None" "currentChallengeRef ana_playing = 0"
  "poseDeadlineMsRef ana_playing = Some 20000" "poseTimerIntervalRef ana_playing"
  "scoreRef ana_playing = 0" "outcome ana_playing 0 = Some Pending"
  "bestAccuracy ana_playing 0 = 0"
  by (simp_all add: ana_playing_eq outcome_def bestAccuracy_def js_get_def)

lemma ana_playing_accuracy:
  "currentAccuracy ana_playing (wrists_at (515 / 4)) = Some 95"
  "currentAccuracy ana_playing (wrists_at 155) = Some 60"
  "currentAccuracy ana_playing (wrists_at 200) = Some 0"
  "currentAccuracy ana_playing (wrists_at 140) = Some 80"
  using validate_wrists_at_95 validate_wrists_at_60 validate_wrists_at_0 validate_wrists_at_80
  by (simp_all add: currentAccuracy_def ana_playing_eq)

section \<open>A hold of two seconds passes the round (C1)\<close>

lemma hold_runs_to_pass:
  assumes "gameStateRef s \<noteq> Finished" and "\<not> poseResolvedRef s"
      and "holdStartMsRef s = Some t0"
      and "\<forall>t p rest. Sample t (p # rest) \<in> set (until_held t0 evs)
             \<longrightarrow> (\<exists>a. currentAccuracy s p = Some a \<and> 80 \<le> a)"
      and "\<forall>t. Tick t \<in> set (until_held t0 evs)
             \<longrightarrow> (\<forall>d. poseDeadlineMsRef s = Some d \<longrightarrow> t < d)"
      and "\<exists>t p rest. Sample t (p # rest) \<in> set evs \<and> (t - t0) / 1000 \<ge> POSE_HOLD_SECONDS"
  shows "poseResolvedRef (run h isoNow evs s)
       \<and> outcome (run h isoNow evs s) (currentChallengeRef s) = Some Passed
       \<and> bestAccuracy (run h isoNow evs s) (currentChallengeRef s)
           = fold max (observed s (until_held t0 evs)) (bestAccuracy s (currentChallengeRef s))
       \<and> scoreRef (run h isoNow evs s)
           = scoreRef s
             + fold max (observed s (until_held t0 evs)) (bestAccuracy s (currentChallengeRef s))
               div 10"
  using assms
proof (induction evs arbitrary: s)
  case Nil
  then show ?case by simp
next
  case (Cons e evs)
  show ?case
  proof (cases e)
    case (Tick t)
    with Cons.prems(5) have idle: "poseTimerTick h t isoNow s = s"
      by (intro poseTimerTick_idle) simp
    from Tick Cons.prems(6)
    have ex: "\<exists>t p rest. Sample t (p # rest) \<in> set evs \<and> (t - t0) / 1000 \<ge> POSE_HOLD_SECONDS"
      by auto
    from Cons.IH[OF Cons.prems(1,2,3) _ _ ex] Cons.prems(4,5)
    show ?thesis by (simp add: Tick idle)
  next
    case (Sample t ps)
    show ?thesis
    proof (cases ps)
      case Nil
      with Sample Cons.prems(6)
      have ex: "\<exists>t p rest. Sample t (p # rest) \<in> set evs \<and> (t - t0) / 1000 \<ge> POSE_HOLD_SECONDS"
        by auto
      from Cons.IH[OF Cons.prems(1,2,3) _ _ ex] Cons.prems(4,5)
      show ?thesis by (simp add: Sample Nil detect_no_pose)
    next
      case (Cons p rest)
      with Sample have "Sample t (p # rest) \<in> set (until_held t0 (e # evs))" by simp
      with Cons.prems(4) obtain a where a: "currentAccuracy s p = Some a" "80 \<le> a"
        by blast
      let ?s' = "detect t (p # rest) s"
      have hs: "(case holdStartMsRef s of None \<Rightarrow> t | Some h \<Rightarrow> h) = t0"
        using Cons.prems(3) by simp
      show ?thesis
      proof (cases "(t - t0) / 1000 \<ge> POSE_HOLD_SECONDS")
        case True
        then have c: "(t - (case holdStartMsRef s of None \<Rightarrow> t | Some h \<Rightarrow> h)) / 1000
                        \<ge> POSE_HOLD_SECONDS"
          by (simp only: hs)
        note p = detect_pass[OF Cons.prems(1,2) a c, of rest]
        from p(1,2) have "run h isoNow evs ?s' = ?s'" by (simp add: run_resolved)
        with p a True show ?thesis by (simp add: Sample Cons max.commute)
      next
        case False
        then have c: "(t - (case holdStartMsRef s of None \<Rightarrow> t | Some h \<Rightarrow> h)) / 1000
                        < POSE_HOLD_SECONDS"
          unfolding hs by simp
        note k = detect_holding[OF Cons.prems(1,2) a c, of rest]
        have acc: "currentAccuracy ?s' q = currentAccuracy s q" for q
          using k(6,7) by (rule currentAccuracy_cong)
        have obs: "observed ?s' xs = observed s xs" for xs
          using k(6,7) by (rule observed_cong)
        from False Sample Cons.prems(6)
        have ex: "\<exists>t p rest. Sample t (p # rest) \<in> set evs \<and> (t - t0) / 1000 \<ge> POSE_HOLD_SECONDS"
          by auto
        have 1: "gameStateRef ?s' \<noteq> Finished" using k(5) Cons.prems(1) by simp
        have 2: "\<not> poseResolvedRef ?s'" using k(2) by simp
        have 3: "holdStartMsRef ?s' = Some t0" using k(1) hs by simp
        have 4: "\<forall>t p rest. Sample t (p # rest) \<in> set (until_held t0 evs)
                   \<longrightarrow> (\<exists>a. currentAccuracy ?s' p = Some a \<and> 80 \<le> a)"
          using Cons.prems(4) False by (simp add: acc Sample Cons) blast
        have 5: "\<forall>t. Tick t \<in> set (until_held t0 evs)
                   \<longrightarrow> (\<forall>d. poseDeadlineMsRef ?s' = Some d \<longrightarrow> t < d)"
          using Cons.prems(5) False by (simp add: k(8) Sample Cons)
        from Cons.IH[OF 1 2 3 4 5 ex] a False show ?thesis
          by (simp add: Sample Cons k(3,6,9) obs max.commute)
      qed
    qed
  qed
qed

text \<open>
  C1: in a round that is playing, unresolved and not yet holding, take a stream of events
  that starts with a sample with a pose at \<open>t0\<close> and has a sample with a pose at least
  \<open>POSE_HOLD_SECONDS\<close> (2 s) after \<open>t0\<close>, and in which, up to the first such sample, every
  sample with a pose scores at least 80 and every timer tick comes before the deadline.
  The stream resolves the round as passed and adds \<open>floor(best / 10)\<close> to the score,
  \<open>best\<close> being the best accuracy of the round: the greatest of what the round had
  reached before and of the accuracies of the samples up to the one that completes the
  hold.
\<close>

theorem hold_two_seconds_passes:
  assumes "gameStateRef s = Playing" and "\<not> poseResolvedRef s"
      and "holdStartMsRef s = None"
      and "\<forall>t p rest. Sample t (p # rest) \<in> set (Sample t0 (p0 # rest0) # until_held t0 evs)
             \<longrightarrow> (\<exists>a. currentAccuracy s p = Some a \<and> 80 \<le> a)"
      and "\<forall>t. Tick t \<in> set (until_held t0 evs)
             \<longrightarrow> (\<forall>d. poseDeadlineMsRef s = Some d \<longrightarrow> t < d)"
      and "Sample t1 (p1 # rest1) \<in> set evs" and "(t1 - t0) / 1000 \<ge> POSE_HOLD_SECONDS"
  shows "poseResolvedRef (run h isoNow (Sample t0 (p0 # rest0) # evs) s)
       \<and> outcome (run h isoNow (Sample t0 (p0 # rest0) # evs) s) (currentChallengeRef s)
           = Some Passed
       \<and> bestAccuracy (run h isoNow (Sample t0 (p0 # rest0) # evs) s) (currentChallengeRef s)
           = Max (set (bestAccuracy s (currentChallengeRef s)
                        # observed s (Sample t0 (p0 # rest0) # until_held t0 evs)))
       \<and> 80 \<le> Max (set (bestAccuracy s (currentChallengeRef s)
                        # observed s (Sample t0 (p0 # rest0) # until_held t0 evs)))
       \<and> scoreRef (run h isoNow (Sample t0 (p0 # rest0) # evs) s)
           = scoreRef s
             + Max (set (bestAccuracy s (currentChallengeRef s)
                          # observed s (Sample t0 (p0 # rest0) # until_held t0 evs))) div 10"
proof -
  have "Sample t0 (p0 # rest0) \<in> set (Sample t0 (p0 # rest0) # until_held t0 evs)" by simp
  with assms(4) obtain a where a: "currentAccuracy s p0 = Some a" "80 \<le> a"
    by blast
  let ?s' = "detect t0 (p0 # rest0) s"
  let ?b = "bestAccuracy s (currentChallengeRef s)"
  have nf: "gameStateRef s \<noteq> Finished" using assms(1) by simp
  have c: "(t0 - (case holdStartMsRef s of None \<Rightarrow> t0 | Some h \<Rightarrow> h)) / 1000
             < POSE_HOLD_SECONDS"
    using assms(3) by (simp add: POSE_HOLD_SECONDS_def)
  note k = detect_holding[OF nf assms(2) a c, of rest0]
  have acc: "currentAccuracy ?s' q = currentAccuracy s q" for q
    using k(6,7) by (rule currentAccuracy_cong)
  have obs: "observed ?s' xs = observed s xs" for xs
    using k(6,7) by (rule observed_cong)
  have 1: "gameStateRef ?s' \<noteq> Finished" using k(5) nf by simp
  have 2: "\<not> poseResolvedRef ?s'" using k(2) by simp
  have 3: "holdStartMsRef ?s' = Some t0" using k(1) assms(3) by simp
  have 4: "\<forall>t p rest. Sample t (p # rest) \<in> set (until_held t0 evs)
             \<longrightarrow> (\<exists>a. currentAccuracy ?s' p = Some a \<and> 80 \<le> a)"
    using assms(4) by (simp add: acc)
  have 5: "\<forall>t. Tick t \<in> set (until_held t0 evs)
             \<longrightarrow> (\<forall>d. poseDeadlineMsRef ?s' = Some d \<longrightarrow> t < d)"
    using assms(5) by (simp add: k(8))
  have ex: "\<exists>t p rest. Sample t (p # rest) \<in> set evs \<and> (t - t0) / 1000 \<ge> POSE_HOLD_SECONDS"
    using assms(6,7) by blast
  let ?obs = "observed s (Sample t0 (p0 # rest0) # until_held t0 evs)"
  have o: "?obs = a # observed s (until_held t0 evs)" using a(1) by simp
  have "Max (set (?b # ?obs)) = fold max ?obs ?b" by (rule fold_max_Max[symmetric])
  also have "\<dots> = fold max (observed s (until_held t0 evs)) (max ?b a)"
    unfolding o by (simp add: max.commute)
  finally have f: "fold max (observed s (until_held t0 evs)) (max ?b a) = Max (set (?b # ?obs))"
    by simp
  have "a \<in> set (?b # ?obs)" unfolding o by simp
  then have "a \<le> Max (set (?b # ?obs))" by (intro Max_ge) simp_all
  with a(2) have ge: "80 \<le> Max (set (?b # ?obs))" by simp
  from hold_runs_to_pass[OF 1 2 3 4 5 ex, of h isoNow] ge show ?thesis
    by (simp only: run_Cons step.simps k(3,6,9) obs f)
qed

text \<open>The scenario of the specification: accuracy 95 held for 2.5 s, well before the
  deadline at 20 s, with timer ticks and a frame without a pose in between: passed,
  9 points. The same with accuracy 80 throughout gives 8 points.\<close>

theorem hold_two_seconds_passes_witness:
  "gameStateRef ana_playing = Playing \<and> \<not> poseResolvedRef ana_playing
   \<and> holdStartMsRef ana_playing = None
   \<and> observed ana_playing
       (Sample 1000 [wrists_at (515 / 4)]
          # until_held 1000
              [Tick 1200, Sample 2000 [wrists_at 140], Sample 2100 [], Tick 2200,
               Sample 3500 [wrists_at 140], Sample 3700 [wrists_at 140]])
       = [95, 80, 80]
   \<and> poseResolvedRef
       (run ascii_host 0
          [Sample 1000 [wrists_at (515 / 4)], Tick 1200, Sample 2000 [wrists_at 140],
           Sample 2100 [], Tick 2200, Sample 3500 [wrists_at 140],
           Sample 3700 [wrists_at 140]] ana_playing)
   \<and> outcome
       (run ascii_host 0
          [Sample 1000 [wrists_at (515 / 4)], Tick 1200, Sample 2000 [wrists_at 140],
           Sample 2100 [], Tick 2200, Sample 3500 [wrists_at 140],
           Sample 3700 [wrists_at 140]] ana_playing) 0 = Some Passed
   \<and> scoreRef
       (run ascii_host 0
          [Sample 1000 [wrists_at (515 / 4)], Tick 1200, Sample 2000 [wrists_at 140],
           Sample 2100 [], Tick 2200, Sample 3500 [wrists_at 140],
           Sample 3700 [wrists_at 140]] ana_playing) = 9
   \<and> scoreRef
       (run ascii_host 0
          [Sample 1000 [wrists_at 140], Sample 3000 [wrists_at 140]] ana_playing) = 8"
proof -
  let ?p = "wrists_at (515 / 4)"
  let ?q = "wrists_at 140"
  let ?evs = "[Tick 1200, Sample 2000 [?q], Sample 2100 [], Tick 2200, Sample 3500 [?q],
               Sample 3700 [?q]]"
  have u: "until_held 1000 ?evs
           = [Tick 1200, Sample 2000 [?q], Sample 2100 [], Tick 2200, Sample 3500 [?q]]"
    by (simp add: POSE_HOLD_SECONDS_def)
  have h4: "\<forall>t p rest. Sample t (p # rest) \<in> set (Sample 1000 [?p] # until_held 1000 ?evs)
             \<longrightarrow> (\<exists>a. currentAccuracy ana_playing p = Some a \<and> 80 \<le> a)"
    unfolding u using ana_playing_accuracy(1,4) by auto
  have h5: "\<forall>t. Tick t \<in> set (until_held 1000 ?evs)
             \<longrightarrow> (\<forall>d. poseDeadlineMsRef ana_playing = Some d \<longrightarrow> t < d)"
    unfolding u by (auto simp: ana_playing_fields)
  have h6: "Sample 3500 [?q] \<in> set ?evs" by simp
  have h7: "(3500 - 1000) / 1000 \<ge> POSE_HOLD_SECONDS"
    by (simp add: POSE_HOLD_SECONDS_def)
  have obs: "observed ana_playing (Sample 1000 [?p] # until_held 1000 ?evs) = [95, 80, 80]"
    by (simp add: ana_playing_accuracy POSE_HOLD_SECONDS_def)
  note r = hold_two_seconds_passes[OF ana_playing_fields(1,2,3) h4 h5 h6 h7, of ascii_host 0]
  have u2: "until_held 1000 [Sample 3000 [?q]] = [Sample 3000 [?q]]"
    by (simp add: POSE_HOLD_SECONDS_def)
  have g4: "\<forall>t p rest. Sample t (p # rest)
               \<in> set (Sample 1000 [?q] # until_held 1000 [Sample 3000 [?q]])
             \<longrightarrow> (\<exists>a. currentAccuracy ana_playing p = Some a \<and> 80 \<le> a)"
    unfolding u2 using ana_playing_accuracy(4) by auto
  have g5: "\<forall>t. Tick t \<in> set (until_held 1000 [Sample 3000 [?q]])
             \<longrightarrow> (\<forall>d. poseDeadlineMsRef ana_playing = Some d \<longrightarrow> t < d)"
    unfolding u2 by simp
  have g6: "Sample 3000 [?q] \<in> set [Sample 3000 [?q]]" by simp
  have g7: "(3000 - 1000) / 1000 \<ge> POSE_HOLD_SECONDS"
    by (simp add: POSE_HOLD_SECONDS_def)
  have obs2: "observed ana_playing (Sample 1000 [?q] # until_held 1000 [Sample 3000 [?q]])
              = [80, 80]"
    by (simp add: ana_playing_accuracy POSE_HOLD_SECONDS_def)
  note r2 = hold_two_seconds_passes[OF ana_playing_fields(1,2,3) g4 g5 g6 g7, of ascii_host 0]
  from r r2 obs show ?thesis
    unfolding obs obs2 by (simp add: ana_playing_fields)
qed

section \<open>The deadline of a round (C2)\<close>

lemma startPoseTimer_fields:
  "scoreRef (startPoseTimer now s) = scoreRef s"
  "poseResults (startPoseTimer now s) = poseResults s"
  "currentChallengeRef (startPoseTimer now s) = currentChallengeRef s"
  "activeChallengesRef (startPoseTimer now s) = activeChallengesRef s"
  "gameStateRef (startPoseTimer now s) = gameStateRef s"
  "poseResolvedRef (startPoseTimer now s) = False"
  "holdStartMsRef (startPoseTimer now s) = None"
  "poseDeadlineMsRef (startPoseTimer now s) = Some (now + POSE_TIME_LIMIT_MS)"
  "poseTimerIntervalRef (startPoseTimer now s)"
  by (simp_all add: startPoseTimer_def clearPoseTimer_def Let_def)

lemma finishGame_fields:
  "scoreRef (finishGame h isoNow s) = scoreRef s"
  "poseResults (finishGame h isoNow s) = poseResults s"
  "currentChallengeRef (finishGame h isoNow s) = currentChallengeRef s"
  "activeChallengesRef (finishGame h isoNow s) = activeChallengesRef s"
  "gameStateRef (finishGame h isoNow s) = Finished"
  "poseResolvedRef (finishGame h isoNow s) = poseResolvedRef s"
  "poseDeadlineMsRef (finishGame h isoNow s) = None"
  "poseTimerIntervalRef (finishGame h isoNow s) = False"
  "holdStartMsRef (finishGame h isoNow s) = holdStartMsRef s"
  by (simp_all add: finishGame_def clearPoseTimer_def Let_def split: sum.splits)

text \<open>The timeout branch: the round is resolved, \<open>startPoseTimer\<close> or \<open>finishGame\<close> runs on
  the refs as they are, then the queued updaters set the score, the outcome and the
  current challenge.\<close>

lemma poseTimerTick_timeout:
  assumes "poseTimerIntervalRef s" and "gameStateRef s = Playing"
      and "poseDeadlineMsRef s = Some deadline" and "deadline \<noteq> 0" and "deadline \<le> now"
      and "\<not> poseResolvedRef s"
  shows "poseTimerTick h now isoNow s =
           (let idx = currentChallengeRef s;
                earned = bestAccuracy s idx div 10;
                advance = (int idx < int (length (activeChallengesRef s)) - 1);
                s2 = (clearPoseTimer s)\<lparr>poseResolvedRef := True\<rparr>;
                s3 = (if advance then startPoseTimer now s2 else finishGame h isoNow s2);
                s5 = s3\<lparr>scoreRef := scoreRef s + (if earned > 0 then earned else 0),
                        poseResults :=
                          (if outcome s idx = Some Pending
                           then js_set (poseResults s) idx Failed
                           else poseResults s)\<rparr>
            in if advance then s5\<lparr>currentChallengeRef := idx + 1\<rparr> else s5)"
proof -
  let ?s2 = "(clearPoseTimer s)\<lparr>poseResolvedRef := True\<rparr>"
  have s2: "currentChallengeRef ?s2 = currentChallengeRef s"
    "activeChallengesRef ?s2 = activeChallengesRef s"
    "poseBestAccuracyRef ?s2 = poseBestAccuracyRef s"
    "scoreRef ?s2 = scoreRef s" "poseResults ?s2 = poseResults s"
    by (simp_all add: clearPoseTimer_def)
  have r: "poseResolvedRef (clearPoseTimer s) = False"
    using assms(6) by (simp add: clearPoseTimer_def)
  show ?thesis
  proof (cases "int (currentChallengeRef s) < int (length (activeChallengesRef s)) - 1")
    case True
    with assms r show ?thesis
      by (simp add: poseTimerTick_def Let_def s2 startPoseTimer_fields bestAccuracy_def
          outcome_def)
  next
    case False
    with assms r show ?thesis
      by (simp add: poseTimerTick_def Let_def s2 finishGame_fields bestAccuracy_def
          outcome_def)
  qed
qed

lemma poseTimerTick_timeout_fields:
  assumes "poseTimerIntervalRef s" and "gameStateRef s = Playing"
      and "poseDeadlineMsRef s = Some deadline" and "deadline \<noteq> 0" and "deadline \<le> now"
      and "\<not> poseResolvedRef s"
  shows "scoreRef (poseTimerTick h now isoNow s)
           = scoreRef s + (if bestAccuracy s (currentChallengeRef s) div 10 > 0
                           then bestAccuracy s (currentChallengeRef s) div 10 else 0)"
    and "poseResults (poseTimerTick h now isoNow s)
           = (if outcome s (currentChallengeRef s) = Some Pending
              then js_set (poseResults s) (currentChallengeRef s) Failed
              else poseResults s)"
    and "int (currentChallengeRef s) < int (length (activeChallengesRef s)) - 1 \<Longrightarrow>
           currentChallengeRef (poseTimerTick h now isoNow s) = currentChallengeRef s + 1
           \<and> \<not> poseResolvedRef (poseTimerTick h now isoNow s)
           \<and> holdStartMsRef (poseTimerTick h now isoNow s) = None
           \<and> gameStateRef (poseTimerTick h now isoNow s) = Playing
           \<and> poseDeadlineMsRef (poseTimerTick h now isoNow s) = Some (now + POSE_TIME_LIMIT_MS)"
    and "\<not> int (currentChallengeRef s) < int (length (activeChallengesRef s)) - 1 \<Longrightarrow>
           currentChallengeRef (poseTimerTick h now isoNow s) = currentChallengeRef s
           \<and> poseResolvedRef (poseTimerTick h now isoNow s)
           \<and> holdStartMsRef (poseTimerTick h now isoNow s) = holdStartMsRef s
           \<and> gameStateRef (poseTimerTick h now isoNow s) = Finished"
    and "activeChallengesRef (poseTimerTick h now isoNow s) = activeChallengesRef s"
  unfolding poseTimerTick_timeout[OF assms]
  using assms(2)
  by (simp_all add: Let_def startPoseTimer_fields finishGame_fields clearPoseTimer_def)

lemma poseTimerTick_cases:
  "poseTimerTick h now isoNow s = s
   \<or> (poseResolvedRef s \<and> poseTimerTick h now isoNow s = clearPoseTimer s)
   \<or> (\<exists>d. poseTimerIntervalRef s \<and> gameStateRef s = Playing \<and> poseDeadlineMsRef s = Some d
          \<and> d \<noteq> 0 \<and> d \<le> now \<and> \<not> poseResolvedRef s)"
  by (auto simp: poseTimerTick_def Let_def clearPoseTimer_def split: option.splits)

text \<open>Samples and early ticks that leave the round unresolved change nothing but the hold
  start and the best accuracy, which becomes the greatest accuracy seen.\<close>

lemma detect_unresolved:
  assumes "gameStateRef s \<noteq> Finished" and "\<not> poseResolvedRef s"
      and "\<not> poseResolvedRef (detect now (pose # rest) s)"
  shows "scoreRef (detect now (pose # rest) s) = scoreRef s"
    and "poseResults (detect now (pose # rest) s) = poseResults s"
    and "gameStateRef (detect now (pose # rest) s) = gameStateRef s"
    and "currentChallengeRef (detect now (pose # rest) s) = currentChallengeRef s"
    and "activeChallengesRef (detect now (pose # rest) s) = activeChallengesRef s"
    and "poseDeadlineMsRef (detect now (pose # rest) s) = poseDeadlineMsRef s"
    and "poseTimerIntervalRef (detect now (pose # rest) s) = poseTimerIntervalRef s"
    and "bestAccuracy (detect now (pose # rest) s) (currentChallengeRef s)
           = (case currentAccuracy s pose of
                None \<Rightarrow> bestAccuracy s (currentChallengeRef s)
              | Some a \<Rightarrow> max (bestAccuracy s (currentChallengeRef s)) a)"
proof -
  consider (low) "\<forall>a. currentAccuracy s pose = Some a \<longrightarrow> a < 80"
    | (high) a where "currentAccuracy s pose = Some a" "80 \<le> a"
    by (cases "currentAccuracy s pose") force+
  then have "scoreRef (detect now (pose # rest) s) = scoreRef s
    \<and> poseResults (detect now (pose # rest) s) = poseResults s
    \<and> gameStateRef (detect now (pose # rest) s) = gameStateRef s
    \<and> currentChallengeRef (detect now (pose # rest) s) = currentChallengeRef s
    \<and> activeChallengesRef (detect now (pose # rest) s) = activeChallengesRef s
    \<and> poseDeadlineMsRef (detect now (pose # rest) s) = poseDeadlineMsRef s
    \<and> poseTimerIntervalRef (detect now (pose # rest) s) = poseTimerIntervalRef s
    \<and> bestAccuracy (detect now (pose # rest) s) (currentChallengeRef s)
           = (case currentAccuracy s pose of
                None \<Rightarrow> bestAccuracy s (currentChallengeRef s)
              | Some a \<Rightarrow> max (bestAccuracy s (currentChallengeRef s)) a)"
  proof cases
    case low
    from detect_low[OF assms(1,2) low, of now rest] show ?thesis by simp
  next
    case high
    show ?thesis
    proof (cases "(now - (case holdStartMsRef s of None \<Rightarrow> now | Some h \<Rightarrow> h)) / 1000
                    \<ge> POSE_HOLD_SECONDS")
      case True
      from detect_pass(1)[OF assms(1,2) high True, of rest] assms(3) show ?thesis by simp
    next
      case False
      then have "(now - (case holdStartMsRef s of None \<Rightarrow> now | Some h \<Rightarrow> h)) / 1000
                   < POSE_HOLD_SECONDS" by simp
      from detect_holding[OF assms(1,2) high this, of rest] high(1) show ?thesis by simp
    qed
  qed
  then show "scoreRef (detect now (pose # rest) s) = scoreRef s"
    and "poseResults (detect now (pose # rest) s) = poseResults s"
    and "gameStateRef (detect now (pose # rest) s) = gameStateRef s"
    and "currentChallengeRef (detect now (pose # rest) s) = currentChallengeRef s"
    and "activeChallengesRef (detect now (pose # rest) s) = activeChallengesRef s"
    and "poseDeadlineMsRef (detect now (pose # rest) s) = poseDeadlineMsRef s"
    and "poseTimerIntervalRef (detect now (pose # rest) s) = poseTimerIntervalRef s"
    and "bestAccuracy (detect now (pose # rest) s) (currentChallengeRef s)
           = (case currentAccuracy s pose of
                None \<Rightarrow> bestAccuracy s (currentChallengeRef s)
              | Some a \<Rightarrow> max (bestAccuracy s (currentChallengeRef s)) a)"
    by blast+
qed

lemma detect_resolves_for_good:
  assumes "poseResolvedRef (detect now poses s)" and "\<not> poseResolvedRef s"
  shows "\<not> poseTimerIntervalRef (detect now poses s)"
  using assms
  by (auto simp: detect_def Let_def clearPoseTimer_def split: list.splits option.splits if_splits)

lemma run_unresolved:
  assumes "gameStateRef s \<noteq> Finished" and "\<not> poseResolvedRef s"
      and "\<forall>t. Tick t \<in> set evs \<longrightarrow> (\<forall>d. poseDeadlineMsRef s = Some d \<longrightarrow> t < d)"
      and "\<not> poseResolvedRef (run h isoNow evs s)"
  shows "scoreRef (run h isoNow evs s) = scoreRef s
       \<and> poseResults (run h isoNow evs s) = poseResults s
       \<and> gameStateRef (run h isoNow evs s) = gameStateRef s
       \<and> currentChallengeRef (run h isoNow evs s) = currentChallengeRef s
       \<and> activeChallengesRef (run h isoNow evs s) = activeChallengesRef s
       \<and> poseDeadlineMsRef (run h isoNow evs s) = poseDeadlineMsRef s
       \<and> poseTimerIntervalRef (run h isoNow evs s) = poseTimerIntervalRef s
       \<and> bestAccuracy (run h isoNow evs s) (currentChallengeRef s)
           = fold max (observed s evs) (bestAccuracy s (currentChallengeRef s))"
  using assms
proof (induction evs arbitrary: s)
  case Nil
  then show ?case by simp
next
  case (Cons e evs)
  show ?case
  proof (cases e)
    case (Tick t)
    with Cons.prems(3) have idle: "poseTimerTick h t isoNow s = s"
      by (intro poseTimerTick_idle) simp
    from Cons.IH[OF Cons.prems(1,2)] Cons.prems(3,4) show ?thesis
      by (simp add: Tick idle)
  next
    case (Sample t ps)
    show ?thesis
    proof (cases ps)
      case Nil
      from Cons.IH[OF Cons.prems(1,2)] Cons.prems(3,4) show ?thesis
        by (simp add: Sample Nil detect_no_pose)
    next
      case (Cons p rest)
      let ?s' = "detect t (p # rest) s"
      have nr: "\<not> poseResolvedRef ?s'"
      proof
        assume r: "poseResolvedRef ?s'"
        from detect_resolves_for_good[OF r Cons.prems(2)]
        have "run h isoNow evs ?s' = ?s'" using r by (simp add: run_resolved)
        with r Cons.prems(4) show False by (simp add: Sample Cons)
      qed
      note d = detect_unresolved[OF Cons.prems(1,2) nr]
      have 1: "gameStateRef ?s' \<noteq> Finished" using d(3) Cons.prems(1) by simp
      have 3: "\<forall>t. Tick t \<in> set evs \<longrightarrow> (\<forall>d. poseDeadlineMsRef ?s' = Some d \<longrightarrow> t < d)"
        using Cons.prems(3) by (simp add: d(6))
      have 4: "\<not> poseResolvedRef (run h isoNow evs ?s')"
        using Cons.prems(4) by (simp add: Sample Cons)
      have obs: "observed ?s' xs = observed s xs" for xs
        using d(4,5) by (rule observed_cong)
      from Cons.IH[OF 1 nr 3 4] show ?thesis
        by (simp add: Sample Cons d obs max.commute split: option.splits)
    qed
  qed
qed

lemma run_stays_resolved:
  assumes "poseResolvedRef s"
      and "\<forall>t. Tick t \<in> set evs \<longrightarrow> (\<forall>d. poseDeadlineMsRef s = Some d \<longrightarrow> t < d)"
  shows "run h isoNow evs s = s"
  using assms
proof (induction evs)
  case Nil
  then show ?case by simp
next
  case (Cons e evs)
  then have "step h isoNow e s = s"
    by (cases e) (simp_all add: detect_resolved poseTimerTick_idle)
  with Cons show ?case by simp
qed

text \<open>
  C2: take a round that is playing and pending, with its deadline set, and a stream of
  samples and timer ticks, the ticks all before the deadline, that does not pass the
  round. When the timer's callback then runs at or after the deadline, it resolves the
  round as failed by timeout and adds \<open>floor(best / 10)\<close> to the score, \<open>best\<close> being the
  best accuracy of the round: the greatest of what the round had reached before and of
  the accuracies of the samples (nothing is added when it is 0). Afterwards the game is
  in the next round, unresolved and with a fresh deadline, or finished.
\<close>

theorem timeout_resolves_round:
  assumes "poseTimerIntervalRef s" and "gameStateRef s = Playing"
      and "poseDeadlineMsRef s = Some deadline" and "0 < deadline"
      and "outcome s (currentChallengeRef s) = Some Pending"
      and "0 \<le> bestAccuracy s (currentChallengeRef s)"
      and "\<forall>t. Tick t \<in> set evs \<longrightarrow> t < deadline"
      and "\<not> poseResolvedRef (run h isoNow evs s)"
      and "deadline \<le> now"
  shows "outcome (run h isoNow (evs @ [Tick now]) s) (currentChallengeRef s) = Some Failed
       \<and> scoreRef (run h isoNow (evs @ [Tick now]) s)
           = scoreRef s
             + Max (set (bestAccuracy s (currentChallengeRef s) # observed s evs)) div 10
       \<and> (Max (set (bestAccuracy s (currentChallengeRef s) # observed s evs)) = 0
            \<longrightarrow> scoreRef (run h isoNow (evs @ [Tick now]) s) = scoreRef s)
       \<and> ((currentChallengeRef (run h isoNow (evs @ [Tick now]) s) = currentChallengeRef s + 1
             \<and> gameStateRef (run h isoNow (evs @ [Tick now]) s) = Playing
             \<and> \<not> poseResolvedRef (run h isoNow (evs @ [Tick now]) s)
             \<and> poseDeadlineMsRef (run h isoNow (evs @ [Tick now]) s)
                 = Some (now + POSE_TIME_LIMIT_MS))
            \<or> (gameStateRef (run h isoNow (evs @ [Tick now]) s) = Finished
                \<and> poseResolvedRef (run h isoNow (evs @ [Tick now]) s)))"
proof -
  let ?s' = "run h isoNow evs s"
  let ?B = "Max (set (bestAccuracy s (currentChallengeRef s) # observed s evs))"
  have ticks: "\<forall>t. Tick t \<in> set evs \<longrightarrow> (\<forall>d. poseDeadlineMsRef s = Some d \<longrightarrow> t < d)"
    using assms(3,7) by simp
  have nr: "\<not> poseResolvedRef s"
  proof
    assume "poseResolvedRef s"
    from run_stays_resolved[OF this ticks, of h isoNow] this assms(8) show False by simp
  qed
  have nf: "gameStateRef s \<noteq> Finished" using assms(2) by simp
  note u = run_unresolved[OF nf nr ticks assms(8)]
  have best: "bestAccuracy ?s' (currentChallengeRef ?s') = ?B"
    using u by (simp add: fold_max_Max)
  have "bestAccuracy s (currentChallengeRef s) \<le> ?B" by (intro Max_ge) simp_all
  with assms(6) have "0 \<le> ?B" by (rule order_trans)
  then have pos: "0 \<le> ?B div 10" by (rule pos_imp_zdiv_nonneg_iff[THEN iffD2, rotated]) simp
  have f: "poseTimerIntervalRef ?s'" "gameStateRef ?s' = Playing"
    "poseDeadlineMsRef ?s' = Some deadline" "deadline \<noteq> 0"
    using u assms(1,2,3,4) by simp_all
  note t = poseTimerTick_timeout_fields[OF f assms(9,8), of h isoNow]
  have idx: "currentChallengeRef ?s' = currentChallengeRef s"
    and act: "activeChallengesRef ?s' = activeChallengesRef s"
    and sc: "scoreRef ?s' = scoreRef s"
    and out: "outcome ?s' (currentChallengeRef s) = Some Pending"
    using u assms(5) by (simp_all add: outcome_def)
  have r: "run h isoNow (evs @ [Tick now]) s = poseTimerTick h now isoNow ?s'"
    by (simp add: run_append)
  have 1: "outcome (poseTimerTick h now isoNow ?s') (currentChallengeRef s) = Some Failed"
    using t(2) out by (simp add: idx outcome_def js_get_js_set)
  have 2: "scoreRef (poseTimerTick h now isoNow ?s') = scoreRef s + ?B div 10"
    using t(1) pos by (simp add: best sc)
  have 3: "?B = 0 \<longrightarrow> scoreRef (poseTimerTick h now isoNow ?s') = scoreRef s"
    using 2 by simp
  have 4: "(currentChallengeRef (poseTimerTick h now isoNow ?s') = currentChallengeRef s + 1
             \<and> gameStateRef (poseTimerTick h now isoNow ?s') = Playing
             \<and> \<not> poseResolvedRef (poseTimerTick h now isoNow ?s')
             \<and> poseDeadlineMsRef (poseTimerTick h now isoNow ?s')
                 = Some (now + POSE_TIME_LIMIT_MS))
            \<or> (gameStateRef (poseTimerTick h now isoNow ?s') = Finished
                \<and> poseResolvedRef (poseTimerTick h now isoNow ?s'))"
    using t(3,4) by (cases "int (currentChallengeRef ?s') < int (length (activeChallengesRef ?s')) - 1")
      (simp_all add: idx)
  from 1 2 3 4 show ?thesis unfolding r by blast
qed

text \<open>The scenario of the specification: accuracy 60 and no more until the deadline; the
  tick at 20 s resolves the round as failed with 6 points.\<close>

theorem timeout_resolves_round_witness:
  "poseTimerIntervalRef ana_playing \<and> gameStateRef ana_playing = Playing
   \<and> poseDeadlineMsRef ana_playing = Some 20000
   \<and> outcome ana_playing 0 = Some Pending
   \<and> \<not> poseResolvedRef
         (run ascii_host 0
            [Sample 5000 [wrists_at 155], Tick 5200, Sample 6000 [],
             Sample 7000 [wrists_at 200]] ana_playing)
   \<and> observed ana_playing
       [Sample 5000 [wrists_at 155], Tick 5200, Sample 6000 [], Sample 7000 [wrists_at 200]]
       = [60, 0]
   \<and> outcome
       (run ascii_host 0
          ([Sample 5000 [wrists_at 155], Tick 5200, Sample 6000 [],
            Sample 7000 [wrists_at 200]] @ [Tick 20000]) ana_playing) 0 = Some Failed
   \<and> scoreRef
       (run ascii_host 0
          ([Sample 5000 [wrists_at 155], Tick 5200, Sample 6000 [],
            Sample 7000 [wrists_at 200]] @ [Tick 20000]) ana_playing) = 6
   \<and> currentChallengeRef
       (run ascii_host 0
          ([Sample 5000 [wrists_at 155], Tick 5200, Sample 6000 [],
            Sample 7000 [wrists_at 200]] @ [Tick 20000]) ana_playing) = 1"
proof -
  let ?evs = "[Sample 5000 [wrists_at 155], Tick 5200, Sample 6000 [],
               Sample 7000 [wrists_at 200]]"
  have s: "run ascii_host 0 ?evs ana_playing
           = ana_playing\<lparr>poseBestAccuracyRef := [Some 60, Some 0, Some 0]\<rparr>"
    using validate_wrists_at_60 validate_wrists_at_0
    by (simp add: detect_def poseTimerTick_def ana_playing_eq Let_def js_get_def js_set_def)
  have nr: "\<not> poseResolvedRef (run ascii_host 0 ?evs ana_playing)"
    unfolding s by (simp add: ana_playing_eq)
  have obs: "observed ana_playing ?evs = [60, 0]"
    by (simp add: ana_playing_accuracy)
  have h4: "(0::real) < 20000" by simp
  have h5: "outcome ana_playing (currentChallengeRef ana_playing) = Some Pending"
    by (simp add: ana_playing_fields)
  have h6: "0 \<le> bestAccuracy ana_playing (currentChallengeRef ana_playing)"
    by (simp add: ana_playing_fields)
  have h7: "\<forall>t. Tick t \<in> set ?evs \<longrightarrow> t < 20000" by simp
  have h9: "(20000::real) \<le> 20000" by simp
  note r = timeout_resolves_round[OF ana_playing_fields(6,1,5) h4 h5 h6 h7 nr h9]
  have "currentChallengeRef
          (poseTimerTick ascii_host 20000 0
             (ana_playing\<lparr>poseBestAccuracyRef := [Some 60, Some 0, Some 0]\<rparr>)) = 1"
    by (simp add: poseTimerTick_def ana_playing_eq Let_def clearPoseTimer_def
        startPoseTimer_def js_get_def js_set_def)
  then have idx: "currentChallengeRef (run ascii_host 0 (?evs @ [Tick 20000]) ana_playing) = 1"
    by (subst run_append, subst s) simp
  from r nr obs idx show ?thesis
    by (simp add: ana_playing_fields obs)
qed

section \<open>A dip below the threshold restarts the hold (C3)\<close>


lemma poseTimerTick_outcome_step:
  "outcome (poseTimerTick h now isoNow s) i = outcome s i
   \<or> (outcome s i = Some Pending \<and> outcome (poseTimerTick h now isoNow s) i = Some Failed)"
proof -
  from poseTimerTick_cases[of h now isoNow s] show ?thesis
  proof (elim disjE exE conjE)
    assume "poseTimerTick h now isoNow s = s"
    then show ?thesis by simp
  next
    assume "poseTimerTick h now isoNow s = clearPoseTimer s"
    then show ?thesis by (simp add: outcome_def clearPoseTimer_def)
  next
    fix d
    assume d: "poseTimerIntervalRef s" "gameStateRef s = Playing"
      "poseDeadlineMsRef s = Some d" "d \<noteq> 0" "d \<le> now" "\<not> poseResolvedRef s"
    from poseTimerTick_timeout_fields(2)[OF d, of h isoNow] show ?thesis
      by (auto simp: outcome_def js_get_js_set)
  qed
qed






section \<open>Resolution is final (C4)\<close>

lemma detect_outcome_step:
  assumes "round_pending s"
  shows "outcome (detect now poses s) i = outcome s i
       \<or> (outcome s i = Some Pending \<and> outcome (detect now poses s) i = Some Passed)"
proof (cases "gameStateRef s = Finished \<or> poseResolvedRef s \<or> poses = []")
  case True
  then show ?thesis
    by (auto simp: detect_finished detect_resolved detect_no_pose)
next
  case False
  then obtain pose rest where poses: "poses = pose # rest" by (cases poses) auto
  from False assms have pend: "outcome s (currentChallengeRef s) = Some Pending"
    by (simp add: round_pending_def)
  from False have nf: "gameStateRef s \<noteq> Finished" and nr: "\<not> poseResolvedRef s" by simp_all
  show ?thesis
  proof (cases "\<exists>a. currentAccuracy s pose = Some a \<and> 80 \<le> a")
    case False
    then have "\<forall>a. currentAccuracy s pose = Some a \<longrightarrow> a < 80" by auto
    from detect_low(4)[OF nf nr this] show ?thesis by (simp add: poses outcome_def)
  next
    case True
    then obtain a where a: "currentAccuracy s pose = Some a" "80 \<le> a" by auto
    show ?thesis
    proof (cases "(now - (case holdStartMsRef s of None \<Rightarrow> now | Some h \<Rightarrow> h)) / 1000
                    \<ge> POSE_HOLD_SECONDS")
      case False
      then have "(now - (case holdStartMsRef s of None \<Rightarrow> now | Some h \<Rightarrow> h)) / 1000
                   < POSE_HOLD_SECONDS" by simp
      from detect_holding(4)[OF nf nr a this] show ?thesis by (simp add: poses outcome_def)
    next
      case True
      have "poseResults (detect now (pose # rest) s)
              = js_set (poseResults s) (currentChallengeRef s) Passed"
        using nf nr a True
        by (auto simp: detect_def currentAccuracy_def Let_def clearPoseTimer_def
                 split: option.splits)
      with pend show ?thesis
        by (auto simp: poses outcome_def js_get_js_set)
    qed
  qed
qed

lemma poseTimerTick_resolved:
  "poseResolvedRef s \<Longrightarrow>
     poseResults (poseTimerTick h now isoNow s) = poseResults s
     \<and> scoreRef (poseTimerTick h now isoNow s) = scoreRef s
     \<and> poseResolvedRef (poseTimerTick h now isoNow s)"
  by (auto simp: poseTimerTick_def Let_def clearPoseTimer_def split: option.splits)

text \<open>
  C4: once a round is resolved, a further sample or timeout check changes neither the
  outcomes nor the score and leaves the round resolved; and whatever the state, provided
  an unresolved round is a pending one, an event either leaves the outcome of a round as
  it is or takes it from pending to passed or failed by timeout.
\<close>

theorem resolution_is_final:
  "(poseResolvedRef s \<longrightarrow>
      poseResults (step h isoNow e s) = poseResults s
      \<and> scoreRef (step h isoNow e s) = scoreRef s
      \<and> poseResolvedRef (step h isoNow e s))
   \<and> (round_pending s \<longrightarrow>
        outcome (step h isoNow e s) i = outcome s i
        \<or> (outcome s i = Some Pending
            \<and> (outcome (step h isoNow e s) i = Some Passed
                \<or> outcome (step h isoNow e s) i = Some Failed)))"
proof (cases e)
  case (Sample t ps)
  show ?thesis
    using detect_outcome_step[of s t ps i]
    by (auto simp: Sample detect_resolved)
next
  case (Tick t)
  show ?thesis
    using poseTimerTick_outcome_step[of h t isoNow s i] poseTimerTick_resolved[of s h t isoNow]
    by (auto simp: Tick)
qed

section \<open>An unresolved round is a pending one\<close>

lemma rounds_wf_round_pending: "rounds_wf s \<Longrightarrow> round_pending s"
  by (auto simp: rounds_wf_def round_pending_def outcome_def js_get_def)

lemma rounds_wf_startPoseTimer_next:
  assumes "rounds_wf s"
      and "int (currentChallengeRef s) < int (length (activeChallengesRef s)) - 1"
  shows "rounds_wf ((startPoseTimer now s)\<lparr>currentChallengeRef := currentChallengeRef s + 1\<rparr>)"
  using assms
  by (auto simp: rounds_wf_def startPoseTimer_def clearPoseTimer_def Let_def split: if_splits)

lemma rounds_wf_finishGame: "rounds_wf s \<Longrightarrow> rounds_wf (finishGame h isoNow s)"
  by (simp add: rounds_wf_def finishGame_fields)

lemma rounds_wf_afterPass:
  assumes "rounds_wf s"
  shows "rounds_wf (afterPass h now isoNow s)"
proof (cases "int (currentChallengeRef s) < int (length (activeChallengesRef s)) - 1")
  case True
  with rounds_wf_startPoseTimer_next[OF assms True, of now] show ?thesis
    by (simp only: afterPass_def Let_def if_True)
next
  case False
  with rounds_wf_finishGame[OF assms, of h isoNow] show ?thesis
    by (simp only: afterPass_def Let_def if_False)
qed

lemma rounds_wf_detect: "rounds_wf s \<Longrightarrow> rounds_wf (detect now poses s)"
  by (auto simp: detect_def Let_def clearPoseTimer_def rounds_wf_def js_set_def
           split: list.splits option.splits)

lemma rounds_wf_poseTimerTick:
  assumes "rounds_wf s"
  shows "rounds_wf (poseTimerTick h now isoNow s)"
proof -
  from poseTimerTick_cases[of h now isoNow s] show ?thesis
  proof (elim disjE exE conjE)
    assume "poseTimerTick h now isoNow s = s"
    with assms show ?thesis by simp
  next
    assume "poseTimerTick h now isoNow s = clearPoseTimer s"
    with assms show ?thesis by (simp add: rounds_wf_def clearPoseTimer_def)
  next
    fix d
    assume d: "poseTimerIntervalRef s" "gameStateRef s = Playing"
      "poseDeadlineMsRef s = Some d" "d \<noteq> 0" "d \<le> now" "\<not> poseResolvedRef s"
    note t = poseTimerTick_timeout_fields[OF d, of h isoNow]
    from assms d(6) have len: "currentChallengeRef s < length (poseResults s)"
        "length (activeChallengesRef s) \<le> length (poseResults s)"
      and pend: "\<forall>j < length (poseResults s). currentChallengeRef s \<le> j
                   \<longrightarrow> poseResults s ! j = Some Pending"
      by (simp_all add: rounds_wf_def)
    have res: "poseResults (poseTimerTick h now isoNow s)
               = (poseResults s)[currentChallengeRef s := Some Failed]"
      using t(2) len(1) pend by (simp add: outcome_def js_get_def js_set_def)
    show ?thesis
    proof (cases "int (currentChallengeRef s) < int (length (activeChallengesRef s)) - 1")
      case True
      with t(3) len pend show ?thesis
        by (auto simp: rounds_wf_def res t(5))
    next
      case False
      with t(4) len pend show ?thesis
        by (auto simp: rounds_wf_def res t(5))
    qed
  qed
qed

lemma rounds_wf_step: "rounds_wf s \<Longrightarrow> rounds_wf (step h isoNow e s)"
  by (cases e) (simp_all add: rounds_wf_detect rounds_wf_poseTimerTick)

lemma rounds_wf_start:
  assumes "length selected = 3"
      and "\<not> (\<forall>c\<in>set nm.
                c \<in> set [CHR '' '', CHR 0x09, CHR 0x0A, CHR 0x0B, CHR 0x0C, CHR 0x0D])"
  shows "rounds_wf (startPlaying now (startGame selected (mounted nm item)))"
  using assms
  by (auto simp: rounds_wf_def startPlaying_def startGame_def mounted_def startPoseTimer_def
           clearPoseTimer_def Let_def)

section \<open>Resolution is final: an instance\<close>

theorem resolution_is_final_witness:
  "poseResolvedRef (run ascii_host 0 [Sample 1000 [wrists_at (515 / 4)],
                                      Sample 3500 [wrists_at (515 / 4)]] ana_playing)
   \<and> scoreRef (run ascii_host 0 [Sample 1000 [wrists_at (515 / 4)],
                                 Sample 3500 [wrists_at (515 / 4)]] ana_playing) = 9
   \<and> scoreRef (step ascii_host 0 (Sample 9000 [wrists_at (515 / 4)])
                 (run ascii_host 0 [Sample 1000 [wrists_at (515 / 4)],
                                    Sample 3500 [wrists_at (515 / 4)]] ana_playing)) = 9
   \<and> outcome (step ascii_host 0 (Sample 9000 [wrists_at (515 / 4)])
                (run ascii_host 0 [Sample 1000 [wrists_at (515 / 4)],
                                   Sample 3500 [wrists_at (515 / 4)]] ana_playing)) 0
       = Some Passed
   \<and> round_pending ana_playing
   \<and> outcome ana_playing 0 = Some Pending
   \<and> outcome (step ascii_host 0 (Tick 20000) ana_playing) 0 = Some Failed"
proof -
  let ?p = "wrists_at (515 / 4)"
  let ?s = "run ascii_host 0 [Sample 1000 [?p], Sample 3500 [?p]] ana_playing"
  have s: "?s = ana_playing\<lparr>poseBestAccuracyRef := [Some 95, Some 0, Some 0],
                            poseResolvedRef := True, poseTimerIntervalRef := False,
                            poseDeadlineMsRef := None, scoreRef := 9,
                            poseResults := [Some Passed, Some Pending, Some Pending]\<rparr>"
    using validate_wrists_at_95
    by (simp add: detect_def ana_playing_eq Let_def js_get_def js_set_def POSE_HOLD_SECONDS_def
        clearPoseTimer_def)
  have r: "poseResolvedRef ?s" "scoreRef ?s = 9" "outcome ?s 0 = Some Passed"
    unfolding s by (simp_all add: outcome_def js_get_def)
  have pend: "round_pending ana_playing"
    by (simp add: round_pending_def ana_playing_fields)
  have t: "outcome (step ascii_host 0 (Tick 20000) ana_playing) 0 = Some Failed"
    by (simp add: ana_playing_eq poseTimerTick_def Let_def clearPoseTimer_def js_get_def
        js_set_def outcome_def startPoseTimer_def)
  from resolution_is_final[of ?s ascii_host 0 "Sample 9000 [?p]" 0] r
  have a: "scoreRef (step ascii_host 0 (Sample 9000 [?p]) ?s) = 9"
    "outcome (step ascii_host 0 (Sample 9000 [?p]) ?s) 0 = Some Passed"
    by (simp_all add: outcome_def)
  from resolution_is_final[of ana_playing ascii_host 0 "Tick 20000" 0] pend t
  have "outcome ana_playing 0 = Some Pending" by (simp add: ana_playing_fields)
  with r a pend t show ?thesis by simp
qed

end
